(* ===== verification/Tandem_Prelude.thy ===== *)
theory Tandem_Prelude
  imports Main "HOL-Library.Word" "HOL-Library.List_Lexorder" "HOL-Library.Option_ord"
begin

text \<open>
  The vocabulary every component shares: machine integers at their Rust width, the result type of
  fallible Rust code (a value, an error, or a panic), slice indexing and slicing with their
  out-of-range panics, checked arithmetic, the conversion of a \<open>usize\<close> index to \<open>u32\<close>, and the
  little-endian byte encodings. Rust's \<open>usize\<close> is \<open>nat\<close> (every length the code forms is the length
  of a vector); \<open>i32\<close> is its two's complement word.

  \<open>res_simps\<close> collects the equations that invert a monadic computation; \<open>chk_simps\<close> those
  that reduce checked word arithmetic to arithmetic on \<open>nat\<close>.
\<close>

named_theorems res_simps
named_theorems chk_simps

section \<open>Machine integers\<close>

type_synonym u8 = "8 word"
type_synonym u16 = "16 word"
type_synonym u32 = "32 word"
type_synonym u64 = "64 word"
type_synonym i32 = "32 word"
type_synonym bytes = "u8 list"

abbreviation u32_MAX :: u32 where
  "u32_MAX \<equiv> 0xffffffff"

section \<open>Results\<close>

text \<open>
  \<open>Ok\<close> and \<open>Err\<close> are the constructors of Rust's \<open>Result\<close>; \<open>Panic\<close> is the third way a Rust call
  can end. A function that returns no \<open>Result\<close> but may panic has a polymorphic error type, so
  its only outcomes are \<open>Ok\<close> and \<open>Panic\<close>.
\<close>

datatype ('e, 'a) res = Ok 'a | Err 'e | Panic

fun res_bind :: "('e, 'a) res \<Rightarrow> ('a \<Rightarrow> ('e, 'b) res) \<Rightarrow> ('e, 'b) res" where
  "res_bind (Ok x) f = f x"
| "res_bind (Err e) f = Err e"
| "res_bind Panic f = Panic"

fun map_err :: "('e \<Rightarrow> 'f) \<Rightarrow> ('e, 'a) res \<Rightarrow> ('f, 'a) res" where
  "map_err g (Ok x) = Ok x"
| "map_err g (Err e) = Err (g e)"
| "map_err g Panic = Panic"

definition ok_or :: "'e \<Rightarrow> 'a option \<Rightarrow> ('e, 'a) res" where
  "ok_or e x = (case x of None \<Rightarrow> Err e | Some v \<Rightarrow> Ok v)"

definition is_ok :: "('e, 'a) res \<Rightarrow> bool" where
  "is_ok r = (case r of Ok _ \<Rightarrow> True | _ \<Rightarrow> False)"

text \<open>\<open>collect\<close> of an iterator of results: the first error, or all values.\<close>

fun res_collect :: "('e, 'a) res list \<Rightarrow> ('e, 'a list) res" where
  "res_collect [] = Ok []"
| "res_collect (r # rs) = res_bind r (\<lambda>x. res_bind (res_collect rs) (\<lambda>xs. Ok (x # xs)))"

lemma res_bind_Ok_iff [res_simps]: "res_bind m f = Ok y \<longleftrightarrow> (\<exists>x. m = Ok x \<and> f x = Ok y)"
  by (cases m) auto

lemma res_bind_Err_iff [res_simps]:
  "res_bind m f = Err e \<longleftrightarrow> m = Err e \<or> (\<exists>x. m = Ok x \<and> f x = Err e)"
  by (cases m) auto

lemma res_bind_Panic_iff [res_simps]:
  "res_bind m f = Panic \<longleftrightarrow> m = Panic \<or> (\<exists>x. m = Ok x \<and> f x = Panic)"
  by (cases m) auto

lemma res_bind_cong [fundef_cong]:
  "m = m' \<Longrightarrow> (\<And>x. m' = Ok x \<Longrightarrow> f x = f' x) \<Longrightarrow> res_bind m f = res_bind m' f'"
  by (cases m') auto

lemma map_err_iffs [res_simps]:
  "map_err g m = Ok y \<longleftrightarrow> m = Ok y"
  "map_err g m = Panic \<longleftrightarrow> m = Panic"
  "map_err g m = Err f \<longleftrightarrow> (\<exists>e. m = Err e \<and> g e = f)"
  by (cases m; auto)+

lemma ok_or_iffs [res_simps]:
  "ok_or e x = Ok v \<longleftrightarrow> x = Some v"
  "ok_or e x = Err f \<longleftrightarrow> x = None \<and> e = f"
  "ok_or e x \<noteq> Panic"
  by (auto simp: ok_or_def split: option.splits)

lemma is_ok_iff: "is_ok r \<longleftrightarrow> (\<exists>v. r = Ok v)"
  by (cases r) (auto simp: is_ok_def)

section \<open>Slices\<close>

text \<open>\<open>xs[i]\<close> and \<open>xs[a..b]\<close> panic out of range; \<open>get\<close> returns an option.\<close>

definition index_at :: "'a list \<Rightarrow> nat \<Rightarrow> ('e, 'a) res" where
  "index_at xs i = (if i < length xs then Ok (xs ! i) else Panic)"

definition slice_at :: "'a list \<Rightarrow> nat \<Rightarrow> nat \<Rightarrow> ('e, 'a list) res" where
  "slice_at xs a b = (if a \<le> b \<and> b \<le> length xs then Ok (take (b - a) (drop a xs)) else Panic)"

definition get_at :: "'a list \<Rightarrow> nat \<Rightarrow> 'a option" where
  "get_at xs i = (if i < length xs then Some (xs ! i) else None)"

definition get_range :: "'a list \<Rightarrow> nat \<Rightarrow> nat \<Rightarrow> 'a list option" where
  "get_range xs a b = (if a \<le> b \<and> b \<le> length xs then Some (take (b - a) (drop a xs)) else None)"

lemma index_at_iffs [res_simps]:
  "index_at xs i = Ok x \<longleftrightarrow> i < length xs \<and> xs ! i = x"
  "index_at xs i = Panic \<longleftrightarrow> length xs \<le> i"
  "index_at xs i \<noteq> Err e"
  by (auto simp: index_at_def)

lemma slice_at_iffs [res_simps]:
  "slice_at xs a b = Ok ys \<longleftrightarrow> a \<le> b \<and> b \<le> length xs \<and> take (b - a) (drop a xs) = ys"
  "slice_at xs a b = Panic \<longleftrightarrow> \<not> (a \<le> b \<and> b \<le> length xs)"
  "slice_at xs a b \<noteq> Err e"
  by (auto simp: slice_at_def)

lemma get_at_Some_iff: "get_at xs i = Some x \<longleftrightarrow> i < length xs \<and> xs ! i = x"
  by (auto simp: get_at_def)

text \<open>\<open>iter().enumerate()\<close> from a given index.\<close>

fun enumerate_from :: "nat \<Rightarrow> 'a list \<Rightarrow> (nat \<times> 'a) list" where
  "enumerate_from n [] = []"
| "enumerate_from n (x # xs) = (n, x) # enumerate_from (Suc n) xs"

lemma set_enumerate_from: "set (enumerate_from n xs) = {(n + i, xs ! i) | i. i < length xs}"
proof (induction xs arbitrary: n)
  case (Cons x xs)
  show ?case
  proof (intro set_eqI iffI)
    fix p
    assume "p \<in> {(n + i, (x # xs) ! i) | i. i < length (x # xs)}"
    then obtain i where "p = (n + i, (x # xs) ! i)" "i < length (x # xs)" by auto
    then show "p \<in> set (enumerate_from n (x # xs))"
      by (cases i) (auto simp: Cons.IH)
  qed (auto simp: Cons.IH intro: exI [of _ 0] exI [of _ "Suc _"])
qed simp

lemma find_enumerate:
  assumes "find P (enumerate_from 0 xs) = Some (n, x)"
  shows "n < length xs" and "xs ! n = x"
proof -
  have "(n, x) \<in> set (enumerate_from 0 xs)"
    using assms by (auto simp: find_Some_iff in_set_conv_nth)
  then show "n < length xs" and "xs ! n = x" by (auto simp: set_enumerate_from)
qed

lemma set_map_filter_iff: "y \<in> set (List.map_filter f xs) \<longleftrightarrow> (\<exists>x\<in>set xs. f x = Some y)"
  by (force simp: List.map_filter_def)

section \<open>Checked arithmetic\<close>

definition checked_add :: "'n::len word \<Rightarrow> 'n word \<Rightarrow> 'n word option" where
  "checked_add a b = (if uint a + uint b < 2 ^ LENGTH('n) then Some (a + b) else None)"

definition checked_sub :: "'n::len word \<Rightarrow> 'n word \<Rightarrow> 'n word option" where
  "checked_sub a b = (if b \<le> a then Some (a - b) else None)"

text \<open>
  A plain \<open>+\<close>: it panics on overflow in a build with overflow checks and wraps in one without.
  The model takes the first reading; where it is shown not to panic, both agree.
\<close>

definition plain_add :: "'n::len word \<Rightarrow> 'n word \<Rightarrow> ('e, 'n word) res" where
  "plain_add a b = (if uint a + uint b < 2 ^ LENGTH('n) then Ok (a + b) else Panic)"

definition opt_filter :: "('a \<Rightarrow> bool) \<Rightarrow> 'a option \<Rightarrow> 'a option" where
  "opt_filter P x = (case x of None \<Rightarrow> None | Some v \<Rightarrow> if P v then Some v else None)"

text \<open>\<open>u32::try_from\<close> on a \<open>usize\<close> and on a \<open>u64\<close>; \<open>u64::from\<close> on a \<open>u32\<close>.\<close>

definition u32_of_usize :: "nat \<Rightarrow> u32 option" where
  "u32_of_usize n = (if int n < 4294967296 then Some (word_of_int (int n)) else None)"

definition u32_of_u64 :: "u64 \<Rightarrow> u32 option" where
  "u32_of_u64 w = (if w < 4294967296 then Some (ucast w) else None)"

definition u64_of_u32 :: "u32 \<Rightarrow> u64" where
  "u64_of_u32 w = ucast w"

lemma unat_sum_fits: "uint (a::'n::len word) + uint b < 2 ^ LENGTH('n) \<longleftrightarrow> unat a + unat b < 2 ^ LENGTH('n)"
proof -
  have "uint a + uint b = int (unat a + unat b)" by simp
  moreover have "(2::int) ^ LENGTH('n) = int (2 ^ LENGTH('n))" by simp
  ultimately show ?thesis by (simp only: of_nat_less_iff)
qed

lemma unat_add_fits:
  "unat (a::'n::len word) + unat b < 2 ^ LENGTH('n) \<Longrightarrow> unat (a + b) = unat a + unat b"
  by (simp add: unat_word_ariths)

lemma checked_add_Some_iff [chk_simps]:
  "checked_add a b = Some (c::'n::len word) \<longleftrightarrow> unat c = unat a + unat b"
proof
  assume "checked_add a b = Some c"
  then show "unat c = unat a + unat b"
    by (auto simp: checked_add_def unat_sum_fits unat_add_fits split: if_splits)
next
  assume *: "unat c = unat a + unat b"
  then have fits: "unat a + unat b < 2 ^ LENGTH('n)" by (metis unsigned_less)
  with * have "c = a + b" by (metis unat_add_fits word_unat_eq_iff)
  with fits show "checked_add a b = Some c" by (simp add: checked_add_def unat_sum_fits)
qed

lemma checked_add_None_iff [chk_simps]:
  "checked_add a b = None \<longleftrightarrow> 2 ^ LENGTH('n) \<le> unat (a::'n::len word) + unat b"
  by (auto simp: checked_add_def unat_sum_fits)

lemma checked_sub_Some_iff [chk_simps]:
  "checked_sub a b = Some (c::'n::len word) \<longleftrightarrow> unat a = unat b + unat c"
proof
  assume "checked_sub a b = Some c"
  then show "unat a = unat b + unat c"
    by (auto simp: checked_sub_def unat_sub word_le_nat_alt split: if_splits)
next
  assume *: "unat a = unat b + unat c"
  then have "b \<le> a" by (simp add: word_le_nat_alt)
  with * have "a - b = c" by (simp add: word_unat_eq_iff unat_sub)
  with \<open>b \<le> a\<close> show "checked_sub a b = Some c" by (simp add: checked_sub_def)
qed

lemma checked_sub_None_iff [chk_simps]:
  "checked_sub a b = None \<longleftrightarrow> unat a < unat (b::'n::len word)"
  by (simp add: checked_sub_def word_le_nat_alt)

lemma plain_add_iffs [res_simps]:
  "plain_add a b = Ok (c::'n::len word) \<longleftrightarrow> unat c = unat a + unat b"
  "plain_add a b = Panic \<longleftrightarrow> 2 ^ LENGTH('n) \<le> unat (a::'n::len word) + unat b"
  "plain_add a b \<noteq> Err e"
  using checked_add_Some_iff [of a b c]
  by (auto simp: plain_add_def checked_add_def unat_sum_fits split: if_splits)

lemma opt_filter_iffs [simp]:
  "opt_filter P x = Some v \<longleftrightarrow> x = Some v \<and> P v"
  "opt_filter P x = None \<longleftrightarrow> x = None \<or> (\<exists>v. x = Some v \<and> \<not> P v)"
  by (auto simp: opt_filter_def split: option.splits)

lemma u32_of_usize_Some_iff: "u32_of_usize n = Some w \<longleftrightarrow> unat w = n"
proof
  assume "u32_of_usize n = Some w"
  then show "unat w = n"
    by (auto simp: u32_of_usize_def unat_of_nat take_bit_nat_eq_self_iff split: if_splits)
next
  assume *: "unat w = n"
  have "unat w < 2 ^ 32" using unsigned_less [of w] by simp
  with * show "u32_of_usize n = Some w" by (auto simp: u32_of_usize_def)
qed

lemma u32_of_usize_None_iff: "u32_of_usize n = None \<longleftrightarrow> 4294967296 \<le> n"
  by (auto simp: u32_of_usize_def)

lemma u32_of_u64_Some_iff [chk_simps]: "u32_of_u64 a = Some w \<longleftrightarrow> unat w = unat a"
proof
  assume "u32_of_u64 a = Some w"
  then show "unat w = unat a"
    by (auto simp: u32_of_u64_def unsigned_ucast_eq word_less_nat_alt
        take_bit_nat_eq_self_iff split: if_splits)
next
  assume *: "unat w = unat a"
  have "unat w < 2 ^ 32" using unsigned_less [of w] by simp
  with * have "a < 4294967296" by (simp add: word_less_nat_alt)
  moreover have "ucast a = w" using * \<open>unat w < 2 ^ 32\<close>
    by (simp add: word_unat_eq_iff unsigned_ucast_eq take_bit_nat_eq_self_iff)
  ultimately show "u32_of_u64 a = Some w" by (simp add: u32_of_u64_def)
qed

lemma u32_of_u64_None_iff [chk_simps]: "u32_of_u64 a = None \<longleftrightarrow> 4294967296 \<le> unat a"
  by (simp add: u32_of_u64_def word_less_nat_alt not_less)

lemma unat_u64_of_u32 [chk_simps]: "unat (u64_of_u32 w) = unat w"
proof -
  have "unat w < 2 ^ 32" using unsigned_less [of w] by simp
  then show ?thesis by (simp add: u64_of_u32_def unsigned_ucast_eq take_bit_nat_eq_self_iff)
qed

lemma u32_bound: "unat (w :: u32) < 4294967296"
  using unsigned_less [of w] by simp

lemma u64_bound: "unat (w :: u64) < 18446744073709551616"
  using unsigned_less [of w] by simp

end
