(* ===== verification/Byte_Arrays.thy ===== *)
theory Byte_Arrays
  imports Tandem_Prelude
begin

text \<open>
  Rust's fixed arrays \<open>[u8; N]\<close> as a type indexed by their length, with the lexicographic order
  that \<open>derive(Ord)\<close> gives them, and the little-endian encodings \<open>to_le_bytes\<close> and
  \<open>from_le_bytes\<close>. The last section is the calculus of fixed-width concatenations used to show
  that every hash preimage of the program determines the fields it was built from.
\<close>

section \<open>Fixed-length arrays\<close>

typedef (overloaded) ('n::len) byte_array = "{bs :: bytes. length bs = LENGTH('n)}"
  morphisms bytes_of Abs_byte_array
  by (rule exI [of _ "replicate LENGTH('n) 0"]) simp

lemma length_bytes_of [simp]: "length (bytes_of (a :: 'n::len byte_array)) = LENGTH('n)"
  using bytes_of [of a] by simp

lemma bytes_of_eq_iff [simp]: "bytes_of a = bytes_of b \<longleftrightarrow> a = b"
  by (rule bytes_of_inject)

text \<open>
  \<open>array_of\<close> builds an array from bytes; \<open>array_try_from\<close> is \<open>try_into\<close>, which fails when the
  length is wrong.
\<close>

definition array_of :: "bytes \<Rightarrow> 'n::len byte_array" where
  "array_of xs = Abs_byte_array (take LENGTH('n) (xs @ replicate LENGTH('n) 0))"

definition array_try_from :: "bytes \<Rightarrow> 'n::len byte_array option" where
  "array_try_from xs = (if length xs = LENGTH('n) then Some (array_of xs) else None)"

definition zero_array :: "'n::len byte_array" where
  "zero_array = array_of (replicate LENGTH('n) 0)"

lemma byte_array_abstype [code abstype]: "Abs_byte_array (bytes_of a) = a"
  by (rule bytes_of_inverse)

lemma bytes_of_array_of_code [code]:
  "bytes_of (array_of xs :: 'n::len byte_array) = take LENGTH('n) (xs @ replicate LENGTH('n) 0)"
  by (simp add: array_of_def Abs_byte_array_inverse)

lemma bytes_of_array_of [simp]:
  "length xs = LENGTH('n) \<Longrightarrow> bytes_of (array_of xs :: 'n::len byte_array) = xs"
  by (simp add: bytes_of_array_of_code)

lemma array_of_bytes_of [simp]: "array_of (bytes_of a) = a"
  by (simp flip: bytes_of_eq_iff)

lemma array_try_from_Some_iff: "array_try_from xs = Some a \<longleftrightarrow> bytes_of a = xs"
  by (auto simp: array_try_from_def)

lemma array_try_from_None_iff:
  "(array_try_from xs :: 'n::len byte_array option) = None \<longleftrightarrow> length xs \<noteq> LENGTH('n)"
  by (simp add: array_try_from_def)

instantiation byte_array :: (len) equal
begin

definition equal_byte_array :: "'a byte_array \<Rightarrow> 'a byte_array \<Rightarrow> bool" where
  "equal_byte_array a b = (bytes_of a = bytes_of b)"

instance
  by standard (simp add: equal_byte_array_def)

end

instantiation byte_array :: (len) linorder
begin

definition less_eq_byte_array :: "'a byte_array \<Rightarrow> 'a byte_array \<Rightarrow> bool" where
  "less_eq_byte_array a b = (bytes_of a \<le> bytes_of b)"

definition less_byte_array :: "'a byte_array \<Rightarrow> 'a byte_array \<Rightarrow> bool" where
  "less_byte_array a b = (bytes_of a < bytes_of b)"

instance
proof
  fix a b c :: "'a byte_array"
  show "a < b \<longleftrightarrow> a \<le> b \<and> \<not> b \<le> a"
    by (simp add: less_eq_byte_array_def less_byte_array_def less_le_not_le)
  show "a \<le> a" by (simp add: less_eq_byte_array_def)
  show "a \<le> b \<Longrightarrow> b \<le> c \<Longrightarrow> a \<le> c" by (auto simp: less_eq_byte_array_def)
  show "a \<le> b \<Longrightarrow> b \<le> a \<Longrightarrow> a = b"
    by (simp add: less_eq_byte_array_def flip: bytes_of_eq_iff)
  show "a \<le> b \<or> b \<le> a" by (auto simp: less_eq_byte_array_def)
qed

end

section \<open>Little-endian encodings\<close>

fun le_digits :: "nat \<Rightarrow> int \<Rightarrow> bytes" where
  "le_digits 0 n = []"
| "le_digits (Suc k) n = word_of_int n # le_digits k (n div 256)"

fun le_value :: "bytes \<Rightarrow> int" where
  "le_value [] = 0"
| "le_value (b # bs) = uint b + 256 * le_value bs"

definition to_le_bytes :: "'n::len word \<Rightarrow> bytes" where
  "to_le_bytes w = le_digits (LENGTH('n) div 8) (uint w)"

definition from_le_bytes :: "bytes \<Rightarrow> 'n::len word" where
  "from_le_bytes bs = word_of_int (le_value bs)"

lemma length_le_digits [simp]: "length (le_digits k n) = k"
  by (induction k arbitrary: n) auto

lemma length_to_le_bytes [simp]: "length (to_le_bytes (w :: 'n::len word)) = LENGTH('n) div 8"
  by (simp add: to_le_bytes_def)

lemma le_value_le_digits: "le_value (le_digits k n) = n mod 256 ^ k"
proof (induction k arbitrary: n)
  case (Suc k)
  have byte: "uint (word_of_int n :: u8) = n mod 256"
    by (simp add: uint_word_of_int)
  have "n mod 256 ^ Suc k = n mod 256 + 256 * (n div 256 mod 256 ^ k)"
    by (simp add: mod_mult2_eq' [symmetric] zmod_zmult2_eq)
  with Suc byte show ?case by simp
qed simp

lemma from_to_le_bytes:
  assumes "8 * k = LENGTH('n)"
  shows "from_le_bytes (to_le_bytes (w :: 'n::len word)) = w"
proof -
  have "(256::int) ^ k = 2 ^ LENGTH('n)"
    by (simp flip: assms add: power_mult)
  moreover have "LENGTH('n) div 8 = k" using assms by simp
  ultimately have "le_value (to_le_bytes w) = uint w"
    by (simp add: to_le_bytes_def le_value_le_digits)
  then show ?thesis by (simp add: from_le_bytes_def)
qed

lemma from_to_le_bytes_widths [simp]:
  "from_le_bytes (to_le_bytes (a::u16)) = a"
  "from_le_bytes (to_le_bytes (b::u32)) = b"
  "from_le_bytes (to_le_bytes (c::u64)) = c"
  using from_to_le_bytes [of 2 a] from_to_le_bytes [of 4 b] from_to_le_bytes [of 8 c] by simp_all

lemma le_digits_value: "le_digits (length bs) (le_value bs) = bs"
proof (induction bs)
  case (Cons b bs)
  have "uint b < 256" "0 \<le> uint b" using uint_lt2p [of b] by simp_all
  then have "(uint b + 256 * le_value bs) div 256 = le_value bs" "(uint b + 256 * le_value bs) mod 256 = uint b" by simp_all
  moreover have "(word_of_int n :: u8) = word_of_int (n mod 256)" for n
    by (simp add: word_of_int_eq_iff take_bit_int_def)
  then have "(word_of_int (uint b + 256 * le_value bs) :: u8) = b"
    using calculation(2) by (metis word_of_int_uint)
  ultimately show ?case using Cons by simp
qed simp

lemma le_value_bounds: "0 \<le> le_value bs \<and> le_value bs < 256 ^ length bs"
proof (induction bs)
  case (Cons b bs)
  have "uint b < 256" "0 \<le> uint b" using uint_lt2p [of b] by simp_all
  then show ?case using Cons by auto
qed simp

lemma to_from_le_bytes:
  assumes "8 * length bs = LENGTH('n)"
  shows "to_le_bytes (from_le_bytes bs :: 'n::len word) = bs"
proof -
  have "(256 :: int) ^ length bs = 2 ^ LENGTH('n)" by (simp flip: assms add: power_mult)
  then have "uint (from_le_bytes bs :: 'n word) = le_value bs"
    using le_value_bounds [of bs] by (simp add: from_le_bytes_def uint_word_of_int)
  moreover have "LENGTH('n) div 8 = length bs" using assms by simp
  ultimately show ?thesis using le_digits_value [of bs] by (simp add: to_le_bytes_def)
qed

lemma to_le_bytes_inject [simp]:
  "to_le_bytes (a::u16) = to_le_bytes a' \<longleftrightarrow> a = a'"
  "to_le_bytes (b::u32) = to_le_bytes b' \<longleftrightarrow> b = b'"
  "to_le_bytes (c::u64) = to_le_bytes c' \<longleftrightarrow> c = c'"
  by (metis from_to_le_bytes_widths)+

section \<open>Fixed-width concatenations\<close>

text \<open>Two concatenations with blocks of equal width are equal exactly when the blocks are.\<close>

lemma append_eq_same_width:
  "length xs = length us \<Longrightarrow> xs @ ys = us @ vs \<longleftrightarrow> xs = us \<and> ys = vs"
  by simp

lemma append_prefix_neq:
  assumes "take n xs \<noteq> take n us" and "n \<le> length xs" and "n \<le> length us"
  shows "xs @ ys \<noteq> us @ vs"
  using assms by (metis append_eq_append_conv_if take_append diff_is_0_eq take_0 append_Nil2)

lemma take_drop_step: "i < length p \<Longrightarrow> take (Suc n) (drop i p) = p ! i # take n (drop (Suc i) p)"
  by (simp flip: Cons_nth_drop_Suc)

lemma slice_of_blocks:
  "length xs = a \<Longrightarrow> length ys = n \<Longrightarrow> take n (drop a (xs @ ys @ zs)) = ys"
  by simp

end
