(* ===== verification/BTree_Map.thy ===== *)
theory BTree_Map
  imports Tandem_Prelude
begin

text \<open>
  The standard library's \<open>BTreeMap\<close> as the reducer uses it: a finite map whose entries are held,
  compared and iterated in strictly increasing key order. The representation is the sorted list of
  entries itself, so that equality of maps is equality of contents, as Rust's \<open>PartialEq\<close> has it.
  The locale \<open>ordered_map\<close> is the contract the reducer relies on; the facts its clients need
  (extensionality, sizes, counting the values that satisfy a predicate) are proved from the contract
  alone and reach the model through the interpretation \<open>bt\<close>.
\<close>

section \<open>The contract\<close>

locale ordered_map =
  fixes empty_map :: "'m"
    and insert_map :: "'k::linorder \<Rightarrow> 'v \<Rightarrow> 'm \<Rightarrow> 'm"
    and remove_map :: "'k \<Rightarrow> 'm \<Rightarrow> 'm"
    and get_map :: "'m \<Rightarrow> 'k \<Rightarrow> 'v option"
    and entries_map :: "'m \<Rightarrow> ('k \<times> 'v) list"
  assumes get_empty: "get_map empty_map k = None"
    and get_insert: "get_map (insert_map k v m) = (get_map m)(k \<mapsto> v)"
    and get_remove: "get_map (remove_map k m) = (get_map m)(k := None)"
    and entries_sorted: "sorted_wrt (<) (map fst (entries_map m))"
    and entries_get: "get_map m = map_of (entries_map m)"
    and entries_inject: "entries_map m = entries_map m' \<Longrightarrow> m = m'"
begin

lemma entries_distinct: "distinct (map fst (entries_map m))"
  using entries_sorted [of m] by (simp add: strict_sorted_iff)

lemma get_iff_entries: "get_map m k = Some v \<longleftrightarrow> (k, v) \<in> set (entries_map m)"
  using entries_distinct [of m] by (simp add: entries_get)

lemma ext_map:
  assumes "get_map m = get_map m'"
  shows "m = m'"
proof (rule entries_inject, rule map_sorted_distinct_set_unique [where f = fst])
  show "set (entries_map m) = set (entries_map m')"
    using assms by (auto simp flip: get_iff_entries)
  then show "inj_on fst (set (entries_map m) \<union> set (entries_map m'))"
    using entries_distinct [of m] by (simp add: distinct_map)
qed (use entries_sorted in \<open>auto simp: strict_sorted_iff\<close>)

lemma insert_same:
  assumes "get_map m k = Some v"
  shows "insert_map k v m = m"
  by (rule ext_map) (use assms in \<open>auto simp: get_insert\<close>)

lemma insert_insert: "insert_map k v (insert_map k w m) = insert_map k v m"
  by (rule ext_map) (auto simp: get_insert)

lemma remove_absent:
  assumes "get_map m k = None"
  shows "remove_map k m = m"
  by (rule ext_map) (use assms in \<open>auto simp: get_remove\<close>)

lemma remove_insert_fresh:
  assumes "get_map m k = None"
  shows "remove_map k (insert_map k v m) = m"
  by (rule ext_map) (use assms in \<open>auto simp: get_insert get_remove\<close>)

lemma finite_dom_get: "finite (dom (get_map m))"
  by (simp add: entries_get finite_dom_map_of)

lemma length_entries: "length (entries_map m) = card (dom (get_map m))"
proof -
  have "dom (get_map m) = set (map fst (entries_map m))"
    by (simp add: entries_get dom_map_of_conv_image_fst)
  then show ?thesis
    by (metis distinct_card entries_distinct length_map)
qed

lemma keys_entries: "set (map fst (entries_map m)) = dom (get_map m)"
  by (simp add: entries_get dom_map_of_conv_image_fst)

lemma length_insert:
  "length (entries_map (insert_map k v m)) =
     (if get_map m k = None then Suc (length (entries_map m)) else length (entries_map m))"
  by (auto simp: length_entries get_insert finite_dom_get domIff card_insert_if insert_absorb)

text \<open>Counting the values that satisfy a predicate is counting keys.\<close>

lemma count_values:
  "length (filter P (map snd (entries_map m))) =
     card {k. \<exists>v. get_map m k = Some v \<and> P v}"
proof -
  let ?es = "filter (P \<circ> snd) (entries_map m)"
  have "distinct (map fst ?es)"
    using entries_distinct by (rule distinct_map_filter)
  then have "length ?es = card (set (map fst ?es))"
    by (metis distinct_card length_map)
  moreover have "set (map fst ?es) = {k. \<exists>v. get_map m k = Some v \<and> P v}"
    by (force simp: get_iff_entries)
  ultimately show ?thesis
    by (simp add: filter_map)
qed

end

section \<open>The implementation\<close>

typedef (overloaded) ('k::linorder, 'v) btreemap = "{xs :: ('k \<times> 'v) list. sorted_wrt (<) (map fst xs)}"
  morphisms bt_entries Abs_btreemap
  by (rule exI [of _ "[]"]) simp

fun sl_insert :: "'k::linorder \<Rightarrow> 'v \<Rightarrow> ('k \<times> 'v) list \<Rightarrow> ('k \<times> 'v) list" where
  "sl_insert k v [] = [(k, v)]"
| "sl_insert k v ((k', v') # xs) =
     (if k < k' then (k, v) # (k', v') # xs
      else if k = k' then (k, v) # xs
      else (k', v') # sl_insert k v xs)"

definition sl_remove :: "'k::linorder \<Rightarrow> ('k \<times> 'v) list \<Rightarrow> ('k \<times> 'v) list" where
  "sl_remove k xs = filter (\<lambda>e. fst e \<noteq> k) xs"

definition bt_new :: "('k::linorder, 'v) btreemap" where
  "bt_new = Abs_btreemap []"

definition bt_insert :: "'k::linorder \<Rightarrow> 'v \<Rightarrow> ('k, 'v) btreemap \<Rightarrow> ('k, 'v) btreemap" where
  "bt_insert k v m = Abs_btreemap (sl_insert k v (bt_entries m))"

definition bt_remove :: "'k::linorder \<Rightarrow> ('k, 'v) btreemap \<Rightarrow> ('k, 'v) btreemap" where
  "bt_remove k m = Abs_btreemap (sl_remove k (bt_entries m))"

definition bt_get :: "('k::linorder, 'v) btreemap \<Rightarrow> 'k \<Rightarrow> 'v option" where
  "bt_get m k = map_of (bt_entries m) k"

definition bt_values :: "('k::linorder, 'v) btreemap \<Rightarrow> 'v list" where
  "bt_values m = map snd (bt_entries m)"

definition bt_len :: "('k::linorder, 'v) btreemap \<Rightarrow> nat" where
  "bt_len m = length (bt_entries m)"

text \<open>\<open>into_iter().collect()\<close> on a list of pairs: later pairs overwrite earlier ones.\<close>

definition bt_collect :: "('k::linorder \<times> 'v) list \<Rightarrow> ('k, 'v) btreemap" where
  "bt_collect ps = fold (\<lambda>(k, v). bt_insert k v) ps bt_new"

text \<open>\<open>get_mut\<close>: apply a function to the stored value, if there is one.\<close>

definition bt_update :: "'k::linorder \<Rightarrow> ('v \<Rightarrow> 'v) \<Rightarrow> ('k, 'v) btreemap \<Rightarrow> ('k, 'v) btreemap" where
  "bt_update k f m = (case bt_get m k of None \<Rightarrow> m | Some v \<Rightarrow> bt_insert k (f v) m)"

instantiation btreemap :: (linorder, equal) equal
begin

definition equal_btreemap :: "('a, 'b) btreemap \<Rightarrow> ('a, 'b) btreemap \<Rightarrow> bool" where
  "equal_btreemap m m' = (bt_entries m = bt_entries m')"

instance
  by standard (simp add: equal_btreemap_def bt_entries_inject)

end

lemma fst_sl_insert: "set (map fst (sl_insert k v xs)) = insert k (set (map fst xs))"
  by (induction k v xs rule: sl_insert.induct) auto

lemma sorted_sl_insert:
  "sorted_wrt (<) (map fst xs) \<Longrightarrow> sorted_wrt (<) (map fst (sl_insert k v xs))"
proof (induction k v xs rule: sl_insert.induct)
  case (2 k v k' v' xs)
  then show ?case
    using fst_sl_insert [of k v xs] by (auto simp flip: set_map)
qed simp

lemma sorted_sl_remove:
  "sorted_wrt (<) (map fst xs) \<Longrightarrow> sorted_wrt (<) (map fst (sl_remove k xs))"
  by (induction xs) (auto simp: sl_remove_def)

lemma map_of_sl_insert:
  "sorted_wrt (<) (map fst xs) \<Longrightarrow> map_of (sl_insert k v xs) = (map_of xs)(k \<mapsto> v)"
proof (induction k v xs rule: sl_insert.induct)
  case (2 k v k' v' xs)
  then show ?case by (auto simp: fun_eq_iff)
qed simp

lemma map_of_sl_remove: "map_of (sl_remove k xs) = (map_of xs)(k := None)"
  by (induction xs) (auto simp: sl_remove_def fun_eq_iff)

lemma bt_entries_sorted: "sorted_wrt (<) (map fst (bt_entries m))"
  using bt_entries [of m] by simp

lemma btreemap_abstype [code abstype]: "Abs_btreemap (bt_entries m) = m"
  by (rule bt_entries_inverse)

lemma bt_entries_new [code]: "bt_entries bt_new = []"
  by (simp add: bt_new_def Abs_btreemap_inverse)

lemma bt_entries_insert [code]: "bt_entries (bt_insert k v m) = sl_insert k v (bt_entries m)"
  by (simp add: bt_insert_def Abs_btreemap_inverse sorted_sl_insert bt_entries_sorted)

lemma bt_entries_remove [code]: "bt_entries (bt_remove k m) = sl_remove k (bt_entries m)"
  by (simp add: bt_remove_def Abs_btreemap_inverse sorted_sl_remove bt_entries_sorted)

interpretation bt: ordered_map bt_new bt_insert bt_remove bt_get bt_entries
  by unfold_locales (auto simp: bt_get_def bt_entries_new bt_entries_insert bt_entries_remove
      bt_entries_sorted map_of_sl_insert map_of_sl_remove bt_entries_inject fun_eq_iff)

lemmas bt_get_simps [simp] = bt.get_empty bt.get_insert bt.get_remove bt.insert_insert

lemma bt_get_update [simp]: "bt_get (bt_update k f m) = (bt_get m)(k := map_option f (bt_get m k))"
  by (auto simp: bt_update_def fun_eq_iff split: option.splits)

lemma bt_len_card: "bt_len m = card (dom (bt_get m))"
  by (simp add: bt_len_def bt.length_entries)

lemma bt_values_count: "length (filter P (bt_values m)) = card {k. \<exists>v. bt_get m k = Some v \<and> P v}"
  unfolding bt_values_def by (rule bt.count_values)

lemma bt_collect_code [code abstract]:
  "bt_entries (bt_collect ps) = fold (\<lambda>(k, v). sl_insert k v) ps []"
proof -
  have "bt_entries (fold (\<lambda>(k, v). bt_insert k v) ps m) = fold (\<lambda>(k, v). sl_insert k v) ps (bt_entries m)"
    for m :: "('a, 'b) btreemap"
    by (induction ps arbitrary: m) (auto simp: bt_entries_insert)
  then show ?thesis by (simp add: bt_collect_def bt_entries_new)
qed

text \<open>Collecting a list of pairs with distinct keys loses nothing; a duplicate shrinks the map.\<close>

lemma bt_collect_get:
  "bt_get (fold (\<lambda>(k, v). bt_insert k v) ps m) = bt_get m ++ map_of (rev ps)"
proof (induction ps arbitrary: m)
  case (Cons p ps)
  obtain k v where "p = (k, v)" by force
  with Cons show ?case
    by (auto simp: fun_eq_iff map_add_def split: option.splits)
qed simp

lemma bt_len_collect: "bt_len (bt_collect ps) = card (fst ` set ps)"
proof -
  have "dom (bt_get (bt_collect ps)) = fst ` set ps"
    by (simp add: bt_collect_def bt_collect_get dom_map_of_conv_image_fst dom_def [of "bt_get bt_new"])
  then show ?thesis by (simp add: bt_len_card)
qed

lemma bt_collect_get_distinct:
  assumes "distinct (map fst ps)"
  shows "bt_get (bt_collect ps) = map_of ps"
proof -
  have "map_of (rev ps) = map_of ps"
    by (rule map_of_inject_set [THEN iffD2]) (use assms in \<open>auto simp: rev_map [symmetric]\<close>)
  then show ?thesis
    by (simp add: bt_collect_def bt_collect_get fun_eq_iff map_add_def split: option.splits)
qed

lemma bt_collect_entries: "bt_collect (bt_entries m) = m"
  by (rule bt.ext_map) (simp add: bt_collect_get_distinct bt.entries_distinct bt_get_def fun_eq_iff)

end
