(* ===== verification/Tandem_Types.thy ===== *)
theory Tandem_Types
  imports Byte_Arrays BTree_Map
begin

text \<open>
  The consensus data types of \<open>crates/tandem-core/src/types.rs\<close>, in the order of the file:
  protocol constants, digests and keys, outpoints, key pairs and their scripts, the network and
  deployment binding, opcodes, reasons and event classes, the resolved transaction and block
  views, events, objects and the chain state. Structs are records (an outpoint, which is a map key,
  is a datatype with a linear order), enums are datatypes, and a discriminant that the code casts to
  an integer is a function.

  The third-party crates the file calls are the fields of \<open>externals\<close>, the parameter \<open>X\<close>
  of every definition that uses one: SHA-256 (\<open>sha2\<close>), HASH160 (\<open>bitcoin\<close>), the
  secp256k1 point check (\<open>secp256k1\<close>) and hexadecimal text (\<open>hex\<close>).
\<close>

section \<open>External crates\<close>

record externals =
  sha256_digest :: "bytes \<Rightarrow> 32 byte_array"
  hash160_digest :: "bytes \<Rightarrow> 20 byte_array"
  secp256k1_from_slice_ok :: "bytes \<Rightarrow> bool"
  hex_encode :: "bytes \<Rightarrow> string"
  hex_decode :: "string \<Rightarrow> bytes option"
  hex_decode_to_slice :: "string \<Rightarrow> nat \<Rightarrow> bytes option"

text \<open>
  What the code relies on of the \<open>hex\<close> crate: decoding inverts encoding, and a decode into a slice
  of \<open>n\<close> bytes either fails or fills exactly that slice with what the plain decoder yields.
\<close>

definition hex_laws :: "externals \<Rightarrow> bool" where
  "hex_laws X \<longleftrightarrow>
     (\<forall>bs. hex_decode X (hex_encode X bs) = Some bs) \<and>
     (\<forall>s n. hex_decode_to_slice X s n =
        (case hex_decode X s of None \<Rightarrow> None | Some bs \<Rightarrow> if length bs = n then Some bs else None))"

datatype hex_error = FromHexError

section \<open>Constants\<close>

definition MAGIC :: bytes where "MAGIC = [0x54, 0x4e, 0x44, 0x4d]"
definition VERSION :: u8 where "VERSION = 1"
definition CARRIER_VALUE :: u64 where "CARRIER_VALUE = 20000"
definition REFUND_DELAY :: u32 where "REFUND_DELAY = 52560"
definition FOUNDING_WINDOW :: u32 where "FOUNDING_WINDOW = 4320"
definition INIT_LEAD :: u32 where "INIT_LEAD = 1008"
definition CHANGE_FLOOR :: u64 where "CHANGE_FLOOR = 1000"
definition RBF_SEQUENCE :: u32 where "RBF_SEQUENCE = 0xfffffffd"

lemmas const_defs = MAGIC_def VERSION_def CARRIER_VALUE_def REFUND_DELAY_def FOUNDING_WINDOW_def
  INIT_LEAD_def CHANGE_FLOOR_def RBF_SEQUENCE_def

section \<open>Digests\<close>

type_synonym hash32 = "32 byte_array"

definition hash32_ZERO :: hash32 where
  "hash32_ZERO = zero_array"

definition hash32_sha256 :: "externals \<Rightarrow> bytes \<Rightarrow> hash32" where
  "hash32_sha256 X bs = sha256_digest X bs"

definition hash32_from_hex :: "externals \<Rightarrow> string \<Rightarrow> (hex_error, hash32) res" where
  "hash32_from_hex X s =
     (case hex_decode_to_slice X s 32 of None \<Rightarrow> Err FromHexError | Some bs \<Rightarrow> Ok (array_of bs))"

definition hash32_to_hex :: "externals \<Rightarrow> hash32 \<Rightarrow> string" where
  "hash32_to_hex X h = hex_encode X (bytes_of h)"

definition hash32_is_zero :: "hash32 \<Rightarrow> bool" where
  "hash32_is_zero h = (bytes_of h = replicate 32 0)"

section \<open>Outpoints\<close>

datatype outpoint_ref = OutPointRef (op_txid: hash32) (op_vout: u32)

definition outpoint_ZERO :: outpoint_ref where
  "outpoint_ZERO = OutPointRef hash32_ZERO 0"

definition wire_bytes :: "outpoint_ref \<Rightarrow> bytes" where
  "wire_bytes p = bytes_of (op_txid p) @ to_le_bytes (op_vout p)"

instantiation outpoint_ref :: linorder
begin

definition less_eq_outpoint_ref :: "outpoint_ref \<Rightarrow> outpoint_ref \<Rightarrow> bool" where
  "less_eq_outpoint_ref p q \<longleftrightarrow>
     op_txid p < op_txid q \<or> op_txid p = op_txid q \<and> op_vout p \<le> op_vout q"

definition less_outpoint_ref :: "outpoint_ref \<Rightarrow> outpoint_ref \<Rightarrow> bool" where
  "less_outpoint_ref p q \<longleftrightarrow>
     op_txid p < op_txid q \<or> op_txid p = op_txid q \<and> op_vout p < op_vout q"

instance
proof
  fix p q r :: outpoint_ref
  show "p < q \<longleftrightarrow> p \<le> q \<and> \<not> q \<le> p"
    by (auto simp: less_eq_outpoint_ref_def less_outpoint_ref_def)
  show "p \<le> p" by (simp add: less_eq_outpoint_ref_def)
  show "p \<le> q \<Longrightarrow> q \<le> r \<Longrightarrow> p \<le> r"
    by (auto simp: less_eq_outpoint_ref_def)
  show "p \<le> q \<Longrightarrow> q \<le> p \<Longrightarrow> p = q"
    by (auto simp: less_eq_outpoint_ref_def intro: outpoint_ref.expand)
  show "p \<le> q \<or> q \<le> p"
    by (auto simp: less_eq_outpoint_ref_def)
qed

end

section \<open>Keys\<close>

type_synonym key33 = "33 byte_array"

definition key33_ZERO :: key33 where
  "key33_ZERO = zero_array"

definition key33_from_hex :: "externals \<Rightarrow> string \<Rightarrow> (hex_error, key33) res" where
  "key33_from_hex X s =
     (case hex_decode_to_slice X s 33 of None \<Rightarrow> Err FromHexError | Some bs \<Rightarrow> Ok (array_of bs))"

definition key33_to_hex :: "externals \<Rightarrow> key33 \<Rightarrow> string" where
  "key33_to_hex X k = hex_encode X (bytes_of k)"

definition p2wpkh_script :: "externals \<Rightarrow> key33 \<Rightarrow> bytes" where
  "p2wpkh_script X k = [0x00, 0x14] @ bytes_of (hash160_digest X (bytes_of k))"

definition is_valid :: "externals \<Rightarrow> key33 \<Rightarrow> bool" where
  "is_valid X k =
     ((bytes_of k ! 0 = 0x02 \<or> bytes_of k ! 0 = 0x03) \<and> secp256k1_from_slice_ok X (bytes_of k))"

record key_pair =
  key0 :: key33
  key1 :: key33

definition checked :: "externals \<Rightarrow> key33 \<Rightarrow> key33 \<Rightarrow> key_pair option" where
  "checked X k0 k1 =
     (if is_valid X k0 \<and> is_valid X k1 \<and> k0 < k1 then Some \<lparr>key0 = k0, key1 = k1\<rparr> else None)"

definition witness_script :: "key_pair \<Rightarrow> bytes" where
  "witness_script p = [0x52, 0x21] @ bytes_of (key0 p) @ [0x21] @ bytes_of (key1 p) @ [0x52, 0xae]"

definition carrier_script :: "externals \<Rightarrow> key_pair \<Rightarrow> bytes" where
  "carrier_script X p = [0x00, 0x20] @ bytes_of (hash32_sha256 X (witness_script p))"

definition contains_key :: "key_pair \<Rightarrow> key33 \<Rightarrow> bool" where
  "contains_key p k = (bytes_of (key0 p) = bytes_of k \<or> bytes_of (key1 p) = bytes_of k)"

section \<open>Network and binding\<close>

datatype network = Mainnet | Signet | Testnet4 | Regtest

fun network_code :: "network \<Rightarrow> u8" where
  "network_code Mainnet = 0"
| "network_code Signet = 1"
| "network_code Testnet4 = 2"
| "network_code Regtest = 3"

fun network_label :: "network \<Rightarrow> string" where
  "network_label Mainnet = ''mainnet''"
| "network_label Signet = ''signet''"
| "network_label Testnet4 = ''testnet4''"
| "network_label Regtest = ''regtest''"

definition network_from_str :: "string \<Rightarrow> (string, network) res" where
  "network_from_str s =
     (if s = ''mainnet'' then Ok Mainnet
      else if s = ''signet'' then Ok Signet
      else if s = ''testnet4'' then Ok Testnet4
      else if s = ''regtest'' then Ok Regtest
      else Err (''unsupported Bitcoin network: '' @ s))"

definition display_hash :: "externals \<Rightarrow> hash32 \<Rightarrow> string" where
  "display_hash X h = hex_encode X (rev (bytes_of h))"

definition wire_hash :: "externals \<Rightarrow> string \<Rightarrow> (hex_error, hash32) res" where
  "wire_hash X s = res_bind (hash32_from_hex X s) (\<lambda>h. Ok (array_of (rev (bytes_of h))))"

lemma hash_texts:
  assumes "hex_laws X"
  shows "hash32_from_hex X (hash32_to_hex X h) = Ok h" and "wire_hash X (display_hash X h) = Ok h"
    and "key33_from_hex X (key33_to_hex X k) = Ok k"
  using assms
  by (simp_all add: hex_laws_def wire_hash_def display_hash_def hash32_from_hex_def hash32_to_hex_def
      key33_from_hex_def key33_to_hex_def)

record binding =
  bnd_network :: network
  init_txid :: hash32
  spec_hash :: hash32

definition protocol_id :: "externals \<Rightarrow> binding \<Rightarrow> string" where
  "protocol_id X b =
     ''tndm:'' @ network_label (bnd_network b) @ '':'' @ display_hash X (init_txid b)"

text \<open>The ASCII bytes of a byte-string literal.\<close>

definition ascii :: "string \<Rightarrow> bytes" where
  "ascii s = map (\<lambda>c. word_of_int (of_char c)) s"

definition namespace_preimage :: "binding \<Rightarrow> bytes" where
  "namespace_preimage b =
     ascii ''TANDEM/NAMESPACE'' @ [0] @ [network_code (bnd_network b)]
     @ bytes_of (init_txid b) @ bytes_of (spec_hash b)"

definition namespace :: "externals \<Rightarrow> binding \<Rightarrow> hash32" where
  "namespace X b = hash32_sha256 X (namespace_preimage b)"

definition object_key_preimage :: "hash32 \<Rightarrow> hash32 \<Rightarrow> bytes" where
  "object_key_preimage ns create_txid =
     ascii ''TANDEM/OBJECT'' @ [0] @ bytes_of ns @ bytes_of create_txid @ to_le_bytes (1 :: u32)"

definition object_key :: "externals \<Rightarrow> hash32 \<Rightarrow> hash32 \<Rightarrow> hash32" where
  "object_key X ns create_txid = hash32_sha256 X (object_key_preimage ns create_txid)"

section \<open>Operations, reasons and event classes\<close>

datatype opcode = OpInit | OpCreate | OpMark | OpRotate | OpClose

definition opcode_from_byte :: "u8 \<Rightarrow> opcode option" where
  "opcode_from_byte b =
     (if b = 0 then Some OpInit
      else if b = 1 then Some OpCreate
      else if b = 2 then Some OpMark
      else if b = 3 then Some OpRotate
      else if b = 4 then Some OpClose
      else None)"

fun payload_len :: "opcode \<Rightarrow> nat" where
  "payload_len OpInit = 59"
| "payload_len OpCreate = 40"
| "payload_len OpMark = 78"
| "payload_len OpRotate = 44"
| "payload_len OpClose = 80"

datatype reason =
    Valid | MultipleMarkers | BadMarkerEncodingOrLength | UnknownVersion | WrongNetwork
  | UnknownOpcode | WrongNamespace | UnsupportedOrReservedField | BadTxVersionOrLocktime
  | BadInputCountOrOrder | BadOutputCountOrOrder | UnconfirmedOrSameBlockPrevout | BadInputScript
  | BadKeyOrderOrBinding | BadSignatureOrSighash | BadOutputScriptOrValue
  | NonpositiveOrInvalidFee | BadFeeSplitOrChange | PredecessorNotActive | BadStateSequence
  | BadSuccessor | BadCommitment | BadHeightOrPhase | BadRefundShapeOrMaturity | MultipleCarriers
  | UnmarkedCarrierSpend

fun reason_code :: "reason \<Rightarrow> u16" where
  "reason_code Valid = 0x0000"
| "reason_code MultipleMarkers = 0x0001"
| "reason_code BadMarkerEncodingOrLength = 0x0002"
| "reason_code UnknownVersion = 0x0003"
| "reason_code WrongNetwork = 0x0004"
| "reason_code UnknownOpcode = 0x0005"
| "reason_code WrongNamespace = 0x0006"
| "reason_code UnsupportedOrReservedField = 0x0007"
| "reason_code BadTxVersionOrLocktime = 0x0010"
| "reason_code BadInputCountOrOrder = 0x0011"
| "reason_code BadOutputCountOrOrder = 0x0012"
| "reason_code UnconfirmedOrSameBlockPrevout = 0x0013"
| "reason_code BadInputScript = 0x0014"
| "reason_code BadKeyOrderOrBinding = 0x0015"
| "reason_code BadSignatureOrSighash = 0x0016"
| "reason_code BadOutputScriptOrValue = 0x0017"
| "reason_code NonpositiveOrInvalidFee = 0x0018"
| "reason_code BadFeeSplitOrChange = 0x0019"
| "reason_code PredecessorNotActive = 0x001a"
| "reason_code BadStateSequence = 0x001b"
| "reason_code BadSuccessor = 0x001c"
| "reason_code BadCommitment = 0x001d"
| "reason_code BadHeightOrPhase = 0x001e"
| "reason_code BadRefundShapeOrMaturity = 0x001f"
| "reason_code MultipleCarriers = 0x0020"
| "reason_code UnmarkedCarrierSpend = 0x0030"

datatype event_type =
    EvInit | EvCreate | EvMark | EvRotate | EvClose | EvRefund | EvExitedNoncanonical | EvInvalid

fun event_type_code :: "event_type \<Rightarrow> u8" where
  "event_type_code EvInit = 0"
| "event_type_code EvCreate = 1"
| "event_type_code EvMark = 2"
| "event_type_code EvRotate = 3"
| "event_type_code EvClose = 4"
| "event_type_code EvRefund = 5"
| "event_type_code EvExitedNoncanonical = 6"
| "event_type_code EvInvalid = 7"

fun event_type_of_opcode :: "opcode \<Rightarrow> event_type" where
  "event_type_of_opcode OpInit = EvInit"
| "event_type_of_opcode OpCreate = EvCreate"
| "event_type_of_opcode OpMark = EvMark"
| "event_type_of_opcode OpRotate = EvRotate"
| "event_type_of_opcode OpClose = EvClose"

datatype validity_class = InvalidNoState | ValidOperation | TerminalNoncanonical

fun validity_class_code :: "validity_class \<Rightarrow> u8" where
  "validity_class_code InvalidNoState = 0"
| "validity_class_code ValidOperation = 1"
| "validity_class_code TerminalNoncanonical = 2"

datatype object_status = StActive | StClosed | StRefunded | StExitedNoncanonical

fun object_status_code :: "object_status \<Rightarrow> u8" where
  "object_status_code StActive = 0"
| "object_status_code StClosed = 1"
| "object_status_code StRefunded = 2"
| "object_status_code StExitedNoncanonical = 3"

section \<open>Resolved views\<close>

record input_view =
  prevout :: outpoint_ref
  sequence :: u32
  script_sig :: bytes
  witness :: "bytes list"
  prevout_value :: u64
  prevout_script :: bytes
  prevout_height :: "u64 option"
  signatures_valid :: bool

definition p2wpkh_revealed_key :: "input_view \<Rightarrow> key33 option" where
  "p2wpkh_revealed_key i =
     (if script_sig i \<noteq> []
         \<or> length (witness i) \<noteq> 2
         \<or> length (prevout_script i) \<noteq> 22
         \<or> take 2 (prevout_script i) \<noteq> [0x00, 0x14]
      then None
      else array_try_from (witness i ! 1))"

definition p2wpkh_key :: "externals \<Rightarrow> input_view \<Rightarrow> key33 option" where
  "p2wpkh_key X i =
     (case p2wpkh_revealed_key i of
        None \<Rightarrow> None
      | Some key \<Rightarrow>
          if \<not> is_valid X key \<or> p2wpkh_script X key \<noteq> prevout_script i then None else Some key)"

definition carrier_revealed_keys :: "input_view \<Rightarrow> (key33 \<times> key33) option" where
  "carrier_revealed_keys i =
     (if script_sig i \<noteq> []
         \<or> length (witness i) \<noteq> 4
         \<or> witness i ! 0 \<noteq> []
         \<or> length (prevout_script i) \<noteq> 34
         \<or> take 2 (prevout_script i) \<noteq> [0x00, 0x20]
      then None
      else
        let script = witness i ! 3 in
        if length script \<noteq> 71
           \<or> take 2 script \<noteq> [0x52, 0x21]
           \<or> script ! 35 \<noteq> 0x21
           \<or> take 2 (drop 69 script) \<noteq> [0x52, 0xae]
        then None
        else
          case array_try_from (take 33 (drop 2 script)) of
            None \<Rightarrow> None
          | Some k0 \<Rightarrow>
              (case array_try_from (take 33 (drop 36 script)) of
                 None \<Rightarrow> None
               | Some k1 \<Rightarrow> Some (k0, k1)))"

definition carrier_keys :: "externals \<Rightarrow> input_view \<Rightarrow> key_pair option" where
  "carrier_keys X i =
     (case carrier_revealed_keys i of
        None \<Rightarrow> None
      | Some (k0, k1) \<Rightarrow>
          (case checked X k0 k1 of
             None \<Rightarrow> None
           | Some pair \<Rightarrow> if carrier_script X pair = prevout_script i then Some pair else None))"

definition has_earlier_confirmation :: "input_view \<Rightarrow> u64 \<Rightarrow> bool" where
  "has_earlier_confirmation i block_height =
     (case prevout_height i of None \<Rightarrow> False | Some h \<Rightarrow> h < block_height)"

record output_view =
  out_value :: u64
  script_pubkey :: bytes

record tx_view =
  tx_txid :: hash32
  tx_wtxid :: hash32
  tx_version :: i32
  lock_time :: u32
  inputs :: "input_view list"
  outputs :: "output_view list"

record block_view =
  bv_hash :: hash32
  bv_previous_hash :: hash32
  bv_height :: u64
  transactions :: "tx_view list"

section \<open>Events, objects and the chain state\<close>

record event =
  ev_namespace :: hash32
  ev_block_hash :: hash32
  ev_height :: u64
  ev_tx_index :: u32
  ev_event_index :: u32
  ev_sub_index :: u32
  ev_event_type :: event_type
  ev_validity_class :: validity_class
  ev_reason :: reason
  ev_txid :: hash32
  ev_wtxid :: hash32
  ev_object_key :: hash32
  ev_state_seq :: u32
  ev_predecessor :: outpoint_ref
  ev_successor :: outpoint_ref
  ev_key0 :: key33
  ev_key1 :: key33
  ev_commitment :: hash32

record object_state =
  ob_object_key :: hash32
  ob_genesis :: outpoint_ref
  ob_founding :: bool
  ob_status :: object_status
  ob_create_height :: u64
  ob_state_seq :: u32
  ob_current_outpoint :: outpoint_ref
  ob_keys :: key_pair
  ob_terminal_txid :: hash32
  ob_chapter_count :: u32

datatype protocol_status =
    AwaitingInit
  | ProtocolActive (ps_init_height: u64) (ps_h_open: u32) (ps_h_close: u32)
  | FailedInit (ps_reason: reason) (ps_failed_height: u64)

record chain_state =
  binding_of :: binding
  protocol_status :: protocol_status
  tip_height :: "u64 option"
  tip_hash :: "hash32 option"
  cs_chained_root :: hash32
  objects :: "(hash32, object_state) btreemap"
  active :: "(outpoint_ref, hash32) btreemap"

definition state_empty_preimage :: "hash32 \<Rightarrow> bytes" where
  "state_empty_preimage ns = ascii ''TANDEM/STATE-EMPTY'' @ [0] @ bytes_of ns"

definition chain_state_new :: "externals \<Rightarrow> binding \<Rightarrow> chain_state" where
  "chain_state_new X b =
     \<lparr>binding_of = b,
      protocol_status = AwaitingInit,
      tip_height = None,
      tip_hash = None,
      cs_chained_root = hash32_sha256 X (state_empty_preimage (namespace X b)),
      objects = bt_new,
      active = bt_new\<rparr>"

record counters =
  founding_created :: u64
  all_objects :: u64
  active_objects :: u64

definition state_counters :: "chain_state \<Rightarrow> counters" where
  "state_counters s =
     \<lparr>founding_created = word_of_int (int (length (filter ob_founding (bt_values (objects s))))),
      all_objects = word_of_int (int (bt_len (objects s))),
      active_objects =
        word_of_int (int (length (filter (\<lambda>ob. ob_status ob = StActive) (bt_values (objects s)))))\<rparr>"

record height_roots =
  hr_height :: u64
  hr_block_hash :: hash32
  hr_event_root :: hash32
  hr_object_state_root :: hash32
  hr_chained_root :: hash32
  hr_counters :: counters

section \<open>Serialized forms\<close>

text \<open>
  The custom \<open>serde\<close> modules, at the level of the values they hand to the serializer: the active
  index as an array of pairs, and byte strings as hexadecimal text.
\<close>

datatype serde_error = DuplicateActiveOutpoint | InvalidHex hex_error

definition outpoint_map_serialize :: "(outpoint_ref, hash32) btreemap \<Rightarrow> (outpoint_ref \<times> hash32) list" where
  "outpoint_map_serialize m = bt_entries m"

definition outpoint_map_deserialize ::
    "(outpoint_ref \<times> hash32) list \<Rightarrow> (serde_error, (outpoint_ref, hash32) btreemap) res" where
  "outpoint_map_deserialize pairs =
     (let expected = length pairs; m = bt_collect pairs in
      if bt_len m \<noteq> expected then Err DuplicateActiveOutpoint else Ok m)"

definition hex_bytes_serialize :: "externals \<Rightarrow> bytes \<Rightarrow> string" where
  "hex_bytes_serialize X bs = hex_encode X bs"

definition hex_bytes_deserialize :: "externals \<Rightarrow> string \<Rightarrow> (serde_error, bytes) res" where
  "hex_bytes_deserialize X s =
     (case hex_decode X s of None \<Rightarrow> Err (InvalidHex FromHexError) | Some bs \<Rightarrow> Ok bs)"

definition hex_vec_serialize :: "externals \<Rightarrow> bytes list \<Rightarrow> string list" where
  "hex_vec_serialize X xs = map (hex_encode X) xs"

fun hex_vec_deserialize :: "externals \<Rightarrow> string list \<Rightarrow> (serde_error, bytes list) res" where
  "hex_vec_deserialize X [] = Ok []"
| "hex_vec_deserialize X (s # ss) =
     res_bind (hex_bytes_deserialize X s) (\<lambda>b. res_bind (hex_vec_deserialize X ss) (\<lambda>bs. Ok (b # bs)))"

section \<open>Lemmas\<close>

lemma length_p2wpkh_script [simp]: "length (p2wpkh_script X k) = 22"
  by (simp add: p2wpkh_script_def)

lemma length_carrier_script [simp]: "length (carrier_script X p) = 34"
  by (simp add: carrier_script_def)

lemma length_witness_script [simp]: "length (witness_script p) = 71"
  by (simp add: witness_script_def)

lemma length_wire_bytes [simp]: "length (wire_bytes p) = 36"
  by (simp add: wire_bytes_def)

lemma wire_bytes_inject [simp]: "wire_bytes p = wire_bytes q \<longleftrightarrow> p = q"
  by (cases p; cases q) (simp add: wire_bytes_def)

lemma network_code_inject [simp]: "network_code a = network_code b \<longleftrightarrow> a = b"
  by (cases a; cases b) simp_all

lemma namespace_preimage_inject [simp]: "namespace_preimage a = namespace_preimage b \<longleftrightarrow> a = b"
  by (auto simp: namespace_preimage_def)

lemma object_key_preimage_inject [simp]:
  "object_key_preimage ns t = object_key_preimage ns' t' \<longleftrightarrow> ns = ns' \<and> t = t'"
  by (auto simp: object_key_preimage_def)

lemma reason_code_inject [simp]: "reason_code a = reason_code b \<longleftrightarrow> a = b"
  by (cases a; cases b) simp_all

lemma event_type_code_inject [simp]: "event_type_code a = event_type_code b \<longleftrightarrow> a = b"
  by (cases a; cases b) simp_all

lemma validity_class_code_inject [simp]: "validity_class_code a = validity_class_code b \<longleftrightarrow> a = b"
  by (cases a; cases b) simp_all

lemma object_status_code_inject [simp]: "object_status_code a = object_status_code b \<longleftrightarrow> a = b"
  by (cases a; cases b) simp_all

lemma checked_Some_iff:
  "checked X k0 k1 = Some p \<longleftrightarrow>
     is_valid X k0 \<and> is_valid X k1 \<and> k0 < k1 \<and> p = \<lparr>key0 = k0, key1 = k1\<rparr>"
  by (auto simp: checked_def)

lemma contains_key_iff: "contains_key p k \<longleftrightarrow> k = key0 p \<or> k = key1 p"
  by (auto simp: contains_key_def)

lemma hash32_is_zero_iff: "hash32_is_zero h \<longleftrightarrow> h = hash32_ZERO"
  by (simp add: hash32_is_zero_def hash32_ZERO_def zero_array_def flip: bytes_of_eq_iff)

lemma opcode_from_byte_iff:
  "opcode_from_byte b = Some op \<longleftrightarrow> b = event_type_code (event_type_of_opcode op)"
  by (cases op) (auto simp: opcode_from_byte_def)

lemma p2wpkh_key_Some:
  assumes "p2wpkh_key X i = Some k"
  shows "p2wpkh_revealed_key i = Some k" and "is_valid X k" and "prevout_script i = p2wpkh_script X k"
  using assms by (auto simp: p2wpkh_key_def split: option.splits if_splits)

lemma carrier_keys_Some:
  assumes "carrier_keys X i = Some p"
  shows "carrier_revealed_keys i = Some (key0 p, key1 p)" and "checked X (key0 p) (key1 p) = Some p"
    and "prevout_script i = carrier_script X p"
  using assms by (auto simp: carrier_keys_def checked_Some_iff split: option.splits if_splits)

text \<open>Decoding the witness and script that a key pair encodes.\<close>

lemma carrier_keys_encoded:
  assumes "script_sig i = []" and "witness i = [[], sig0, sig1, witness_script ks]"
    and "prevout_script i = carrier_script X ks"
  shows "carrier_keys X i = checked X (key0 ks) (key1 ks)"
proof -
  have "carrier_revealed_keys i = Some (key0 ks, key1 ks)"
    using assms
    by (simp add: carrier_revealed_keys_def carrier_script_def witness_script_def array_try_from_def
        Let_def nth_append)
  then show ?thesis
    using assms(3) by (cases ks) (auto simp: carrier_keys_def checked_def)
qed

end
