(* ===== verification/Marker.thy ===== *)
theory Marker
  imports Tandem_Types
begin

text \<open>
  Marker detection and parsing, \<open>crates/tandem-core/src/marker.rs\<close>. Detection is broad: it keeps
  truncated and non-minimal pushes as candidates. Parsing is strict. Field readers index the payload
  and panic out of range, as the source's slices do; the lemmas show which readers are safe for
  which opcode, and that the scripts the parser accepts are exactly the canonical pushes of
  well-formed payloads.
\<close>

section \<open>Candidates\<close>

record marker_candidate =
  mc_vout :: u32
  declared_len :: nat
  mc_payload :: bytes
  prefix_complete :: bool
  payload_complete :: bool
  no_trailing_bytes :: bool
  minimal_push :: bool

definition opcode_byte :: "marker_candidate \<Rightarrow> u8 option" where
  "opcode_byte c = get_at (mc_payload c) 6"

definition is_init_candidate :: "marker_candidate \<Rightarrow> bool" where
  "is_init_candidate c = (opcode_byte c = Some 0)"

record marker_error =
  me_reason :: reason

record parsed_marker =
  pm_vout :: u32
  pm_version :: u8
  pm_network :: u8
  pm_opcode_byte :: u8
  pm_opcode :: "opcode option"
  pm_payload :: bytes

definition parse :: "marker_candidate \<Rightarrow> (marker_error, parsed_marker) res" where
  "parse c =
     (if \<not> prefix_complete c
         \<or> \<not> (7 \<le> declared_len c \<and> declared_len c \<le> 80)
         \<or> \<not> payload_complete c
         \<or> \<not> no_trailing_bytes c
         \<or> \<not> minimal_push c
      then Err \<lparr>me_reason = BadMarkerEncodingOrLength\<rparr>
      else
        res_bind (index_at (mc_payload c) 4) (\<lambda>version.
        res_bind (index_at (mc_payload c) 5) (\<lambda>net.
        res_bind (index_at (mc_payload c) 6) (\<lambda>opbyte.
        let opcode = opcode_from_byte opbyte in
        if (case opcode of None \<Rightarrow> False | Some v \<Rightarrow> payload_len v \<noteq> length (mc_payload c))
        then Err \<lparr>me_reason = BadMarkerEncodingOrLength\<rparr>
        else Ok \<lparr>pm_vout = mc_vout c, pm_version = version, pm_network = net,
                 pm_opcode_byte = opbyte, pm_opcode = opcode, pm_payload = mc_payload c\<rparr>))))"

section \<open>Payload fields\<close>

definition u32_at :: "parsed_marker \<Rightarrow> nat \<Rightarrow> ('e, u32) res" where
  "u32_at m start = res_bind (slice_at (pm_payload m) start (start + 4)) (\<lambda>bs. Ok (from_le_bytes bs))"

definition u64_at :: "parsed_marker \<Rightarrow> nat \<Rightarrow> ('e, u64) res" where
  "u64_at m start = res_bind (slice_at (pm_payload m) start (start + 8)) (\<lambda>bs. Ok (from_le_bytes bs))"

definition hash_at :: "parsed_marker \<Rightarrow> nat \<Rightarrow> ('e, hash32) res" where
  "hash_at m start = res_bind (slice_at (pm_payload m) start (start + 32)) (\<lambda>bs. Ok (array_of bs))"

definition observed_namespace :: "parsed_marker \<Rightarrow> ('e, hash32 option) res" where
  "observed_namespace m =
     (if pm_version m = 1 \<and> (case pm_opcode m of None \<Rightarrow> False | Some op \<Rightarrow> op \<noteq> OpInit)
      then res_bind (hash_at m 8) (\<lambda>h. Ok (Some h))
      else Ok None)"

section \<open>Detection\<close>

text \<open>
  The push prefix: declared length, prefix length, completeness and minimality. A one-byte opcode
  up to \<open>0x4b\<close> pushes that many bytes; \<open>0x4c\<close>, \<open>0x4d\<close> and \<open>0x4e\<close> carry the length in
  one, two and four little-endian bytes.
\<close>

definition push_prefix :: "bytes \<Rightarrow> u8 \<Rightarrow> (nat \<times> nat \<times> bool \<times> bool) option" where
  "push_prefix script opcode =
     (if 0x01 \<le> opcode \<and> opcode \<le> 0x4b then Some (unat opcode, 2, True, True)
      else if opcode = 0x4c then
        (case get_at script 2 of
           None \<Rightarrow> None
         | Some len \<Rightarrow> Some (unat len, 3, True, 0x4c \<le> len))
      else if opcode = 0x4d then
        (case get_range script 2 4 of
           None \<Rightarrow> None
         | Some bs \<Rightarrow>
             let len = unat (from_le_bytes bs :: u16) in Some (len, 4, True, 0xff < len))
      else if opcode = 0x4e then
        (case get_range script 2 6 of
           None \<Rightarrow> None
         | Some bs \<Rightarrow>
             let len = unat (from_le_bytes bs :: u32) in Some (len, 6, True, 0xffff < len))
      else None)"

definition find_marker_candidate :: "bytes \<Rightarrow> u32 \<Rightarrow> marker_candidate option" where
  "find_marker_candidate script vout =
     (if get_at script 0 \<noteq> Some 0x6a then None
      else
        case get_at script 1 of
          None \<Rightarrow> None
        | Some opcode \<Rightarrow>
            (case push_prefix script opcode of
               None \<Rightarrow> None
             | Some (dlen, prefix_len, complete, minimal) \<Rightarrow>
                 if \<not> complete \<or> dlen < 4 then None
                 else
                   let available = length script - prefix_len in
                   if available < 4 \<or> get_range script prefix_len (prefix_len + 4) \<noteq> Some MAGIC
                   then None
                   else
                     let physical_len = min dlen available in
                     Some \<lparr>mc_vout = vout, declared_len = dlen,
                           mc_payload = take physical_len (drop prefix_len script),
                           prefix_complete = complete,
                           payload_complete = dlen \<le> available,
                           no_trailing_bytes = (available = dlen),
                           minimal_push = minimal\<rparr>))"

text \<open>The test module's encoder: a direct push up to 75 bytes, \<open>OP_PUSHDATA1\<close> above.\<close>

definition u8_of_usize :: "nat \<Rightarrow> ('e, u8) res" where
  "u8_of_usize n = (if n < 256 then Ok (word_of_int (int n)) else Panic)"

definition marker_script :: "bytes \<Rightarrow> ('e, bytes) res" where
  "marker_script payload =
     (if length payload \<le> 75
      then res_bind (u8_of_usize (length payload)) (\<lambda>n. Ok ([0x6a] @ [n] @ payload))
      else res_bind (u8_of_usize (length payload)) (\<lambda>n. Ok ([0x6a] @ [0x4c, n] @ payload)))"

section \<open>What a candidate looks like\<close>

text \<open>Detection keeps the magic and at most the declared number of bytes.\<close>

lemma find_marker_candidate_payload:
  assumes "find_marker_candidate script v = Some c"
  shows "mc_vout c = v" and "4 \<le> length (mc_payload c)" and "length (mc_payload c) \<le> declared_len c"
    and "take 4 (mc_payload c) = MAGIC" and "prefix_complete c"
    and "payload_complete c \<longleftrightarrow> length (mc_payload c) = declared_len c"
  using assms
  by (auto simp: find_marker_candidate_def Let_def get_range_def min_def take_drop
      split: option.splits if_splits prod.splits)

lemma parse_Ok_iff:
  "parse c = Ok m \<longleftrightarrow>
     prefix_complete c \<and> 7 \<le> declared_len c \<and> declared_len c \<le> 80 \<and> payload_complete c \<and>
     no_trailing_bytes c \<and> minimal_push c \<and> 6 < length (mc_payload c) \<and>
     (case opcode_from_byte (mc_payload c ! 6) of None \<Rightarrow> True
      | Some op \<Rightarrow> payload_len op = length (mc_payload c)) \<and>
     m = \<lparr>pm_vout = mc_vout c, pm_version = mc_payload c ! 4, pm_network = mc_payload c ! 5,
          pm_opcode_byte = mc_payload c ! 6, pm_opcode = opcode_from_byte (mc_payload c ! 6),
          pm_payload = mc_payload c\<rparr>"
  by (auto simp: parse_def Let_def res_simps split: option.splits)

text \<open>Parsing a candidate found in a script never reads out of range.\<close>

lemma parse_found_no_panic:
  assumes "find_marker_candidate script v = Some c"
  shows "parse c \<noteq> Panic"
  using find_marker_candidate_payload [OF assms]
  by (auto simp: parse_def Let_def res_simps split: option.splits)

lemma parse_Err: "parse c = Err e \<Longrightarrow> e = \<lparr>me_reason = BadMarkerEncodingOrLength\<rparr>"
  by (auto simp: parse_def Let_def res_simps split: option.splits if_splits)

section \<open>Field readers\<close>

lemma u32_at_iffs [res_simps]:
  "u32_at m i = Ok w \<longleftrightarrow> i + 4 \<le> length (pm_payload m) \<and> from_le_bytes (take 4 (drop i (pm_payload m))) = w"
  "u32_at m i = Panic \<longleftrightarrow> length (pm_payload m) < i + 4"
  "u32_at m i \<noteq> Err e"
  by (auto simp: u32_at_def res_simps)

lemma u64_at_iffs [res_simps]:
  "u64_at m i = Ok x \<longleftrightarrow> i + 8 \<le> length (pm_payload m) \<and> from_le_bytes (take 8 (drop i (pm_payload m))) = x"
  "u64_at m i = Panic \<longleftrightarrow> length (pm_payload m) < i + 8"
  "u64_at m i \<noteq> Err e"
  by (auto simp: u64_at_def res_simps)

lemma hash_at_iffs [res_simps]:
  "hash_at m i = Ok h \<longleftrightarrow> i + 32 \<le> length (pm_payload m) \<and> array_of (take 32 (drop i (pm_payload m))) = h"
  "hash_at m i = Panic \<longleftrightarrow> length (pm_payload m) < i + 32"
  "hash_at m i \<noteq> Err e"
  by (auto simp: hash_at_def res_simps)

text \<open>A marker whose opcode is defined has exactly that opcode's payload length.\<close>

definition well_parsed :: "parsed_marker \<Rightarrow> bool" where
  "well_parsed m \<longleftrightarrow>
     7 \<le> length (pm_payload m) \<and> length (pm_payload m) \<le> 80 \<and>
     take 4 (pm_payload m) = MAGIC \<and>
     pm_version m = pm_payload m ! 4 \<and> pm_network m = pm_payload m ! 5 \<and>
     pm_opcode_byte m = pm_payload m ! 6 \<and> pm_opcode m = opcode_from_byte (pm_payload m ! 6) \<and>
     (case pm_opcode m of None \<Rightarrow> True | Some op \<Rightarrow> length (pm_payload m) = payload_len op)"

lemma well_parsed_length:
  "well_parsed m \<Longrightarrow> pm_opcode m = Some op \<Longrightarrow> length (pm_payload m) = payload_len op"
  by (simp add: well_parsed_def)

lemma parse_found_well_parsed:
  assumes "find_marker_candidate script v = Some c" and "parse c = Ok m"
  shows "well_parsed m" and "pm_vout m = v"
  using find_marker_candidate_payload [OF assms(1)] assms(2)
  by (auto simp: parse_Ok_iff well_parsed_def split: option.splits)

lemma payload_len_namespace: "op \<noteq> OpInit \<Longrightarrow> 40 \<le> payload_len op"
  by (cases op) auto

lemma observed_namespace_no_panic: "well_parsed m \<Longrightarrow> observed_namespace m \<noteq> Panic"
  by (auto simp: observed_namespace_def res_simps well_parsed_def split: option.splits
      dest!: payload_len_namespace)

section \<open>The accepted scripts\<close>

text \<open>
  A payload is well formed when it has 7 to 80 bytes, starts with the magic, and has the exact
  length of its opcode if the opcode is a defined one.
\<close>

definition payload_ok :: "bytes \<Rightarrow> bool" where
  "payload_ok p \<longleftrightarrow>
     7 \<le> length p \<and> length p \<le> 80 \<and> take 4 p = MAGIC \<and>
     (case opcode_from_byte (p ! 6) of None \<Rightarrow> True | Some op \<Rightarrow> payload_len op = length p)"

definition marker_of :: "u32 \<Rightarrow> bytes \<Rightarrow> parsed_marker" where
  "marker_of v p =
     \<lparr>pm_vout = v, pm_version = p ! 4, pm_network = p ! 5, pm_opcode_byte = p ! 6,
      pm_opcode = opcode_from_byte (p ! 6), pm_payload = p\<rparr>"

lemma u8_of_usize_iffs [res_simps]:
  "u8_of_usize n = Ok w \<longleftrightarrow> unat w = n"
  "u8_of_usize n = Panic \<longleftrightarrow> 256 \<le> n"
  "u8_of_usize n \<noteq> Err e"
proof -
  have "unat w < 256" using unsigned_less [of w] by simp
  then show "u8_of_usize n = Ok w \<longleftrightarrow> unat w = n"
    by (auto simp: u8_of_usize_def unat_of_nat take_bit_nat_eq_self_iff)
qed (auto simp: u8_of_usize_def)

lemma marker_script_Ok_iff:
  "marker_script p = Ok s \<longleftrightarrow>
     (\<exists>n. unat n = length p \<and> s = (if length p \<le> 75 then [0x6a, n] @ p else [0x6a, 0x4c, n] @ p))"
  by (auto simp: marker_script_def res_simps)

text \<open>The encoder's output is found again, with the payload it was given.\<close>

lemma find_marker_script:
  assumes "marker_script p = Ok s" and "take 4 p = MAGIC" and "7 \<le> length p"
  shows "find_marker_candidate s v = Some \<lparr>mc_vout = v, declared_len = length p, mc_payload = p,
           prefix_complete = True, payload_complete = True, no_trailing_bytes = True,
           minimal_push = True\<rparr>"
proof -
  obtain n :: u8 where n: "unat n = length p"
    and s: "s = (if length p \<le> 75 then [0x6a, n] @ p else [0x6a, 0x4c, n] @ p)"
    using assms(1) by (auto simp: marker_script_Ok_iff)
  have small: "1 \<le> n \<and> n \<le> 0x4b" if "length p \<le> 75"
    using that assms(3) n by (simp add: word_le_nat_alt)
  have large: "0x4c \<le> n" if "\<not> length p \<le> 75"
    using that n by (simp add: word_le_nat_alt)
  show ?thesis
    using assms(2,3) n small large
    by (auto simp: s find_marker_candidate_def push_prefix_def get_at_def get_range_def Let_def)
qed

text \<open>
  Conversely a script whose candidate parses is the canonical encoding of its payload: with at most
  80 bytes, minimality leaves only the direct push and \<open>OP_PUSHDATA1\<close>.
\<close>

lemma push_prefix_minimal:
  assumes "push_prefix script opcode = Some (dlen, plen, complete, True)" and "dlen \<le> 80"
  shows "(dlen \<le> 75 \<and> plen = 2 \<and> unat opcode = dlen) \<or>
         (75 < dlen \<and> plen = 3 \<and> opcode = 0x4c \<and> 2 < length script \<and> unat (script ! 2) = dlen)"
  using assms
  by (auto simp: push_prefix_def get_at_def word_le_nat_alt Let_def split: if_splits option.splits)

lemma find_parse_canonical:
  assumes "find_marker_candidate s v = Some c" and "parse c = Ok m"
  shows "marker_script (pm_payload m) = Ok s"
proof -
  obtain opcode dlen plen complete where
    fa: "get_at s 0 = Some 0x6a" "get_at s 1 = Some opcode"
    and pp: "push_prefix s opcode = Some (dlen, plen, complete, True)" and len: "dlen \<le> 80" "7 \<le> dlen"
    and all: "length s - plen = dlen" and m: "pm_payload m = drop plen s"
    using assms
    by (auto simp: find_marker_candidate_def Let_def parse_Ok_iff split: option.splits if_splits)
  obtain s' where s': "s = 0x6a # opcode # s'"
    using fa by (cases s; cases "tl s") (auto simp: get_at_def)
  from push_prefix_minimal [OF pp len(1)] show ?thesis
  proof
    assume *: "dlen \<le> 75 \<and> plen = 2 \<and> unat opcode = dlen"
    then show ?thesis
      using all len m s' by (auto simp: marker_script_Ok_iff)
  next
    assume *: "75 < dlen \<and> plen = 3 \<and> opcode = 0x4c \<and> 2 < length s \<and> unat (s ! 2) = dlen"
    then obtain n s'' where "s' = n # s''" using s' by (cases s') auto
    then show ?thesis
      using * all len m s' by (auto simp: marker_script_Ok_iff)
  qed
qed

lemma find_parse_iff:
  "(\<exists>c. find_marker_candidate s v = Some c \<and> parse c = Ok m) \<longleftrightarrow>
     payload_ok (pm_payload m) \<and> m = marker_of v (pm_payload m) \<and> marker_script (pm_payload m) = Ok s"
proof
  assume "\<exists>c. find_marker_candidate s v = Some c \<and> parse c = Ok m"
  then obtain c where c: "find_marker_candidate s v = Some c" "parse c = Ok m" by blast
  then show "payload_ok (pm_payload m) \<and> m = marker_of v (pm_payload m) \<and>
      marker_script (pm_payload m) = Ok s"
    using parse_found_well_parsed [OF c] find_parse_canonical [OF c]
    by (auto simp: well_parsed_def payload_ok_def marker_of_def split: option.splits)
next
  assume *: "payload_ok (pm_payload m) \<and> m = marker_of v (pm_payload m) \<and>
    marker_script (pm_payload m) = Ok s"
  let ?c = "\<lparr>mc_vout = v, declared_len = length (pm_payload m), mc_payload = pm_payload m,
           prefix_complete = True, payload_complete = True, no_trailing_bytes = True,
           minimal_push = True\<rparr>"
  have "find_marker_candidate s v = Some ?c"
    by (rule find_marker_script) (use * in \<open>auto simp: payload_ok_def\<close>)
  moreover have "parse ?c = Ok m"
    using * by (auto simp: parse_Ok_iff payload_ok_def marker_of_def split: option.splits)
  ultimately show "\<exists>c. find_marker_candidate s v = Some c \<and> parse c = Ok m" by blast
qed

end
