(* ===== verification/Validation.thy ===== *)
theory Validation
  imports Marker
begin

text \<open>
  Transaction validation, the reading half of \<open>crates/tandem-core/src/reducer.rs\<close>: which outputs
  are marker candidates, which inputs spend active carriers, and one validator per operation. A
  validator is the chain of checks of the source in the source's order, so the first failing check
  decides the reason. Indexing a vector is \<open>index_at\<close>, which panics out of range; the lemmas at
  the end show that no validator panics on a marker that was parsed.
\<close>

section \<open>Dispatch inputs\<close>

record init_params =
  ip_h_open :: u32
  ip_h_close :: u32

datatype validated_operation =
    VoCreate (vo_keys: key_pair)
  | VoMark (vo_object: object_state) (vo_sequence: u32) (vo_commitment: hash32)
  | VoRotate (vo_object: object_state) (vo_sequence: u32) (vo_keys: key_pair)
  | VoClose (vo_object: object_state) (vo_sequence: u32) (vo_commitment: hash32)

definition is_op_return :: "bytes \<Rightarrow> bool" where
  "is_op_return script = (get_at script 0 = Some 0x6a)"

definition has_other_op_return :: "tx_view \<Rightarrow> u32 \<Rightarrow> bool" where
  "has_other_op_return tx marker_vout =
     list_ex (\<lambda>(index, out). u32_of_usize index \<noteq> Some marker_vout \<and> is_op_return (script_pubkey out))
       (enumerate_from 0 (outputs tx))"

definition marker_candidates :: "tx_view \<Rightarrow> binding \<Rightarrow> marker_candidate list" where
  "marker_candidates tx b =
     List.map_filter
       (\<lambda>(index, out).
          case u32_of_usize index of
            None \<Rightarrow> None
          | Some vout \<Rightarrow>
              (case find_marker_candidate (script_pubkey out) vout of
                 None \<Rightarrow> None
               | Some c \<Rightarrow> if is_init_candidate c \<and> tx_txid tx \<noteq> init_txid b then None else Some c))
       (enumerate_from 0 (outputs tx))"

definition carrier_spends :: "chain_state \<Rightarrow> tx_view \<Rightarrow> (nat \<times> object_state) list" where
  "carrier_spends s tx =
     List.map_filter
       (\<lambda>(index, inp).
          case bt_get (active s) (prevout inp) of
            None \<Rightarrow> None
          | Some key \<Rightarrow>
              (case bt_get (objects s) key of None \<Rightarrow> None | Some ob \<Rightarrow> Some (index, ob)))
       (enumerate_from 0 (inputs tx))"

section \<open>Shared checks\<close>

definition validate_marker_header ::
    "externals \<Rightarrow> parsed_marker \<Rightarrow> binding \<Rightarrow> opcode \<Rightarrow> (reason, unit) res" where
  "validate_marker_header X marker b required_opcode =
     (if pm_version marker \<noteq> VERSION then Err UnknownVersion
      else if pm_network marker \<noteq> network_code (bnd_network b) then Err WrongNetwork
      else
        res_bind (ok_or UnknownOpcode (pm_opcode marker)) (\<lambda>opcode.
        if opcode \<noteq> required_opcode then Err UnsupportedOrReservedField
        else if opcode = OpInit then Ok ()
        else
          res_bind (hash_at marker 8) (\<lambda>ns.
          if ns \<noteq> namespace X b then Err WrongNamespace else Ok ())))"

definition check_tx_header :: "tx_view \<Rightarrow> (reason, unit) res" where
  "check_tx_header tx =
     (if tx_version tx = 2 \<and> lock_time tx = 0 then Ok () else Err BadTxVersionOrLocktime)"

definition check_output_shape :: "tx_view \<Rightarrow> parsed_marker \<Rightarrow> nat \<Rightarrow> (reason, unit) res" where
  "check_output_shape tx marker cnt =
     (if length (outputs tx) = cnt \<and> pm_vout marker = 0 \<and> \<not> has_other_op_return tx 0
      then Ok () else Err BadOutputCountOrOrder)"

definition check_provenance :: "tx_view \<Rightarrow> u64 \<Rightarrow> (reason, unit) res" where
  "check_provenance tx block_height =
     (if list_all (\<lambda>inp. has_earlier_confirmation inp block_height) (inputs tx)
      then Ok () else Err UnconfirmedOrSameBlockPrevout)"

fun any_input :: "tx_view \<Rightarrow> (input_view \<Rightarrow> bool) \<Rightarrow> nat list \<Rightarrow> ('e, bool) res" where
  "any_input tx P [] = Ok False"
| "any_input tx P (i # is) =
     res_bind (index_at (inputs tx) i) (\<lambda>inp. if P inp then Ok True else any_input tx P is)"

definition check_transition_input_scripts ::
    "tx_view \<Rightarrow> nat list \<Rightarrow> nat list \<Rightarrow> (reason, unit) res" where
  "check_transition_input_scripts tx carrier_indexes p2wpkh_indexes =
     res_bind (any_input tx (\<lambda>inp. carrier_revealed_keys inp = None) carrier_indexes) (\<lambda>bad.
     if bad then Err BadInputScript
     else
       res_bind (any_input tx (\<lambda>inp. p2wpkh_revealed_key inp = None) p2wpkh_indexes) (\<lambda>bad'.
       if bad' then Err BadInputScript else Ok ()))"

definition check_signatures :: "tx_view \<Rightarrow> (reason, unit) res" where
  "check_signatures tx =
     (if list_all signatures_valid (inputs tx) then Ok () else Err BadSignatureOrSighash)"

section \<open>INIT\<close>

definition validate_configured_init ::
    "externals \<Rightarrow> binding \<Rightarrow> u64 \<Rightarrow> tx_view \<Rightarrow> (reason, init_params) res" where
  "validate_configured_init X b block_height tx =
     (let candidates = marker_candidates tx b in
      if length candidates \<noteq> 1
      then Err (if 1 < length candidates then MultipleMarkers else BadMarkerEncodingOrLength)
      else
      res_bind (index_at candidates 0) (\<lambda>candidate.
      res_bind (map_err me_reason (parse candidate)) (\<lambda>marker.
      res_bind (validate_marker_header X marker b OpInit) (\<lambda>_.
      res_bind (u32_at marker 7) (\<lambda>h_open.
      res_bind (u32_at marker 11) (\<lambda>h_close.
      res_bind (u64_at marker 15) (\<lambda>carrier_amount.
      res_bind (u32_at marker 23) (\<lambda>refund_delay.
      res_bind (hash_at marker 27) (\<lambda>spec.
      if carrier_amount \<noteq> CARRIER_VALUE \<or> refund_delay \<noteq> REFUND_DELAY \<or> spec \<noteq> spec_hash b
      then Err UnsupportedOrReservedField
      else if tx_version tx \<noteq> 2 \<or> lock_time tx \<noteq> 0 then Err BadTxVersionOrLocktime
      else if length (inputs tx) \<noteq> 1 \<or> sequence (inputs tx ! 0) \<noteq> u32_MAX
      then Err BadInputCountOrOrder
      else if length (outputs tx) \<noteq> 2 \<or> pm_vout marker \<noteq> 0 \<or> has_other_op_return tx 0
      then Err BadOutputCountOrOrder
      else
      res_bind (index_at (inputs tx) 0) (\<lambda>inp.
      if \<not> has_earlier_confirmation inp block_height then Err UnconfirmedOrSameBlockPrevout
      else if p2wpkh_revealed_key inp = None then Err BadInputScript
      else
      res_bind (ok_or BadKeyOrderOrBinding (p2wpkh_key X inp)) (\<lambda>key.
      if \<not> signatures_valid inp then Err BadSignatureOrSighash
      else
      res_bind (index_at (outputs tx) 0) (\<lambda>out0.
      res_bind (index_at (outputs tx) 1) (\<lambda>out1.
      if out_value out0 \<noteq> 0 \<or> script_pubkey out1 \<noteq> p2wpkh_script X key
      then Err BadOutputScriptOrValue
      else
      res_bind (ok_or NonpositiveOrInvalidFee
                  (opt_filter (\<lambda>fee. 0 < fee) (checked_sub (prevout_value inp) (out_value out1)))) (\<lambda>fee.
      if out_value out1 < CHANGE_FLOOR then Err BadFeeSplitOrChange
      else
      res_bind (ok_or BadHeightOrPhase (checked_add h_open FOUNDING_WINDOW)) (\<lambda>expected_close.
      res_bind (ok_or BadHeightOrPhase (u32_of_u64 block_height)) (\<lambda>init_height.
      res_bind (ok_or BadHeightOrPhase (checked_add init_height INIT_LEAD)) (\<lambda>earliest_open.
      if expected_close \<noteq> h_close \<or> h_open < earliest_open then Err BadHeightOrPhase
      else Ok \<lparr>ip_h_open = h_open, ip_h_close = h_close\<rparr>)))))))))))))))))"

section \<open>CREATE\<close>

definition validate_create ::
    "externals \<Rightarrow> chain_state \<Rightarrow> u64 \<Rightarrow> tx_view \<Rightarrow> parsed_marker \<Rightarrow> (reason, validated_operation) res" where
  "validate_create X s block_height tx marker =
     res_bind (index_at (pm_payload marker) 7) (\<lambda>p7.
     if p7 \<noteq> 1 then Err UnsupportedOrReservedField
     else
     res_bind (check_tx_header tx) (\<lambda>_.
     if length (inputs tx) \<noteq> 2 \<or> list_ex (\<lambda>inp. sequence inp \<noteq> RBF_SEQUENCE) (inputs tx)
     then Err BadInputCountOrOrder
     else
     res_bind (check_output_shape tx marker 4) (\<lambda>_.
     res_bind (check_provenance tx block_height) (\<lambda>_.
     if list_ex (\<lambda>inp. p2wpkh_revealed_key inp = None) (inputs tx) then Err BadInputScript
     else
     res_bind (index_at (inputs tx) 0) (\<lambda>in0.
     res_bind (ok_or BadKeyOrderOrBinding (p2wpkh_key X in0)) (\<lambda>k0.
     res_bind (index_at (inputs tx) 1) (\<lambda>in1.
     res_bind (ok_or BadKeyOrderOrBinding (p2wpkh_key X in1)) (\<lambda>k1.
     res_bind (ok_or BadKeyOrderOrBinding (checked X k0 k1)) (\<lambda>ks.
     res_bind (check_signatures tx) (\<lambda>_.
     res_bind (index_at (outputs tx) 0) (\<lambda>out0.
     res_bind (index_at (outputs tx) 1) (\<lambda>out1.
     res_bind (index_at (outputs tx) 2) (\<lambda>out2.
     res_bind (index_at (outputs tx) 3) (\<lambda>out3.
     if out_value out0 \<noteq> 0
        \<or> out_value out1 \<noteq> CARRIER_VALUE
        \<or> script_pubkey out1 \<noteq> carrier_script X ks
        \<or> script_pubkey out2 \<noteq> p2wpkh_script X k0
        \<or> script_pubkey out3 \<noteq> p2wpkh_script X k1
     then Err BadOutputScriptOrValue
     else
     res_bind (ok_or NonpositiveOrInvalidFee (checked_sub (prevout_value in0) (out_value out2))) (\<lambda>debit0.
     res_bind (ok_or NonpositiveOrInvalidFee (checked_sub (prevout_value in1) (out_value out3))) (\<lambda>debit1.
     res_bind (ok_or NonpositiveOrInvalidFee (checked_add debit0 debit1)) (\<lambda>total.
     res_bind (ok_or NonpositiveOrInvalidFee
                 (opt_filter (\<lambda>fee. 0 < fee) (checked_sub total CARRIER_VALUE))) (\<lambda>fee.
     res_bind (plain_add (fee div 2) (fee mod 2)) (\<lambda>ceil_half.
     res_bind (plain_add 10000 ceil_half) (\<lambda>share0.
     res_bind (plain_add 10000 (fee div 2)) (\<lambda>share1.
     if debit0 \<noteq> share0
        \<or> debit1 \<noteq> share1
        \<or> out_value out2 < CHANGE_FLOOR
        \<or> out_value out3 < CHANGE_FLOOR
     then Err BadFeeSplitOrChange
     else
     (case protocol_status s of
        ProtocolActive _ h_open _ \<Rightarrow>
          if block_height < u64_of_u32 h_open then Err BadHeightOrPhase else Ok (VoCreate ks)
      | _ \<Rightarrow> Err BadHeightOrPhase))))))))))))))))))))))"

section \<open>MARK, ROTATE and CLOSE\<close>

definition validate_mark ::
    "externals \<Rightarrow> u64 \<Rightarrow> tx_view \<Rightarrow> parsed_marker \<Rightarrow> (nat \<times> object_state) option
      \<Rightarrow> (reason, validated_operation) res" where
  "validate_mark X block_height tx marker carrier =
     res_bind (index_at (pm_payload marker) 7) (\<lambda>p7.
     res_bind (index_at (pm_payload marker) 44) (\<lambda>p44.
     res_bind (index_at (pm_payload marker) 45) (\<lambda>p45.
     if p7 \<noteq> 1 \<or> 5 < p44 \<or> p45 \<noteq> 0 then Err UnsupportedOrReservedField
     else
     res_bind (check_tx_header tx) (\<lambda>_.
     if length (inputs tx) \<noteq> 2
        \<or> list_ex (\<lambda>inp. sequence inp \<noteq> RBF_SEQUENCE) (inputs tx)
        \<or> (case carrier of None \<Rightarrow> False | Some (index, _) \<Rightarrow> index \<noteq> 0)
     then Err BadInputCountOrOrder
     else
     res_bind (check_output_shape tx marker 3) (\<lambda>_.
     res_bind (check_provenance tx block_height) (\<lambda>_.
     res_bind (check_transition_input_scripts tx [0] [1]) (\<lambda>_.
     res_bind (index_at (inputs tx) 0) (\<lambda>in0.
     res_bind (ok_or BadKeyOrderOrBinding (carrier_keys X in0)) (\<lambda>ckeys.
     res_bind (index_at (inputs tx) 1) (\<lambda>in1.
     res_bind (ok_or BadKeyOrderOrBinding (p2wpkh_key X in1)) (\<lambda>sponsor.
     let ob = map_option snd carrier in
     if (case ob of
           Some v \<Rightarrow> ob_keys v \<noteq> ckeys \<or> \<not> contains_key (ob_keys v) sponsor
         | None \<Rightarrow> \<not> contains_key ckeys sponsor)
     then Err BadKeyOrderOrBinding
     else
     res_bind (check_signatures tx) (\<lambda>_.
     res_bind (index_at (outputs tx) 0) (\<lambda>out0.
     res_bind (index_at (outputs tx) 1) (\<lambda>out1.
     res_bind (index_at (outputs tx) 2) (\<lambda>out2.
     if out_value out0 \<noteq> 0
        \<or> out_value out1 \<noteq> CARRIER_VALUE
        \<or> script_pubkey out2 \<noteq> p2wpkh_script X sponsor
     then Err BadOutputScriptOrValue
     else
     res_bind (ok_or NonpositiveOrInvalidFee
                 (opt_filter (\<lambda>fee. 0 < fee) (checked_sub (prevout_value in1) (out_value out2)))) (\<lambda>fee.
     if out_value out2 < CHANGE_FLOOR then Err BadFeeSplitOrChange
     else
     res_bind (ok_or PredecessorNotActive ob) (\<lambda>object.
     if prevout in0 \<noteq> ob_current_outpoint object then Err PredecessorNotActive
     else
     res_bind (u32_at marker 40) (\<lambda>seq.
     if checked_add (ob_state_seq object) 1 \<noteq> Some seq then Err BadStateSequence
     else if script_pubkey out1 \<noteq> carrier_script X (ob_keys object) then Err BadSuccessor
     else
     res_bind (hash_at marker 46) (\<lambda>commitment.
     if hash32_is_zero commitment then Err BadCommitment
     else Ok (VoMark object seq commitment))))))))))))))))))))"

definition validate_rotate ::
    "externals \<Rightarrow> u64 \<Rightarrow> tx_view \<Rightarrow> parsed_marker \<Rightarrow> (nat \<times> object_state) option
      \<Rightarrow> (reason, validated_operation) res" where
  "validate_rotate X block_height tx marker carrier =
     res_bind (index_at (pm_payload marker) 7) (\<lambda>p7.
     if p7 \<noteq> 1 then Err UnsupportedOrReservedField
     else
     res_bind (check_tx_header tx) (\<lambda>_.
     if length (inputs tx) \<noteq> 3
        \<or> list_ex (\<lambda>inp. sequence inp \<noteq> RBF_SEQUENCE) (inputs tx)
        \<or> (case carrier of None \<Rightarrow> False | Some (index, _) \<Rightarrow> index \<noteq> 0)
     then Err BadInputCountOrOrder
     else
     res_bind (check_output_shape tx marker 4) (\<lambda>_.
     res_bind (check_provenance tx block_height) (\<lambda>_.
     res_bind (check_transition_input_scripts tx [0] [1, 2]) (\<lambda>_.
     res_bind (index_at (inputs tx) 0) (\<lambda>in0.
     res_bind (ok_or BadKeyOrderOrBinding (carrier_keys X in0)) (\<lambda>old_keys.
     res_bind (index_at (inputs tx) 1) (\<lambda>in1.
     res_bind (ok_or BadKeyOrderOrBinding (p2wpkh_key X in1)) (\<lambda>k0.
     res_bind (index_at (inputs tx) 2) (\<lambda>in2.
     res_bind (ok_or BadKeyOrderOrBinding (p2wpkh_key X in2)) (\<lambda>k1.
     res_bind (ok_or BadKeyOrderOrBinding (checked X k0 k1)) (\<lambda>ks.
     let ob = map_option snd carrier in
     if (case ob of
           Some v \<Rightarrow> ob_keys v \<noteq> old_keys \<or> ob_keys v = ks
         | None \<Rightarrow> old_keys = ks)
     then Err BadKeyOrderOrBinding
     else
     res_bind (check_signatures tx) (\<lambda>_.
     res_bind (index_at (outputs tx) 0) (\<lambda>out0.
     res_bind (index_at (outputs tx) 1) (\<lambda>out1.
     res_bind (index_at (outputs tx) 2) (\<lambda>out2.
     res_bind (index_at (outputs tx) 3) (\<lambda>out3.
     if out_value out0 \<noteq> 0
        \<or> out_value out1 \<noteq> CARRIER_VALUE
        \<or> script_pubkey out2 \<noteq> p2wpkh_script X k0
        \<or> script_pubkey out3 \<noteq> p2wpkh_script X k1
     then Err BadOutputScriptOrValue
     else
     res_bind (ok_or NonpositiveOrInvalidFee (checked_sub (prevout_value in1) (out_value out2))) (\<lambda>debit0.
     res_bind (ok_or NonpositiveOrInvalidFee (checked_sub (prevout_value in2) (out_value out3))) (\<lambda>debit1.
     res_bind (ok_or NonpositiveOrInvalidFee
                 (opt_filter (\<lambda>fee. 0 < fee) (checked_add debit0 debit1))) (\<lambda>fee.
     res_bind (plain_add (fee div 2) (fee mod 2)) (\<lambda>ceil_half.
     if debit0 \<noteq> ceil_half
        \<or> debit1 \<noteq> fee div 2
        \<or> out_value out2 < CHANGE_FLOOR
        \<or> out_value out3 < CHANGE_FLOOR
     then Err BadFeeSplitOrChange
     else
     res_bind (ok_or PredecessorNotActive ob) (\<lambda>object.
     if prevout in0 \<noteq> ob_current_outpoint object then Err PredecessorNotActive
     else
     res_bind (u32_at marker 40) (\<lambda>seq.
     if checked_add (ob_state_seq object) 1 \<noteq> Some seq then Err BadStateSequence
     else if script_pubkey out1 \<noteq> carrier_script X ks then Err BadSuccessor
     else Ok (VoRotate object seq ks))))))))))))))))))))))))"

definition validate_close ::
    "externals \<Rightarrow> u64 \<Rightarrow> tx_view \<Rightarrow> parsed_marker \<Rightarrow> (nat \<times> object_state) option
      \<Rightarrow> (reason, validated_operation) res" where
  "validate_close X block_height tx marker carrier =
     res_bind (index_at (pm_payload marker) 7) (\<lambda>p7.
     res_bind (index_at (pm_payload marker) 44) (\<lambda>p44.
     res_bind (slice_at (pm_payload marker) 45 48) (\<lambda>reserved.
     if p7 \<noteq> 0xff \<or> 3 < p44 \<or> reserved \<noteq> [0, 0, 0] then Err UnsupportedOrReservedField
     else
     res_bind (check_tx_header tx) (\<lambda>_.
     if length (inputs tx) \<noteq> 1
        \<or> sequence (inputs tx ! 0) \<noteq> RBF_SEQUENCE
        \<or> (case carrier of None \<Rightarrow> False | Some (index, _) \<Rightarrow> index \<noteq> 0)
     then Err BadInputCountOrOrder
     else
     res_bind (check_output_shape tx marker 3) (\<lambda>_.
     res_bind (check_provenance tx block_height) (\<lambda>_.
     res_bind (check_transition_input_scripts tx [0] []) (\<lambda>_.
     res_bind (index_at (inputs tx) 0) (\<lambda>in0.
     res_bind (ok_or BadKeyOrderOrBinding (carrier_keys X in0)) (\<lambda>ks.
     let ob = map_option snd carrier in
     if (case ob of None \<Rightarrow> False | Some v \<Rightarrow> ob_keys v \<noteq> ks) then Err BadKeyOrderOrBinding
     else
     res_bind (check_signatures tx) (\<lambda>_.
     res_bind (index_at (outputs tx) 0) (\<lambda>out0.
     res_bind (index_at (outputs tx) 1) (\<lambda>out1.
     res_bind (index_at (outputs tx) 2) (\<lambda>out2.
     if out_value out0 \<noteq> 0
        \<or> script_pubkey out1 \<noteq> p2wpkh_script X (key0 ks)
        \<or> script_pubkey out2 \<noteq> p2wpkh_script X (key1 ks)
     then Err BadOutputScriptOrValue
     else
     res_bind (ok_or NonpositiveOrInvalidFee (checked_add (out_value out1) (out_value out2))) (\<lambda>outs.
     res_bind (ok_or NonpositiveOrInvalidFee
                 (opt_filter (\<lambda>fee. 0 < fee) (checked_sub CARRIER_VALUE outs))) (\<lambda>fee.
     if out_value out1 = 0 \<or> out_value out1 \<noteq> out_value out2 then Err BadFeeSplitOrChange
     else
     res_bind (ok_or PredecessorNotActive ob) (\<lambda>object.
     if prevout in0 \<noteq> ob_current_outpoint object then Err PredecessorNotActive
     else
     res_bind (u32_at marker 40) (\<lambda>seq.
     if checked_add (ob_state_seq object) 1 \<noteq> Some seq then Err BadStateSequence
     else
     res_bind (hash_at marker 48) (\<lambda>commitment.
     Ok (VoClose object seq commitment)))))))))))))))))))"

definition validate_single ::
    "externals \<Rightarrow> chain_state \<Rightarrow> u64 \<Rightarrow> tx_view \<Rightarrow> parsed_marker \<Rightarrow> (nat \<times> object_state) option
      \<Rightarrow> (reason, validated_operation) res" where
  "validate_single X s block_height tx marker carrier =
     (if pm_version marker \<noteq> VERSION then Err UnknownVersion
      else if pm_network marker \<noteq> network_code (bnd_network (binding_of s)) then Err WrongNetwork
      else
      res_bind (ok_or UnknownOpcode (pm_opcode marker)) (\<lambda>opcode.
      res_bind (if opcode = OpInit then Ok False
                else res_bind (hash_at marker 8) (\<lambda>ns. Ok (ns \<noteq> namespace X (binding_of s)))) (\<lambda>wrong.
      if wrong then Err WrongNamespace
      else
      (case opcode of
         OpInit \<Rightarrow> Err UnsupportedOrReservedField
       | OpCreate \<Rightarrow> validate_create X s block_height tx marker
       | OpMark \<Rightarrow> validate_mark X block_height tx marker carrier
       | OpRotate \<Rightarrow> validate_rotate X block_height tx marker carrier
       | OpClose \<Rightarrow> validate_close X block_height tx marker carrier))))"

section \<open>REFUND\<close>

definition validate_refund :: "externals \<Rightarrow> u64 \<Rightarrow> tx_view \<Rightarrow> object_state \<Rightarrow> (reason, unit) res" where
  "validate_refund X block_height tx object =
     (if tx_version tx \<noteq> 2
         \<or> lock_time tx \<noteq> 0
         \<or> length (inputs tx) \<noteq> 1
         \<or> length (outputs tx) \<noteq> 2
         \<or> list_ex (\<lambda>out. is_op_return (script_pubkey out)) (outputs tx)
      then Err BadRefundShapeOrMaturity
      else
      res_bind (index_at (inputs tx) 0) (\<lambda>inp.
      if sequence inp \<noteq> REFUND_DELAY
         \<or> prevout inp \<noteq> ob_current_outpoint object
         \<or> \<not> has_earlier_confirmation inp block_height
         \<or> carrier_keys X inp \<noteq> Some (ob_keys object)
         \<or> \<not> signatures_valid inp
      then Err BadRefundShapeOrMaturity
      else
      res_bind (ok_or BadRefundShapeOrMaturity (prevout_height inp)) (\<lambda>confirmed_height.
      if Some block_height < checked_add confirmed_height (u64_of_u32 REFUND_DELAY)
      then Err BadRefundShapeOrMaturity
      else
      res_bind (index_at (outputs tx) 0) (\<lambda>out0.
      res_bind (index_at (outputs tx) 1) (\<lambda>out1.
      if script_pubkey out0 \<noteq> p2wpkh_script X (key0 (ob_keys object))
         \<or> script_pubkey out1 \<noteq> p2wpkh_script X (key1 (ob_keys object))
         \<or> out_value out0 = 0
         \<or> out_value out0 \<noteq> out_value out1
      then Err BadRefundShapeOrMaturity
      else
      res_bind (ok_or BadRefundShapeOrMaturity (checked_add (out_value out0) (out_value out1))) (\<lambda>output_sum.
      res_bind (ok_or BadRefundShapeOrMaturity
                  (opt_filter (\<lambda>fee. 0 < fee) (checked_sub CARRIER_VALUE output_sum))) (\<lambda>fee.
      Ok ())))))))"

section \<open>Classification of a candidate\<close>

definition attempted_event_type :: "marker_candidate \<Rightarrow> event_type" where
  "attempted_event_type c =
     (if get_at (mc_payload c) 4 = Some VERSION
      then (case opcode_byte c of
              None \<Rightarrow> EvInvalid
            | Some b \<Rightarrow>
                (case opcode_from_byte b of None \<Rightarrow> EvInvalid | Some op \<Rightarrow> event_type_of_opcode op))
      else EvInvalid)"

definition population_namespace :: "marker_candidate \<Rightarrow> hash32 option" where
  "population_namespace c =
     (if \<not> payload_complete c \<or> length (mc_payload c) < 40 then None
      else
        case opcode_byte c of
          None \<Rightarrow> None
        | Some b \<Rightarrow>
            (case opcode_from_byte b of
               None \<Rightarrow> None
             | Some op \<Rightarrow>
                 if mc_payload c ! 4 \<noteq> VERSION \<or> op = OpInit \<or> length (mc_payload c) \<noteq> payload_len op
                 then None
                 else array_try_from (take 32 (drop 8 (mc_payload c)))))"

section \<open>Inverting the validators\<close>

lemma if_Err_iffs [res_simps]:
  "(if c then Err e else m) = Ok y \<longleftrightarrow> \<not> c \<and> m = Ok y"
  "(if c then Err e else m) = Panic \<longleftrightarrow> \<not> c \<and> m = Panic"
  by auto

lemma check_simps [res_simps]:
  "check_tx_header tx = Ok u \<longleftrightarrow> tx_version tx = 2 \<and> lock_time tx = 0"
  "check_tx_header tx \<noteq> Panic"
  "check_output_shape tx m n = Ok u \<longleftrightarrow>
     length (outputs tx) = n \<and> pm_vout m = 0 \<and> \<not> has_other_op_return tx 0"
  "check_output_shape tx m n \<noteq> Panic"
  "check_provenance tx h = Ok u \<longleftrightarrow> (\<forall>i\<in>set (inputs tx). has_earlier_confirmation i h)"
  "check_provenance tx h \<noteq> Panic"
  "check_signatures tx = Ok u \<longleftrightarrow> (\<forall>i\<in>set (inputs tx). signatures_valid i)"
  "check_signatures tx \<noteq> Panic"
  by (auto simp: check_tx_header_def check_output_shape_def check_provenance_def
      check_signatures_def list_all_iff)

lemma any_input_no_panic: "list_all (\<lambda>i. i < length (inputs tx)) is \<Longrightarrow> any_input tx P is \<noteq> Panic"
  by (induction "is") (auto simp: res_simps)

lemma any_input_no_Err: "any_input tx P is \<noteq> Err e"
  by (induction "is") (auto simp: res_simps)

lemma check_transition_input_scripts_no_panic:
  assumes "list_all (\<lambda>i. i < length (inputs tx)) is" and "list_all (\<lambda>i. i < length (inputs tx)) js"
  shows "check_transition_input_scripts tx is js \<noteq> Panic"
  using assms by (auto simp: check_transition_input_scripts_def res_simps any_input_no_panic)


section \<open>What an accepted operation satisfies\<close>

lemma create_phase_iffs [res_simps]:
  "(case ps of ProtocolActive ih ho hc \<Rightarrow> f ih ho hc | _ \<Rightarrow> Err e) = Ok y \<longleftrightarrow>
     (\<exists>ih ho hc. ps = ProtocolActive ih ho hc \<and> f ih ho hc = Ok y)"
  "(case ps of ProtocolActive ih ho hc \<Rightarrow> f ih ho hc | _ \<Rightarrow> Err e) = Panic \<longleftrightarrow>
     (\<exists>ih ho hc. ps = ProtocolActive ih ho hc \<and> f ih ho hc = Panic)"
  by (cases ps; simp)+

lemma fee_halves: "fee div 2 + fee mod 2 = (Suc fee) div (2::nat)"
  by presburger

lemmas fee_simps = unat_div unat_mod fee_halves CARRIER_VALUE_def CHANGE_FLOOR_def
  word_less_nat_alt not_less word_le_nat_alt

text \<open>Half of a \<open>u64\<close> leaves room for the 10,000 satoshis a founder funds.\<close>

lemma u64_half_fits:
  "\<not> 18446744073709551616 \<le> Suc (unat (w :: u64)) div 2"
  "\<not> 18446744073709541616 \<le> Suc (unat (w :: u64)) div 2"
  "\<not> 18446744073709541616 \<le> unat (w :: u64) div 2"
  "unat (v :: u64) = a + b \<Longrightarrow> \<not> 18446744073709551616 \<le> Suc (a + b) div 2"
  using u64_bound [of w] u64_bound [of v] by linarith+

lemma validate_create_Ok:
  assumes "validate_create X s h tx m = Ok op"
  obtains ks ih ho hc fee where "op = VoCreate ks" and "checked X (key0 ks) (key1 ks) = Some ks"
    and "protocol_status s = ProtocolActive ih ho hc" and "u64_of_u32 ho \<le> h"
    and "length (inputs tx) = 2" and "length (outputs tx) = 4"
    and "0 < fee"
    and "unat (prevout_value (inputs tx ! 0)) = unat (out_value (outputs tx ! 2)) + 10000 + (Suc fee) div 2"
    and "unat (prevout_value (inputs tx ! 1)) = unat (out_value (outputs tx ! 3)) + 10000 + fee div 2"
    and "1000 \<le> unat (out_value (outputs tx ! 2))" and "1000 \<le> unat (out_value (outputs tx ! 3))"
    and "out_value (outputs tx ! 1) = CARRIER_VALUE" and "script_pubkey (outputs tx ! 1) = carrier_script X ks"
    and "\<forall>i\<in>set (inputs tx). p2wpkh_revealed_key i \<noteq> None"
proof -
  show thesis
    using assms unfolding validate_create_def
    apply (simp only: res_simps)
    apply (clarsimp simp: checked_Some_iff list_ex_iff chk_simps fee_simps)
    apply (rule that, assumption)
    apply (auto simp: checked_Some_iff fee_simps chk_simps)
    done
qed

lemma validate_configured_init_Ok:
  assumes "validate_configured_init X b h tx = Ok p"
  shows "unat (ip_h_close p) = unat (ip_h_open p) + 4320" and "unat h + 1008 \<le> unat (ip_h_open p)"
    and "length (marker_candidates tx b) = 1"
  using assms unfolding validate_configured_init_def Let_def
  by - (simp only: res_simps, clarsimp simp: chk_simps FOUNDING_WINDOW_def INIT_LEAD_def
      word_less_nat_alt not_less)+

lemma validate_mark_Ok:
  assumes "validate_mark X h tx m carrier = Ok op"
  obtains ob sq c where "op = VoMark ob sq c" and "carrier = Some (0, ob)"
    and "unat sq = Suc (unat (ob_state_seq ob))" and "c \<noteq> hash32_ZERO"
    and "carrier_keys X (inputs tx ! 0) = Some (ob_keys ob)"
    and "prevout (inputs tx ! 0) = ob_current_outpoint ob" and "length (inputs tx) = 2"
    and "length (outputs tx) = 3" and "out_value (outputs tx ! 1) = CARRIER_VALUE"
    and "script_pubkey (outputs tx ! 1) = carrier_script X (ob_keys ob)"
  using assms unfolding validate_mark_def Let_def
  by (simp only: res_simps)
    (clarsimp simp: chk_simps hash32_is_zero_iff split: option.splits prod.splits if_splits)

lemma validate_rotate_Ok:
  assumes "validate_rotate X h tx m carrier = Ok op"
  obtains ob sq ks fee where "op = VoRotate ob sq ks" and "carrier = Some (0, ob)"
    and "unat sq = Suc (unat (ob_state_seq ob))"
    and "carrier_keys X (inputs tx ! 0) = Some (ob_keys ob)"
    and "prevout (inputs tx ! 0) = ob_current_outpoint ob" and "length (inputs tx) = 3"
    and "length (outputs tx) = 4" and "out_value (outputs tx ! 1) = CARRIER_VALUE"
    and "script_pubkey (outputs tx ! 1) = carrier_script X ks"
    and "checked X (key0 ks) (key1 ks) = Some ks" and "ob_keys ob \<noteq> ks"
    and "0 < fee"
    and "unat (prevout_value (inputs tx ! 1)) = unat (out_value (outputs tx ! 2)) + (Suc fee) div 2"
    and "unat (prevout_value (inputs tx ! 2)) = unat (out_value (outputs tx ! 3)) + fee div 2"
    and "1000 \<le> unat (out_value (outputs tx ! 2))" and "1000 \<le> unat (out_value (outputs tx ! 3))"
  using assms unfolding validate_rotate_def Let_def
  apply (simp only: res_simps)
  apply (clarsimp simp: checked_Some_iff split: option.splits prod.splits if_splits)
  subgoal premises p
    by (rule p(1) [rotated -5]; use p(2-) in \<open>simp add: checked_Some_iff fee_simps chk_simps\<close>)
  done

lemma validate_close_Ok:
  assumes "validate_close X h tx m carrier = Ok op"
  obtains ob sq c where "op = VoClose ob sq c" and "carrier = Some (0, ob)"
    and "unat sq = Suc (unat (ob_state_seq ob))"
    and "carrier_keys X (inputs tx ! 0) = Some (ob_keys ob)"
    and "prevout (inputs tx ! 0) = ob_current_outpoint ob" and "length (inputs tx) = 1"
    and "length (outputs tx) = 3" and "script_pubkey (outputs tx ! 1) = p2wpkh_script X (key0 (ob_keys ob))"
    and "script_pubkey (outputs tx ! 2) = p2wpkh_script X (key1 (ob_keys ob))"
    and "out_value (outputs tx ! 1) = out_value (outputs tx ! 2)" and "0 < out_value (outputs tx ! 1)"
    and "2 * unat (out_value (outputs tx ! 1)) < 20000"
  using assms unfolding validate_close_def Let_def
  by (simp only: res_simps)
    (clarsimp simp: chk_simps fee_simps word_neq_0_conv split: option.splits prod.splits if_splits)

lemma validate_refund_Ok:
  assumes "validate_refund X h tx ob = Ok u"
  obtains hc where "length (inputs tx) = 1" and "length (outputs tx) = 2"
    and "prevout_height (inputs tx ! 0) = Some hc" and "hc < h"
    and "\<not> Some h < checked_add hc (u64_of_u32 REFUND_DELAY)"
    and "prevout (inputs tx ! 0) = ob_current_outpoint ob"
    and "carrier_keys X (inputs tx ! 0) = Some (ob_keys ob)"
    and "script_pubkey (outputs tx ! 0) = p2wpkh_script X (key0 (ob_keys ob))"
    and "script_pubkey (outputs tx ! 1) = p2wpkh_script X (key1 (ob_keys ob))"
    and "out_value (outputs tx ! 0) = out_value (outputs tx ! 1)" and "0 < out_value (outputs tx ! 0)"
    and "2 * unat (out_value (outputs tx ! 0)) < 20000"
  using assms unfolding validate_refund_def Let_def has_earlier_confirmation_def
  by (simp only: res_simps)
    (clarsimp simp: chk_simps fee_simps word_neq_0_conv split: option.splits)

lemma validate_single_Ok:
  assumes "validate_single X s h tx m carrier = Ok op"
  obtains (create) "pm_opcode m = Some OpCreate" and "validate_create X s h tx m = Ok op"
    | (mark) "pm_opcode m = Some OpMark" and "validate_mark X h tx m carrier = Ok op"
    | (rotate) "pm_opcode m = Some OpRotate" and "validate_rotate X h tx m carrier = Ok op"
    | (close) "pm_opcode m = Some OpClose" and "validate_close X h tx m carrier = Ok op"
proof -
  obtain opc where "pm_opcode m = Some opc"
    using assms by (auto simp: validate_single_def res_simps split: if_splits)
  then show thesis
    using assms that by (cases opc) (auto simp: validate_single_def res_simps split: if_splits)
qed

section \<open>No validator panics\<close>

lemma validate_create_no_panic: "length (pm_payload m) = 40 \<Longrightarrow> validate_create X s h tx m \<noteq> Panic"
  unfolding validate_create_def
  by (simp only: res_simps) (auto simp: chk_simps fee_simps u64_half_fits)

lemma validate_mark_no_panic: "length (pm_payload m) = 78 \<Longrightarrow> validate_mark X h tx m carrier \<noteq> Panic"
  unfolding validate_mark_def Let_def
  by (simp only: res_simps) (auto simp: check_transition_input_scripts_no_panic)

lemma validate_rotate_no_panic: "length (pm_payload m) = 44 \<Longrightarrow> validate_rotate X h tx m carrier \<noteq> Panic"
  unfolding validate_rotate_def Let_def
  by (simp only: res_simps)
    (auto simp: check_transition_input_scripts_no_panic chk_simps fee_simps dest: u64_half_fits(4))

lemma validate_close_no_panic: "length (pm_payload m) = 80 \<Longrightarrow> validate_close X h tx m carrier \<noteq> Panic"
  unfolding validate_close_def Let_def
  by (simp only: res_simps) (auto simp: check_transition_input_scripts_no_panic)

lemma validate_refund_no_panic: "validate_refund X h tx ob \<noteq> Panic"
  unfolding validate_refund_def Let_def
  by (simp only: res_simps) auto

lemma validate_single_no_panic:
  assumes "well_parsed m"
  shows "validate_single X s h tx m carrier \<noteq> Panic"
proof
  assume *: "validate_single X s h tx m carrier = Panic"
  then obtain op where op: "pm_opcode m = Some op"
    by (auto simp: validate_single_def res_simps)
  have len: "length (pm_payload m) = payload_len op"
    using assms op by (rule well_parsed_length)
  show False using * len op
    by (cases op)
      (auto simp: validate_single_def res_simps validate_create_no_panic validate_mark_no_panic
        validate_rotate_no_panic validate_close_no_panic split: if_splits)
qed

lemma marker_candidates_found:
  assumes "c \<in> set (marker_candidates tx b)"
  obtains i where "i < length (outputs tx)" and "u32_of_usize i = Some (mc_vout c)"
    and "find_marker_candidate (script_pubkey (outputs tx ! i)) (mc_vout c) = Some c"
proof -
  obtain i v where iv: "i < length (outputs tx)" "u32_of_usize i = Some v"
      "find_marker_candidate (script_pubkey (outputs tx ! i)) v = Some c"
    using assms
    by (auto simp: marker_candidates_def set_map_filter_iff set_enumerate_from
        split: option.splits if_splits)
  then show thesis using that [of i] find_marker_candidate_payload(1) [OF iv(3)] by simp
qed

lemma validate_marker_header_no_panic: "validate_marker_header X m b OpInit \<noteq> Panic"
  by (auto simp: validate_marker_header_def res_simps)

lemma validate_marker_header_Ok:
  "validate_marker_header X m b required = Ok u \<Longrightarrow> pm_opcode m = Some required"
  by (auto simp: validate_marker_header_def res_simps split: if_splits)

lemma validate_configured_init_no_panic: "validate_configured_init X b h tx \<noteq> Panic"
proof
  assume *: "validate_configured_init X b h tx = Panic"
  then have len: "length (marker_candidates tx b) = 1"
    by (simp add: validate_configured_init_def Let_def split: if_splits)
  then obtain c where cs: "marker_candidates tx b = [c]" by (auto simp: length_Suc_conv)
  then obtain script v where f: "find_marker_candidate script v = Some c"
    by (metis list.set_intros(1) marker_candidates_found)
  have parsed: "parse c \<noteq> Panic" and wp: "\<And>m. parse c = Ok m \<Longrightarrow> well_parsed m"
    using parse_found_no_panic [OF f] parse_found_well_parsed(1) [OF f] by blast+
  have len59: "length (pm_payload m) = 59" if "parse c = Ok m" "pm_opcode m = Some OpInit" for m
    using well_parsed_length [OF wp [OF that(1)] that(2)] by simp
  show False using * unfolding validate_configured_init_def Let_def cs
    by (simp only: res_simps)
      (auto simp: parsed validate_marker_header_no_panic dest!: validate_marker_header_Ok len59)
qed

end
