(* ===== verification/Roots.thy ===== *)
theory Roots
  imports Tandem_Types "HOL-Library.Product_Lexorder"
begin

text \<open>
  Event, object and chained root calculations, \<open>crates/tandem-core/src/roots.rs\<close>. Each hash is
  split into its preimage (the byte string the code assembles) and the digest of it, so that the
  lemmas can say what the preimages determine: every field of the event, the object snapshot or the
  block tuple they were built from. \<open>merkle\<close> follows the loop of the source: an odd level repeats
  its last node, and each pair of nodes is hashed under the domain of its tree.
\<close>

section \<open>Merkle trees\<close>

definition node_preimage :: "bytes \<Rightarrow> hash32 \<Rightarrow> hash32 \<Rightarrow> bytes" where
  "node_preimage domain a b = domain @ bytes_of a @ bytes_of b"

definition pad_level :: "hash32 list \<Rightarrow> hash32 list" where
  "pad_level leaves = (if length leaves mod 2 = 1 then leaves @ [last leaves] else leaves)"

fun hash_pairs :: "externals \<Rightarrow> bytes \<Rightarrow> hash32 list \<Rightarrow> hash32 list" where
  "hash_pairs X domain (a # b # xs) =
     hash32_sha256 X (node_preimage domain a b) # hash_pairs X domain xs"
| "hash_pairs X domain xs = []"

lemma length_hash_pairs [simp]: "length (hash_pairs X domain xs) = length xs div 2"
  by (induction X domain xs rule: hash_pairs.induct) auto

lemma length_pad_level [simp]: "length (pad_level xs) = 2 * ((length xs + 1) div 2)"
  by (auto simp: pad_level_def) presburger+

function merkle_loop :: "externals \<Rightarrow> bytes \<Rightarrow> hash32 list \<Rightarrow> hash32 list" where
  "merkle_loop X domain leaves =
     (if 1 < length leaves
      then merkle_loop X domain (hash_pairs X domain (pad_level leaves))
      else leaves)"
  by pat_completeness auto
termination
  by (relation "measure (\<lambda>(X, domain, leaves). length leaves)") auto

declare merkle_loop.simps [simp del]

definition merkle :: "externals \<Rightarrow> hash32 list \<Rightarrow> bytes \<Rightarrow> ('e, hash32) res" where
  "merkle X leaves domain = index_at (merkle_loop X domain leaves) 0"

section \<open>Events\<close>

definition event_preimage :: "event \<Rightarrow> bytes" where
  "event_preimage e =
     ascii ''TANDEM/EVENT'' @ [0]
     @ bytes_of (ev_namespace e)
     @ bytes_of (ev_block_hash e)
     @ to_le_bytes (ev_height e)
     @ to_le_bytes (ev_tx_index e)
     @ to_le_bytes (ev_event_index e)
     @ to_le_bytes (ev_sub_index e)
     @ [event_type_code (ev_event_type e)]
     @ [validity_class_code (ev_validity_class e)]
     @ to_le_bytes (reason_code (ev_reason e))
     @ bytes_of (ev_txid e)
     @ bytes_of (ev_wtxid e)
     @ bytes_of (ev_object_key e)
     @ to_le_bytes (ev_state_seq e)
     @ wire_bytes (ev_predecessor e)
     @ wire_bytes (ev_successor e)
     @ bytes_of (ev_key0 e)
     @ bytes_of (ev_key1 e)
     @ bytes_of (ev_commitment e)"

definition event_leaf :: "externals \<Rightarrow> event \<Rightarrow> hash32" where
  "event_leaf X e = hash32_sha256 X (event_preimage e)"

definition event_order :: "event \<Rightarrow> u32 \<times> u32 \<times> u32" where
  "event_order e = (ev_tx_index e, ev_event_index e, ev_sub_index e)"

definition event_root :: "externals \<Rightarrow> hash32 \<Rightarrow> event list \<Rightarrow> ('e, hash32) res" where
  "event_root X ns events =
     (if events = []
      then Ok (hash32_sha256 X (ascii ''TANDEM/EVENT-EMPTY'' @ [0] @ bytes_of ns))
      else merkle X (map (event_leaf X) (sort_key event_order events))
             (ascii ''TANDEM/EVENT-NODE'' @ [0]))"

section \<open>Objects\<close>

definition object_state_preimage :: "object_state \<Rightarrow> bytes" where
  "object_state_preimage ob =
     ascii ''TANDEM/OBJECT-STATE'' @ [0]
     @ bytes_of (ob_object_key ob)
     @ [if ob_founding ob then 1 else 0]
     @ [object_status_code (ob_status ob)]
     @ to_le_bytes (ob_create_height ob)
     @ to_le_bytes (ob_state_seq ob)
     @ wire_bytes (if ob_status ob = StActive then ob_current_outpoint ob else outpoint_ZERO)
     @ bytes_of (key0 (ob_keys ob))
     @ bytes_of (key1 (ob_keys ob))
     @ bytes_of (if ob_status ob = StActive then hash32_ZERO else ob_terminal_txid ob)
     @ to_le_bytes (ob_chapter_count ob)"

definition object_state_leaf :: "externals \<Rightarrow> object_state \<Rightarrow> hash32" where
  "object_state_leaf X ob = hash32_sha256 X (object_state_preimage ob)"

definition object_state_root :: "externals \<Rightarrow> hash32 \<Rightarrow> object_state list \<Rightarrow> ('e, hash32) res" where
  "object_state_root X ns obs =
     (let leaves = map (\<lambda>ob. (ob_object_key ob, object_state_leaf X ob)) obs in
      if leaves = []
      then Ok (hash32_sha256 X (ascii ''TANDEM/OBJECT-EMPTY'' @ [0] @ bytes_of ns))
      else merkle X (map snd (sort_key fst leaves)) (ascii ''TANDEM/OBJECT-NODE'' @ [0]))"

section \<open>Blocks\<close>

definition block_root_preimage ::
    "hash32 \<Rightarrow> hash32 \<Rightarrow> hash32 \<Rightarrow> u64 \<Rightarrow> hash32 \<Rightarrow> hash32 \<Rightarrow> counters \<Rightarrow> bytes" where
  "block_root_preimage ns previous_root block_hash height ev_root ob_root cnt =
     ascii ''TANDEM/BLOCKROOT'' @ [0]
     @ bytes_of ns
     @ bytes_of previous_root
     @ bytes_of block_hash
     @ to_le_bytes height
     @ bytes_of ev_root
     @ bytes_of ob_root
     @ to_le_bytes (founding_created cnt)
     @ to_le_bytes (all_objects cnt)
     @ to_le_bytes (active_objects cnt)"

definition block_root ::
    "externals \<Rightarrow> hash32 \<Rightarrow> hash32 \<Rightarrow> hash32 \<Rightarrow> u64 \<Rightarrow> hash32 \<Rightarrow> hash32 \<Rightarrow> counters \<Rightarrow> hash32" where
  "block_root X ns previous_root block_hash height ev_root ob_root cnt =
     hash32_sha256 X (block_root_preimage ns previous_root block_hash height ev_root ob_root cnt)"

section \<open>Preimages determine their fields\<close>

lemma length_event_preimage: "length (event_preimage e) = 371"
  by (simp add: event_preimage_def ascii_def)

lemma event_preimage_inject: "event_preimage e = event_preimage e' \<longleftrightarrow> e = e'"
  by (cases e; cases e') (auto simp: event_preimage_def)

lemma block_root_preimage_inject:
  "block_root_preimage ns pr bh h er obr c = block_root_preimage ns' pr' bh' h' er' obr' c' \<longleftrightarrow>
     ns = ns' \<and> pr = pr' \<and> bh = bh' \<and> h = h' \<and> er = er' \<and> obr = obr' \<and> c = c'"
  by (cases c; cases c') (auto simp: block_root_preimage_def)

lemma node_preimage_inject: "node_preimage d a b = node_preimage d a' b' \<longleftrightarrow> a = a' \<and> b = b'"
  by (auto simp: node_preimage_def)

text \<open>
  What a snapshot leaf commits to: everything but the genesis outpoint, with the current outpoint
  only of an active object and the terminal transaction only of a terminated one.
\<close>

definition snapshot_view :: "object_state \<Rightarrow> object_state" where
  "snapshot_view ob =
     ob\<lparr>ob_genesis := outpoint_ZERO,
        ob_current_outpoint := (if ob_status ob = StActive then ob_current_outpoint ob else outpoint_ZERO),
        ob_terminal_txid := (if ob_status ob = StActive then hash32_ZERO else ob_terminal_txid ob)\<rparr>"

lemma length_object_state_preimage: "length (object_state_preimage ob) = 204"
  by (simp add: object_state_preimage_def ascii_def)

lemma object_state_preimage_inject:
  "object_state_preimage a = object_state_preimage b \<longleftrightarrow> snapshot_view a = snapshot_view b"
  by (cases a; cases b; cases "ob_keys a"; cases "ob_keys b")
    (auto simp: object_state_preimage_def snapshot_view_def split: if_splits)

section \<open>Merkle roots\<close>

lemma length_merkle_loop: "length (merkle_loop X d xs) = min 1 (length xs)"
proof (induction X d xs rule: merkle_loop.induct)
  case (1 X d xs)
  then show ?case
    by (cases "1 < length xs") (auto simp: merkle_loop.simps [of X d xs])
qed

lemma merkle_loop_singleton:
  assumes "xs \<noteq> []"
  obtains a where "merkle_loop X d xs = [a]"
proof -
  have "length (merkle_loop X d xs) = Suc 0"
    using assms by (cases xs) (simp_all add: length_merkle_loop)
  then show thesis using that by (auto simp: length_Suc_conv)
qed

lemma merkle_loop_Nil [simp]: "merkle_loop X d [] = []"
  by (simp add: merkle_loop.simps)

lemma merkle_no_panic: "xs \<noteq> [] \<Longrightarrow> \<exists>h. merkle X xs d = Ok h"
  by (erule merkle_loop_singleton [of xs X d]) (simp add: merkle_def index_at_def)

lemma sort_key_Nil_iff [simp]: "sort_key f xs = [] \<longleftrightarrow> xs = []"
  by (metis length_0_conv length_sort)

lemma event_root_total: "\<exists>h. event_root X ns es = Ok h"
  by (cases "es = []") (simp_all add: event_root_def merkle_no_panic)

lemma object_state_root_total: "\<exists>h. object_state_root X ns obs = Ok h"
  by (cases "obs = []") (simp_all add: object_state_root_def merkle_no_panic)

text \<open>The byte strings a Merkle computation hashes.\<close>

fun pair_preimages :: "bytes \<Rightarrow> hash32 list \<Rightarrow> bytes list" where
  "pair_preimages d (a # b # xs) = node_preimage d a b # pair_preimages d xs"
| "pair_preimages d xs = []"

function merkle_preimages :: "externals \<Rightarrow> bytes \<Rightarrow> hash32 list \<Rightarrow> bytes list" where
  "merkle_preimages X d xs =
     (if 1 < length xs
      then pair_preimages d (pad_level xs) @ merkle_preimages X d (hash_pairs X d (pad_level xs))
      else [])"
  by pat_completeness auto
termination
  by (relation "measure (\<lambda>(X, d, xs). length xs)") auto

declare merkle_preimages.simps [simp del]

lemma hash_pairs_inject:
  assumes "hash_pairs X d xs = hash_pairs X d ys" and "length xs = length ys" and "even (length xs)"
    and "inj_on (sha256_digest X) (set (pair_preimages d xs) \<union> set (pair_preimages d ys))"
  shows "xs = ys"
  using assms
proof (induction X d xs arbitrary: ys rule: hash_pairs.induct)
  case (1 X d a b xs)
  then obtain a' b' ys' where ys: "ys = a' # b' # ys'"
    by (cases ys; cases "tl ys") auto
  have "node_preimage d a b = node_preimage d a' b'"
    by (rule inj_onD [OF "1.prems"(4)]) (use "1.prems"(1) in \<open>auto simp: ys hash32_sha256_def\<close>)
  moreover have "xs = ys'"
    using 1 by (intro "1.IH") (auto simp: ys intro: inj_on_subset)
  ultimately show ?case by (simp add: ys node_preimage_inject)
qed auto

lemma pad_level_inject: "pad_level xs = pad_level ys \<Longrightarrow> length xs = length ys \<Longrightarrow> xs = ys"
  by (auto simp: pad_level_def split: if_splits)

lemma merkle_loop_inject:
  assumes "merkle_loop X d xs = merkle_loop X d ys" and "length xs = length ys"
    and "inj_on (sha256_digest X) (set (merkle_preimages X d xs) \<union> set (merkle_preimages X d ys))"
  shows "xs = ys"
  using assms
proof (induction X d xs arbitrary: ys rule: merkle_loop.induct)
  case (1 X d xs)
  show ?case
  proof (cases "1 < length xs")
    case False
    with 1 show ?thesis by (simp add: merkle_loop.simps)
  next
    case True
    note pre = merkle_preimages.simps [of X d xs] merkle_preimages.simps [of X d ys]
    let ?xs = "pad_level xs" and ?ys = "pad_level ys"
    have "hash_pairs X d ?xs = hash_pairs X d ?ys"
    proof (rule "1.IH" [OF True])
      show "merkle_loop X d (hash_pairs X d ?xs) = merkle_loop X d (hash_pairs X d ?ys)"
        using "1.prems"(1,2) True by (simp add: merkle_loop.simps [of X d xs] merkle_loop.simps [of X d ys])
    qed (use "1.prems"(2,3) True in \<open>auto simp: pre intro: inj_on_subset\<close>)
    then have "?xs = ?ys"
      by (rule hash_pairs_inject) (use "1.prems"(2,3) True in \<open>auto simp: pre intro: inj_on_subset\<close>)
    then show ?thesis using "1.prems"(2) by (rule pad_level_inject)
  qed
qed

lemma merkle_inject:
  assumes "merkle X xs d = Ok h" and "merkle X ys d = Ok h" and "length xs = length ys"
    and "inj_on (sha256_digest X) (set (merkle_preimages X d xs) \<union> set (merkle_preimages X d ys))"
  shows "xs = ys"
proof (rule merkle_loop_inject)
  have "xs \<noteq> []" "ys \<noteq> []"
    using assms(1,2) by (auto simp: merkle_def res_simps)
  then obtain a b where "merkle_loop X d xs = [a]" "merkle_loop X d ys = [b]"
    by (metis merkle_loop_singleton)
  then show "merkle_loop X d xs = merkle_loop X d ys"
    using assms(1,2) by (auto simp: merkle_def res_simps)
qed (use assms in auto)

end
