(* ===== verification/Reducer.thy ===== *)
theory Reducer
  imports Validation Roots
begin

text \<open>
  Block application and rollback, the writing half of \<open>crates/tandem-core/src/reducer.rs\<close>. A
  function that takes \<open>&mut ChainState\<close> returns the state it leaves behind; \<open>apply_block\<close>
  returns it beside the result, also when the result is an error, so that "no partial block is
  committed" is a statement about the model and not built into its type.
\<close>

section \<open>Results and errors\<close>

record block_delta =
  bd_before :: chain_state
  bd_block_hash :: hash32
  bd_previous_hash :: hash32
  bd_height :: u64
  bd_events :: "event list"
  bd_roots :: height_roots

datatype reducer_error =
    ConfiguredInitAbsent
  | NonconsecutiveHeight (ne_expected: u64) (ne_actual: u64)
  | ParentMismatch
  | DisconnectMismatch
  | TransactionIndexOverflow

definition validate_linkage :: "chain_state \<Rightarrow> block_view \<Rightarrow> (reducer_error, unit) res" where
  "validate_linkage s b =
     (case tip_height s of
        None \<Rightarrow> Ok ()
      | Some h \<Rightarrow>
          res_bind (ok_or (NonconsecutiveHeight 0xffffffffffffffff (bv_height b)) (checked_add h 1)) (\<lambda>expected.
          if bv_height b \<noteq> expected then Err (NonconsecutiveHeight expected (bv_height b))
          else if tip_hash s \<noteq> Some (bv_previous_hash b) then Err ParentMismatch
          else Ok ()))"

section \<open>Events\<close>

definition valid_event_base ::
    "externals \<Rightarrow> chain_state \<Rightarrow> block_view \<Rightarrow> tx_view \<Rightarrow> u32 \<Rightarrow> u32 \<Rightarrow> event_type \<Rightarrow> hash32 \<Rightarrow> u32
      \<Rightarrow> outpoint_ref \<Rightarrow> outpoint_ref \<Rightarrow> key_pair \<Rightarrow> hash32 \<Rightarrow> event" where
  "valid_event_base X s b tx tx_index event_index etype okey seq predecessor successor ks commitment =
     \<lparr>ev_namespace = namespace X (binding_of s),
      ev_block_hash = bv_hash b,
      ev_height = bv_height b,
      ev_tx_index = tx_index,
      ev_event_index = event_index,
      ev_sub_index = 0,
      ev_event_type = etype,
      ev_validity_class = ValidOperation,
      ev_reason = Valid,
      ev_txid = tx_txid tx,
      ev_wtxid = tx_wtxid tx,
      ev_object_key = okey,
      ev_state_seq = seq,
      ev_predecessor = predecessor,
      ev_successor = successor,
      ev_key0 = key0 ks,
      ev_key1 = key1 ks,
      ev_commitment = commitment\<rparr>"

definition valid_init_event ::
    "externals \<Rightarrow> chain_state \<Rightarrow> block_view \<Rightarrow> tx_view \<Rightarrow> u32 \<Rightarrow> event" where
  "valid_init_event X s b tx tx_index =
     \<lparr>ev_namespace = namespace X (binding_of s),
      ev_block_hash = bv_hash b,
      ev_height = bv_height b,
      ev_tx_index = tx_index,
      ev_event_index = (case marker_candidates tx (binding_of s) of [] \<Rightarrow> u32_MAX | c # _ \<Rightarrow> mc_vout c),
      ev_sub_index = 0,
      ev_event_type = EvInit,
      ev_validity_class = ValidOperation,
      ev_reason = Valid,
      ev_txid = tx_txid tx,
      ev_wtxid = tx_wtxid tx,
      ev_object_key = hash32_ZERO,
      ev_state_seq = u32_MAX,
      ev_predecessor = outpoint_ZERO,
      ev_successor = outpoint_ZERO,
      ev_key0 = key33_ZERO,
      ev_key1 = key33_ZERO,
      ev_commitment = spec_hash (binding_of s)\<rparr>"

definition valid_refund_event ::
    "externals \<Rightarrow> chain_state \<Rightarrow> block_view \<Rightarrow> tx_view \<Rightarrow> u32 \<Rightarrow> object_state \<Rightarrow> event" where
  "valid_refund_event X s b tx tx_index ob =
     valid_event_base X s b tx tx_index u32_MAX EvRefund (ob_object_key ob) (ob_state_seq ob)
       (ob_current_outpoint ob) outpoint_ZERO (ob_keys ob) hash32_ZERO"

definition bare_invalid_event ::
    "block_view \<Rightarrow> tx_view \<Rightarrow> u32 \<Rightarrow> u32 \<Rightarrow> event_type \<Rightarrow> reason \<Rightarrow> hash32 \<Rightarrow> event" where
  "bare_invalid_event b tx tx_index event_index etype rsn ns =
     \<lparr>ev_namespace = ns,
      ev_block_hash = bv_hash b,
      ev_height = bv_height b,
      ev_tx_index = tx_index,
      ev_event_index = event_index,
      ev_sub_index = 0,
      ev_event_type = etype,
      ev_validity_class = InvalidNoState,
      ev_reason = rsn,
      ev_txid = tx_txid tx,
      ev_wtxid = tx_wtxid tx,
      ev_object_key = hash32_ZERO,
      ev_state_seq = u32_MAX,
      ev_predecessor = outpoint_ZERO,
      ev_successor = outpoint_ZERO,
      ev_key0 = key33_ZERO,
      ev_key1 = key33_ZERO,
      ev_commitment = hash32_ZERO\<rparr>"

text \<open>\<open>iter().map(|c| c.vout).min().unwrap_or(u32::MAX)\<close>\<close>

definition min_vout :: "marker_candidate list \<Rightarrow> u32" where
  "min_vout cs = (case map mc_vout cs of [] \<Rightarrow> u32_MAX | v # vs \<Rightarrow> fold min vs v)"

definition invalid_event ::
    "externals \<Rightarrow> binding \<Rightarrow> block_view \<Rightarrow> tx_view \<Rightarrow> u32 \<Rightarrow> reason \<Rightarrow> bool \<Rightarrow> event" where
  "invalid_event X bnd b tx tx_index rsn configured_init =
     (let candidates = marker_candidates tx bnd;
          event_index =
            (if length candidates = 1 then mc_vout (candidates ! 0)
             else if 1 < length candidates then min_vout candidates
             else u32_MAX);
          etype = (if length candidates = 1 then attempted_event_type (candidates ! 0) else EvInvalid);
          ns =
            (if configured_init then namespace X bnd
             else if length candidates = 1
             then (case population_namespace (candidates ! 0) of None \<Rightarrow> hash32_ZERO | Some h \<Rightarrow> h)
             else hash32_ZERO)
      in bare_invalid_event b tx tx_index event_index etype rsn ns)"

section \<open>State changes\<close>

definition terminate_object :: "chain_state \<Rightarrow> object_state \<Rightarrow> object_status \<Rightarrow> hash32 \<Rightarrow> chain_state" where
  "terminate_object s ob status terminal =
     s\<lparr>active := bt_remove (ob_current_outpoint ob) (active s),
       objects :=
         bt_update (ob_object_key ob)
           (\<lambda>stored. stored\<lparr>ob_status := status,
                             ob_current_outpoint := outpoint_ZERO,
                             ob_terminal_txid := terminal\<rparr>)
           (objects s)\<rparr>"

definition exit_event ::
    "block_view \<Rightarrow> tx_view \<Rightarrow> u32 \<Rightarrow> u32 \<Rightarrow> u32 \<Rightarrow> reason \<Rightarrow> hash32 \<Rightarrow> object_state \<Rightarrow> event" where
  "exit_event b tx tx_index event_index sub rsn ns ob =
     \<lparr>ev_namespace = ns,
      ev_block_hash = bv_hash b,
      ev_height = bv_height b,
      ev_tx_index = tx_index,
      ev_event_index = event_index,
      ev_sub_index = sub,
      ev_event_type = EvExitedNoncanonical,
      ev_validity_class = TerminalNoncanonical,
      ev_reason = rsn,
      ev_txid = tx_txid tx,
      ev_wtxid = tx_wtxid tx,
      ev_object_key = ob_object_key ob,
      ev_state_seq = ob_state_seq ob,
      ev_predecessor = ob_current_outpoint ob,
      ev_successor = outpoint_ZERO,
      ev_key0 = key0 (ob_keys ob),
      ev_key1 = key1 (ob_keys ob),
      ev_commitment = hash32_ZERO\<rparr>"

fun terminate_loop ::
    "block_view \<Rightarrow> tx_view \<Rightarrow> u32 \<Rightarrow> u32 \<Rightarrow> reason \<Rightarrow> hash32 \<Rightarrow> nat \<Rightarrow> (nat \<times> object_state) list
      \<Rightarrow> chain_state \<Rightarrow> ('e, chain_state \<times> event list) res" where
  "terminate_loop b tx tx_index event_index rsn ns n [] s = Ok (s, [])"
| "terminate_loop b tx tx_index event_index rsn ns n ((i, ob) # cs) s =
     (case u32_of_usize n of
        None \<Rightarrow> Panic
      | Some sub \<Rightarrow>
          res_bind
            (terminate_loop b tx tx_index event_index rsn ns (Suc n) cs
               (terminate_object s ob StExitedNoncanonical (tx_txid tx)))
            (\<lambda>(s', es). Ok (s', exit_event b tx tx_index event_index sub rsn ns ob # es)))"

definition terminate_carriers ::
    "chain_state \<Rightarrow> block_view \<Rightarrow> tx_view \<Rightarrow> u32 \<Rightarrow> u32 \<Rightarrow> reason \<Rightarrow> hash32 \<Rightarrow> (nat \<times> object_state) list
      \<Rightarrow> ('e, chain_state \<times> event list) res" where
  "terminate_carriers s b tx tx_index event_index rsn ns carriers =
     terminate_loop b tx tx_index event_index rsn ns 0
       (sort_key (\<lambda>(_, ob). ob_object_key ob) carriers) s"

definition apply_valid_operation ::
    "externals \<Rightarrow> chain_state \<Rightarrow> block_view \<Rightarrow> tx_view \<Rightarrow> u32 \<Rightarrow> u32 \<Rightarrow> validated_operation
      \<Rightarrow> ('e, chain_state \<times> event) res" where
  "apply_valid_operation X s b tx tx_index event_index operation =
     (let ns = namespace X (binding_of s); successor = OutPointRef (tx_txid tx) 1 in
      case operation of
        VoCreate ks \<Rightarrow>
          (case protocol_status s of
             ProtocolActive _ h_open h_close \<Rightarrow>
               let key = object_key X ns (tx_txid tx);
                   founding = (u64_of_u32 h_open \<le> bv_height b \<and> bv_height b < u64_of_u32 h_close);
                   object =
                     \<lparr>ob_object_key = key, ob_genesis = successor, ob_founding = founding,
                      ob_status = StActive, ob_create_height = bv_height b, ob_state_seq = 0,
                      ob_current_outpoint = successor, ob_keys = ks,
                      ob_terminal_txid = hash32_ZERO, ob_chapter_count = 0\<rparr>;
                   s' = s\<lparr>active := bt_insert successor key (active s),
                          objects := bt_insert key object (objects s)\<rparr>
               in Ok (s', valid_event_base X s' b tx tx_index event_index EvCreate key 0
                            outpoint_ZERO successor ks hash32_ZERO)
           | _ \<Rightarrow> Panic)
      | VoMark object seq commitment \<Rightarrow>
          res_bind
            (case checked_add (ob_chapter_count object) 1 of None \<Rightarrow> Panic | Some n \<Rightarrow> Ok n)
            (\<lambda>chapters.
              let predecessor = ob_current_outpoint object;
                  object' = object\<lparr>ob_current_outpoint := successor, ob_state_seq := seq,
                                   ob_chapter_count := chapters\<rparr>;
                  s' = s\<lparr>active := bt_insert successor (ob_object_key object')
                                    (bt_remove predecessor (active s)),
                         objects := bt_insert (ob_object_key object') object' (objects s)\<rparr>
              in Ok (s', valid_event_base X s' b tx tx_index event_index EvMark (ob_object_key object')
                           seq predecessor successor (ob_keys object') commitment))
      | VoRotate object seq ks \<Rightarrow>
          let predecessor = ob_current_outpoint object;
              object' = object\<lparr>ob_current_outpoint := successor, ob_state_seq := seq, ob_keys := ks\<rparr>;
              s' = s\<lparr>active := bt_insert successor (ob_object_key object')
                                (bt_remove predecessor (active s)),
                     objects := bt_insert (ob_object_key object') object' (objects s)\<rparr>
          in Ok (s', valid_event_base X s' b tx tx_index event_index EvRotate (ob_object_key object')
                       seq predecessor successor ks hash32_ZERO)
      | VoClose object seq commitment \<Rightarrow>
          let predecessor = ob_current_outpoint object;
              s1 = terminate_object s object StClosed (tx_txid tx);
              s' = s1\<lparr>objects := bt_update (ob_object_key object)
                                   (\<lambda>stored. stored\<lparr>ob_state_seq := seq\<rparr>) (objects s1)\<rparr>
          in Ok (s', valid_event_base X s' b tx tx_index event_index EvClose (ob_object_key object)
                       seq predecessor outpoint_ZERO (ob_keys object) commitment))"

section \<open>One transaction\<close>

definition process_transaction ::
    "externals \<Rightarrow> chain_state \<Rightarrow> block_view \<Rightarrow> tx_view \<Rightarrow> u32 \<Rightarrow> ('e, chain_state \<times> event list) res" where
  "process_transaction X s b tx tx_index =
     (let candidates = marker_candidates tx (binding_of s);
          carriers = carrier_spends s tx
      in
      if 1 < length candidates then
        let event_index = min_vout candidates in
        if carriers = []
        then Ok (s, [bare_invalid_event b tx tx_index event_index EvInvalid MultipleMarkers hash32_ZERO])
        else terminate_carriers s b tx tx_index event_index MultipleMarkers hash32_ZERO carriers
      else if 1 < length carriers then
        let event_index = (case candidates of [] \<Rightarrow> u32_MAX | c # _ \<Rightarrow> mc_vout c);
            ns = (case (case candidates of [] \<Rightarrow> None | c # _ \<Rightarrow> population_namespace c) of
                    Some h \<Rightarrow> h
                  | None \<Rightarrow> if candidates = [] then namespace X (binding_of s) else hash32_ZERO)
        in terminate_carriers s b tx tx_index event_index MultipleCarriers ns carriers
      else if candidates = [] then
        (case carriers of
           [] \<Rightarrow> Ok (s, [])
         | (_, object) # _ \<Rightarrow>
             if length (inputs tx) = 1 \<and> length (outputs tx) = 2 then
               (case validate_refund X (bv_height b) tx object of
                  Ok _ \<Rightarrow>
                    Ok (terminate_object s object StRefunded (tx_txid tx),
                        [valid_refund_event X s b tx tx_index object])
                | Err _ \<Rightarrow>
                    terminate_carriers s b tx tx_index u32_MAX BadRefundShapeOrMaturity
                      (namespace X (binding_of s)) carriers
                | Panic \<Rightarrow> Panic)
             else
               terminate_carriers s b tx tx_index u32_MAX UnmarkedCarrierSpend
                 (namespace X (binding_of s)) carriers)
      else
        res_bind (index_at candidates 0) (\<lambda>candidate.
        let parsed = parse candidate;
            attempted_type = attempted_event_type candidate;
            ns = (case population_namespace candidate of None \<Rightarrow> hash32_ZERO | Some h \<Rightarrow> h);
            carrier = (case carriers of [] \<Rightarrow> None | c # _ \<Rightarrow> Some c);
            validation =
              res_bind (map_err me_reason parsed)
                (\<lambda>marker. validate_single X s (bv_height b) tx marker carrier)
        in
        (case validation of
           Ok operation \<Rightarrow>
             res_bind (apply_valid_operation X s b tx tx_index (mc_vout candidate) operation)
               (\<lambda>(s', e). Ok (s', [e]))
         | Err rsn \<Rightarrow>
             if carriers = []
             then Ok (s, [bare_invalid_event b tx tx_index (mc_vout candidate) attempted_type rsn ns])
             else terminate_carriers s b tx tx_index (mc_vout candidate) rsn ns carriers
         | Panic \<Rightarrow> Panic)))"

section \<open>One block\<close>

text \<open>
  The loop over the block's transactions. \<open>skip_init\<close> is set in the block that activates the
  protocol, where the configured INIT emits its own event instead of being dispatched.
\<close>

fun block_loop ::
    "externals \<Rightarrow> block_view \<Rightarrow> bool \<Rightarrow> nat \<Rightarrow> tx_view list \<Rightarrow> chain_state
      \<Rightarrow> chain_state \<times> (reducer_error, event list) res" where
  "block_loop X b skip_init n [] s = (s, Ok [])"
| "block_loop X b skip_init n (tx # txs) s =
     (case u32_of_usize n of
        None \<Rightarrow> (s, Err TransactionIndexOverflow)
      | Some tx_index \<Rightarrow>
          (case (if skip_init \<and> tx_txid tx = init_txid (binding_of s)
                 then Ok (s, [valid_init_event X s b tx tx_index])
                 else process_transaction X s b tx tx_index) of
             Ok (s', es) \<Rightarrow>
               (case block_loop X b skip_init (Suc n) txs s' of
                  (s'', r) \<Rightarrow> (s'', res_bind r (\<lambda>es'. Ok (es @ es'))))
           | Err e \<Rightarrow> (s, Err e)
           | Panic \<Rightarrow> (s, Panic)))"

definition block_events ::
    "externals \<Rightarrow> chain_state \<Rightarrow> block_view \<Rightarrow> chain_state \<times> (reducer_error, event list) res" where
  "block_events X s b =
     (case protocol_status s of
        AwaitingInit \<Rightarrow>
          (case find (\<lambda>(_, tx). tx_txid tx = init_txid (binding_of s)) (enumerate_from 0 (transactions b)) of
             None \<Rightarrow> (s, Err ConfiguredInitAbsent)
           | Some (index, init_tx) \<Rightarrow>
               (case u32_of_usize index of
                  None \<Rightarrow> (s, Err TransactionIndexOverflow)
                | Some init_index \<Rightarrow>
                    (case validate_configured_init X (binding_of s) (bv_height b) init_tx of
                       Ok params \<Rightarrow>
                         block_loop X b True 0 (transactions b)
                           (s\<lparr>protocol_status :=
                                ProtocolActive (bv_height b) (ip_h_open params) (ip_h_close params)\<rparr>)
                     | Err rsn \<Rightarrow>
                         (s\<lparr>protocol_status := FailedInit rsn (bv_height b)\<rparr>,
                          Ok [invalid_event X (binding_of s) b init_tx init_index rsn True])
                     | Panic \<Rightarrow> (s, Panic))))
      | ProtocolActive _ _ _ \<Rightarrow> block_loop X b False 0 (transactions b) s
      | FailedInit _ _ \<Rightarrow> (s, Ok []))"

definition finish_block ::
    "externals \<Rightarrow> chain_state \<Rightarrow> block_view \<Rightarrow> chain_state \<Rightarrow> event list
      \<Rightarrow> chain_state \<times> (reducer_error, block_delta) res" where
  "finish_block X prior b s es =
     (let ns = namespace X (binding_of prior) in
      case event_root X ns es of
        Ok er \<Rightarrow>
          (case object_state_root X ns (bt_values (objects s)) of
             Ok obr \<Rightarrow>
               let cnt = state_counters s;
                   chained = block_root X ns (cs_chained_root s) (bv_hash b) (bv_height b) er obr cnt;
                   s' = s\<lparr>tip_height := Some (bv_height b), tip_hash := Some (bv_hash b),
                          cs_chained_root := chained\<rparr>;
                   roots = \<lparr>hr_height = bv_height b, hr_block_hash = bv_hash b, hr_event_root = er,
                            hr_object_state_root = obr, hr_chained_root = chained, hr_counters = cnt\<rparr>
               in (s', Ok \<lparr>bd_before = prior, bd_block_hash = bv_hash b,
                           bd_previous_hash = bv_previous_hash b, bd_height = bv_height b,
                           bd_events = es, bd_roots = roots\<rparr>)
           | Err e \<Rightarrow> (s, Err e)
           | Panic \<Rightarrow> (s, Panic))
      | Err e \<Rightarrow> (s, Err e)
      | Panic \<Rightarrow> (s, Panic))"

definition apply_block ::
    "externals \<Rightarrow> chain_state \<Rightarrow> block_view \<Rightarrow> chain_state \<times> (reducer_error, block_delta) res" where
  "apply_block X s b =
     (case validate_linkage s b of
        Err e \<Rightarrow> (s, Err e)
      | Panic \<Rightarrow> (s, Panic)
      | Ok _ \<Rightarrow>
          if 4294967295 < int (length (transactions b)) then (s, Err TransactionIndexOverflow)
          else
            (case block_events X s b of
               (s', Ok es) \<Rightarrow> finish_block X s b s' es
             | (s', Err e) \<Rightarrow> (s', Err e)
             | (s', Panic) \<Rightarrow> (s', Panic)))"

definition disconnect_block ::
    "chain_state \<Rightarrow> block_delta \<Rightarrow> chain_state \<times> (reducer_error, unit) res" where
  "disconnect_block s delta =
     (if tip_hash s \<noteq> Some (bd_block_hash delta) \<or> tip_height s \<noteq> Some (bd_height delta)
      then (s, Err DisconnectMismatch)
      else (bd_before delta, Ok ()))"

end
