(* ===== verification/Reducer_Steps.thy ===== *)
theory Reducer_Steps
  imports Reducer
begin

text \<open>
  What one transaction can do to the chain state. \<open>process_transaction_Ok\<close> inverts the dispatch
  of \<open>process_transaction\<close> into its five outcomes, \<open>apply_valid_operation_Ok\<close> the effect of an
  accepted operation, and every change of an object is one of two primitives: \<open>advance_object\<close>
  (its carrier moves to a new outpoint) and \<open>terminate_object\<close>. The lemmas on the invariant, on the
  event log and on panics are all proved over these cases.
\<close>

section \<open>Outcomes of a transaction\<close>

text \<open>The dispatch of a transaction by its markers and the carriers it spends.\<close>

lemma dispatch_cases:
  obtains (markers) "1 < length (marker_candidates tx bnd)"
  | (carriers) "\<not> 1 < length (marker_candidates tx bnd)" and "1 < length (carrier_spends s tx)"
  | (none) "marker_candidates tx bnd = []" and "carrier_spends s tx = []"
  | (unmarked) j ob where "marker_candidates tx bnd = []" and "carrier_spends s tx = [(j, ob)]"
  | (marked) c where "marker_candidates tx bnd = [c]" and "length (carrier_spends s tx) \<le> 1"
  by (cases "marker_candidates tx bnd"; cases "carrier_spends s tx"; cases "tl (marker_candidates tx bnd)";
      cases "tl (carrier_spends s tx)") auto

definition spent_carrier :: "chain_state \<Rightarrow> tx_view \<Rightarrow> (nat \<times> object_state) option" where
  "spent_carrier s tx = (case carrier_spends s tx of [] \<Rightarrow> None | c # _ \<Rightarrow> Some c)"

lemma spent_carrier_spends:
  "length (carrier_spends s tx) \<le> 1 \<Longrightarrow>
     carrier_spends s tx = (case spent_carrier s tx of None \<Rightarrow> [] | Some c \<Rightarrow> [c])"
  by (cases "carrier_spends s tx") (auto simp: spent_carrier_def)

lemma process_marked:
  assumes "marker_candidates tx (binding_of s) = [c]" and "length (carrier_spends s tx) \<le> 1"
  shows "process_transaction X s b tx i =
    (case res_bind (map_err me_reason (parse c)) (\<lambda>m. validate_single X s (bv_height b) tx m (spent_carrier s tx)) of
       Ok op \<Rightarrow> res_bind (apply_valid_operation X s b tx i (mc_vout c) op) (\<lambda>(s', e). Ok (s', [e]))
     | Err rsn \<Rightarrow>
         if carrier_spends s tx = []
         then Ok (s, [bare_invalid_event b tx i (mc_vout c) (attempted_event_type c) rsn
                        (case population_namespace c of None \<Rightarrow> hash32_ZERO | Some h \<Rightarrow> h)])
         else terminate_carriers s b tx i (mc_vout c) rsn
                (case population_namespace c of None \<Rightarrow> hash32_ZERO | Some h \<Rightarrow> h) (carrier_spends s tx)
     | Panic \<Rightarrow> Panic)"
  using assms by (simp add: process_transaction_def Let_def spent_carrier_def index_at_def)

lemma process_transaction_Ok:
  fixes s' :: chain_state
  assumes "process_transaction X s b tx i = (Ok (s', es) :: ('e, chain_state \<times> event list) res)"
  obtains
    (unmatched) "marker_candidates tx (binding_of s) = []" and "carrier_spends s tx = []"
      and "s' = s" and "es = []"
  | (invalid) ei et rsn ns where "marker_candidates tx (binding_of s) \<noteq> []"
      and "carrier_spends s tx = []" and "s' = s" and "es = [bare_invalid_event b tx i ei et rsn ns]"
  | (exits) ei rsn ns where "carrier_spends s tx \<noteq> []"
      and "terminate_carriers s b tx i ei rsn ns (carrier_spends s tx) = (Ok (s', es) :: ('e, chain_state \<times> event list) res)"
  | (refund) j ob where "marker_candidates tx (binding_of s) = []" and "carrier_spends s tx = [(j, ob)]"
      and "validate_refund X (bv_height b) tx ob = Ok ()"
      and "s' = terminate_object s ob StRefunded (tx_txid tx)"
      and "es = [valid_refund_event X s b tx i ob]"
  | (operation) c m carrier op e where "marker_candidates tx (binding_of s) = [c]"
      and "parse c = Ok m"
      and "carrier_spends s tx = (case carrier of None \<Rightarrow> [] | Some p \<Rightarrow> [p])"
      and "validate_single X s (bv_height b) tx m carrier = Ok op"
      and "apply_valid_operation X s b tx i (mc_vout c) op = (Ok (s', e) :: ('e, chain_state \<times> event) res)" and "es = [e]"
proof (cases rule: dispatch_cases [where tx = tx and bnd = "binding_of s" and s = s])
  case markers
  show thesis
  proof (cases "carrier_spends s tx = []")
    case True
    then have "s' = s" and "es = [bare_invalid_event b tx i (min_vout (marker_candidates tx (binding_of s))) EvInvalid
        MultipleMarkers hash32_ZERO]"
      using assms markers by (auto simp: process_transaction_def Let_def)
    then show thesis using markers True by (intro invalid) auto
  next
    case False
    with assms markers show thesis by (intro exits) (auto simp: process_transaction_def Let_def)
  qed
next
  case carriers
  then have "carrier_spends s tx \<noteq> []" by auto
  then show thesis
    by (rule exits [OF _ assms [unfolded process_transaction_def Let_def if_not_P [OF carriers(1)] if_P [OF carriers(2)]]])
next
  case none
  then have "s' = s" and "es = []" using assms by (simp_all add: process_transaction_def)
  with none show thesis by (rule unmatched)
next
  case (unmarked j ob)
  then show thesis
    using assms
    by (cases "length (inputs tx) = 1 \<and> length (outputs tx) = 2"; cases "validate_refund X (bv_height b) tx ob")
      (auto simp: process_transaction_def intro: exits refund [OF unmarked])
next
  case (marked c)
  note p = assms [unfolded process_marked [OF marked]]
  show thesis
  proof (cases "res_bind (map_err me_reason (parse c)) (\<lambda>m. validate_single X s (bv_height b) tx m (spent_carrier s tx))")
    case (Ok op)
    then obtain m where m: "parse c = Ok m" "validate_single X s (bv_height b) tx m (spent_carrier s tx) = Ok op"
      by (auto simp: res_simps)
    show thesis using p Ok by (auto simp: res_simps intro: operation [OF marked(1) m(1) spent_carrier_spends [OF marked(2)] m(2)])
  next
    case (Err e)
    then show thesis using p marked(1) by (cases "carrier_spends s tx = []") (auto intro: exits invalid)
  qed (use p in simp)
qed

section \<open>Carriers\<close>

lemma carrier_spends_iff:
  "(j, ob) \<in> set (carrier_spends s tx) \<longleftrightarrow>
     j < length (inputs tx) \<and>
     (\<exists>k. bt_get (active s) (prevout (inputs tx ! j)) = Some k \<and> bt_get (objects s) k = Some ob)"
  by (auto simp: carrier_spends_def set_map_filter_iff set_enumerate_from split: option.splits)

lemma carrier_spends_empty:
  "\<forall>inp\<in>set (inputs tx). bt_get (active s) (prevout inp) = None \<Longrightarrow> carrier_spends s tx = []"
  by (auto simp: carrier_spends_def List.map_filter_def filter_empty_conv set_enumerate_from)

lemma length_map_filter_le: "length (List.map_filter f xs) \<le> length xs"
  by (simp add: List.map_filter_def)

lemma length_enumerate_from [simp]: "length (enumerate_from n xs) = length xs"
  by (induction n xs rule: enumerate_from.induct) auto

lemma length_carrier_spends: "length (carrier_spends s tx) \<le> length (inputs tx)"
  unfolding carrier_spends_def by (rule order_trans [OF length_map_filter_le]) simp

section \<open>Effects on the state\<close>

text \<open>
  A new object enters both maps; an object that moves leaves its old outpoint and enters its new
  one. Together with \<open>terminate_object\<close> these are the only changes of the maps.
\<close>

definition found_object :: "chain_state \<Rightarrow> object_state \<Rightarrow> chain_state" where
  "found_object s ob =
     s\<lparr>active := bt_insert (ob_current_outpoint ob) (ob_object_key ob) (active s),
       objects := bt_insert (ob_object_key ob) ob (objects s)\<rparr>"

definition advance_object :: "chain_state \<Rightarrow> object_state \<Rightarrow> object_state \<Rightarrow> chain_state" where
  "advance_object s ob ob' =
     s\<lparr>active := bt_insert (ob_current_outpoint ob') (ob_object_key ob')
                   (bt_remove (ob_current_outpoint ob) (active s)),
       objects := bt_insert (ob_object_key ob') ob' (objects s)\<rparr>"

definition close_object :: "chain_state \<Rightarrow> object_state \<Rightarrow> hash32 \<Rightarrow> u32 \<Rightarrow> chain_state" where
  "close_object s ob t seq =
     (terminate_object s ob StClosed t)\<lparr>objects :=
        bt_update (ob_object_key ob) (\<lambda>stored. stored\<lparr>ob_state_seq := seq\<rparr>)
          (objects (terminate_object s ob StClosed t))\<rparr>"

definition created_object ::
    "externals \<Rightarrow> chain_state \<Rightarrow> block_view \<Rightarrow> tx_view \<Rightarrow> u32 \<Rightarrow> u32 \<Rightarrow> key_pair \<Rightarrow> object_state" where
  "created_object X s b tx h_open h_close ks =
     \<lparr>ob_object_key = object_key X (namespace X (binding_of s)) (tx_txid tx),
      ob_genesis = OutPointRef (tx_txid tx) 1,
      ob_founding = (u64_of_u32 h_open \<le> bv_height b \<and> bv_height b < u64_of_u32 h_close),
      ob_status = StActive, ob_create_height = bv_height b, ob_state_seq = 0,
      ob_current_outpoint = OutPointRef (tx_txid tx) 1, ob_keys = ks,
      ob_terminal_txid = hash32_ZERO, ob_chapter_count = 0\<rparr>"

definition marked_object :: "object_state \<Rightarrow> tx_view \<Rightarrow> u32 \<Rightarrow> object_state" where
  "marked_object ob tx seq =
     ob\<lparr>ob_current_outpoint := OutPointRef (tx_txid tx) 1, ob_state_seq := seq,
        ob_chapter_count := ob_chapter_count ob + 1\<rparr>"

definition rotated_object :: "object_state \<Rightarrow> tx_view \<Rightarrow> u32 \<Rightarrow> key_pair \<Rightarrow> object_state" where
  "rotated_object ob tx seq ks =
     ob\<lparr>ob_current_outpoint := OutPointRef (tx_txid tx) 1, ob_state_seq := seq, ob_keys := ks\<rparr>"

definition terminated_object :: "object_state \<Rightarrow> object_status \<Rightarrow> hash32 \<Rightarrow> object_state" where
  "terminated_object ob status t =
     ob\<lparr>ob_status := status, ob_current_outpoint := outpoint_ZERO, ob_terminal_txid := t\<rparr>"

lemma terminated_object_sel [simp]:
  "ob_object_key (terminated_object ob status t) = ob_object_key ob"
  "ob_status (terminated_object ob status t) = status"
  "ob_genesis (terminated_object ob status t) = ob_genesis ob"
  by (simp_all add: terminated_object_def)

lemma terminated_object_seq [simp]:
  "ob_object_key (terminated_object ob status t\<lparr>ob_state_seq := n\<rparr>) = ob_object_key ob"
  "ob_status (terminated_object ob status t\<lparr>ob_state_seq := n\<rparr>) = status"
  by (simp_all add: terminated_object_def)

lemma terminated_object_idem [simp]:
  "terminated_object (terminated_object ob status t) status t = terminated_object ob status t"
  by (simp add: terminated_object_def)

lemma terminate_object_eq:
  assumes "bt_get (objects s) (ob_object_key ob) = Some st"
  shows "terminate_object s ob status t =
    s\<lparr>active := bt_remove (ob_current_outpoint ob) (active s),
      objects := bt_insert (ob_object_key ob) (terminated_object st status t) (objects s)\<rparr>"
  using assms by (simp add: terminate_object_def terminated_object_def bt_update_def)

lemma close_object_eq:
  assumes "bt_get (objects s) (ob_object_key ob) = Some st"
  shows "close_object s ob t seq =
    s\<lparr>active := bt_remove (ob_current_outpoint ob) (active s),
      objects := bt_insert (ob_object_key ob) ((terminated_object st StClosed t)\<lparr>ob_state_seq := seq\<rparr>)
        (objects s)\<rparr>"
  unfolding close_object_def terminate_object_eq [OF assms] by (simp add: bt_update_def)

lemma checked_add_one: "checked_add a 1 = (if a = u32_MAX then None else Some (a + 1))"
proof -
  have "unat a < 4294967296" by (rule u32_bound)
  moreover have "a = u32_MAX \<longleftrightarrow> unat a = 4294967295" by (simp add: word_unat_eq_iff)
  ultimately show ?thesis unfolding checked_add_def unat_sum_fits by auto
qed

text \<open>
  An accepted operation spends no carrier (CREATE) or exactly the carrier of its object, at input 0.
\<close>

lemma operation_cases:
  fixes s' :: chain_state
  assumes "validate_single X s (bv_height b) tx m carrier = Ok op"
    and "apply_valid_operation X s b tx i ei op = (Ok (s', e) :: ('e, chain_state \<times> event) res)"
  obtains
    (create) ks ih ho hc where "protocol_status s = ProtocolActive ih ho hc"
      and "checked X (key0 ks) (key1 ks) = Some ks" and "u64_of_u32 ho \<le> bv_height b"
      and "\<forall>inp\<in>set (inputs tx). p2wpkh_revealed_key inp \<noteq> None"
      and "length (outputs tx) = 4" and "script_pubkey (outputs tx ! 1) = carrier_script X ks"
      and "s' = found_object s (created_object X s b tx ho hc ks)"
      and "e = valid_event_base X s b tx i ei EvCreate
                 (object_key X (namespace X (binding_of s)) (tx_txid tx)) 0 outpoint_ZERO
                 (OutPointRef (tx_txid tx) 1) ks hash32_ZERO"
  | (mark) ob seq c where "carrier = Some (0, ob)" and "unat seq = Suc (unat (ob_state_seq ob))"
      and "prevout (inputs tx ! 0) = ob_current_outpoint ob" and "length (inputs tx) = 2"
      and "length (outputs tx) = 3" and "script_pubkey (outputs tx ! 1) = carrier_script X (ob_keys ob)"
      and "c \<noteq> hash32_ZERO" and "ob_chapter_count ob \<noteq> u32_MAX"
      and "s' = advance_object s ob (marked_object ob tx seq)"
      and "e = valid_event_base X s b tx i ei EvMark (ob_object_key ob) seq (ob_current_outpoint ob)
                 (OutPointRef (tx_txid tx) 1) (ob_keys ob) c"
  | (rotate) ob seq ks where "carrier = Some (0, ob)" and "unat seq = Suc (unat (ob_state_seq ob))"
      and "prevout (inputs tx ! 0) = ob_current_outpoint ob" and "length (inputs tx) = 3"
      and "length (outputs tx) = 4" and "script_pubkey (outputs tx ! 1) = carrier_script X ks"
      and "checked X (key0 ks) (key1 ks) = Some ks" and "ob_keys ob \<noteq> ks"
      and "s' = advance_object s ob (rotated_object ob tx seq ks)"
      and "e = valid_event_base X s b tx i ei EvRotate (ob_object_key ob) seq (ob_current_outpoint ob)
                 (OutPointRef (tx_txid tx) 1) ks hash32_ZERO"
  | (close) ob seq c where "carrier = Some (0, ob)" and "unat seq = Suc (unat (ob_state_seq ob))"
      and "prevout (inputs tx ! 0) = ob_current_outpoint ob" and "length (inputs tx) = 1"
      and "s' = close_object s ob (tx_txid tx) seq"
      and "e = valid_event_base X s b tx i ei EvClose (ob_object_key ob) seq (ob_current_outpoint ob)
                 outpoint_ZERO (ob_keys ob) c"
proof (cases rule: validate_single_Ok [OF assms(1)])
  case 1
  show thesis
    by (rule validate_create_Ok [OF 1(2)], rule create)
      (use assms(2) in \<open>auto simp: apply_valid_operation_def Let_def found_object_def
          created_object_def valid_event_base_def\<close>)
next
  case 2
  show thesis
    by (rule validate_mark_Ok [OF 2(2)], rule mark)
      (use assms(2) in \<open>auto simp: apply_valid_operation_def Let_def advance_object_def res_simps
          marked_object_def valid_event_base_def checked_add_one split: if_splits\<close>)
next
  case 3
  show thesis
    by (rule validate_rotate_Ok [OF 3(2)], rule rotate)
      (use assms(2) in \<open>auto simp: apply_valid_operation_def Let_def advance_object_def
          rotated_object_def valid_event_base_def\<close>)
next
  case 4
  show thesis
    by (rule validate_close_Ok [OF 4(2)], rule close)
      (use assms(2) in \<open>auto simp: apply_valid_operation_def Let_def close_object_def
          terminate_object_def valid_event_base_def\<close>)
qed

text \<open>The loop over the terminated carriers in closed form.\<close>

definition terminate_all :: "hash32 \<Rightarrow> (nat \<times> object_state) list \<Rightarrow> chain_state \<Rightarrow> chain_state" where
  "terminate_all t cs s = fold (\<lambda>(_, ob) s. terminate_object s ob StExitedNoncanonical t) cs s"

lemma terminate_all_simps [simp]:
  "terminate_all t [] s = s"
  "terminate_all t ((j, ob) # cs) s = terminate_all t cs (terminate_object s ob StExitedNoncanonical t)"
  by (simp_all add: terminate_all_def)

definition exit_events ::
    "block_view \<Rightarrow> tx_view \<Rightarrow> u32 \<Rightarrow> u32 \<Rightarrow> reason \<Rightarrow> hash32 \<Rightarrow> nat \<Rightarrow> (nat \<times> object_state) list \<Rightarrow> event list" where
  "exit_events b tx i ei rsn ns n cs =
     map (\<lambda>(m, (_, ob)). exit_event b tx i ei (word_of_int (int m)) rsn ns ob) (enumerate_from n cs)"

lemma u32_of_usize_eq: "u32_of_usize n = (if n < 4294967296 then Some (word_of_int (int n)) else None)"
  by (simp add: u32_of_usize_def)

lemma terminate_loop_eq:
  "terminate_loop b tx i ei rsn ns n cs s =
     (if cs = [] \<or> n + length cs \<le> 4294967296
      then Ok (terminate_all (tx_txid tx) cs s, exit_events b tx i ei rsn ns n cs) else Panic)"
proof (induction b tx i ei rsn ns n cs s rule: terminate_loop.induct)
  case (2 b tx i ei rsn ns n j ob cs s)
  show ?case
  proof (cases "n < 4294967296")
    case True
    with 2 [of "word_of_int (int n)"] show ?thesis
      by (cases "cs = []") (simp_all add: u32_of_usize_eq exit_events_def)
  qed (simp add: u32_of_usize_eq)
qed (simp add: exit_events_def)

lemma terminate_carriers_total:
  "length carriers \<le> 4294967296 \<Longrightarrow> \<exists>r. terminate_carriers s b tx i ei rsn ns carriers = Ok r"
  by (simp add: terminate_carriers_def terminate_loop_eq)

lemma terminate_carriers_Ok:
  fixes s' :: chain_state
  assumes "terminate_carriers s b tx i ei rsn ns carriers = (Ok (s', es) :: ('e, chain_state \<times> event list) res)"
  obtains cs where "cs = sort_key (\<lambda>(_, ob). ob_object_key ob) carriers" and "set cs = set carriers"
    and "length cs \<le> 4294967296"
    and "s' = terminate_all (tx_txid tx) cs s" and "es = exit_events b tx i ei rsn ns 0 cs"
  using assms by (auto simp: terminate_carriers_def terminate_loop_eq split: if_splits)

end
