(* ===== verification/Reducer_Invariant.thy ===== *)
theory Reducer_Invariant
  imports Reducer_Steps
begin

text \<open>
  The invariant of the chain state and its preservation by every transaction and every block. It
  ties the two maps of \<open>ChainState\<close> together (the active index lists exactly the current
  outpoints of the active objects) and fixes what every stored object satisfies: its key derives
  from its genesis transaction, its key pair is ordered and valid, it was created inside the phases
  the INIT opened, it has at most as many chapters as states, and a terminated object has no
  outpoint. The predicates are executable: they range over the entries of the maps.
\<close>

section \<open>The invariant\<close>

definition founded_ok :: "protocol_status \<Rightarrow> object_state \<Rightarrow> bool" where
  "founded_ok ps ob =
     (case ps of
        ProtocolActive _ h_open h_close \<Rightarrow>
          u64_of_u32 h_open \<le> ob_create_height ob \<and>
          ob_founding ob = (ob_create_height ob < u64_of_u32 h_close)
      | _ \<Rightarrow> False)"

definition object_ok :: "externals \<Rightarrow> binding \<Rightarrow> protocol_status \<Rightarrow> object_state \<Rightarrow> bool" where
  "object_ok X b ps ob \<longleftrightarrow>
     ob_object_key ob = object_key X (namespace X b) (op_txid (ob_genesis ob)) \<and>
     op_vout (ob_genesis ob) = 1 \<and>
     checked X (key0 (ob_keys ob)) (key1 (ob_keys ob)) = Some (ob_keys ob) \<and>
     founded_ok ps ob \<and>
     ob_chapter_count ob \<le> ob_state_seq ob \<and>
     (if ob_status ob = StActive
      then op_vout (ob_current_outpoint ob) = 1 \<and> ob_terminal_txid ob = hash32_ZERO
      else ob_current_outpoint ob = outpoint_ZERO)"

definition phases_ok :: "protocol_status \<Rightarrow> bool" where
  "phases_ok ps =
     (case ps of
        ProtocolActive ih h_open h_close \<Rightarrow>
          u64_of_u32 h_close = u64_of_u32 h_open + 4320 \<and> unat ih + 1008 \<le> unat h_open
      | _ \<Rightarrow> True)"

definition chain_ok :: "externals \<Rightarrow> chain_state \<Rightarrow> bool" where
  "chain_ok X s \<longleftrightarrow>
     phases_ok (protocol_status s) \<and>
     list_all (\<lambda>(k, ob). ob_object_key ob = k \<and> object_ok X (binding_of s) (protocol_status s) ob \<and>
                 (ob_status ob = StActive \<longrightarrow> bt_get (active s) (ob_current_outpoint ob) = Some k))
       (bt_entries (objects s)) \<and>
     list_all (\<lambda>(p, k). case bt_get (objects s) k of None \<Rightarrow> False
                 | Some ob \<Rightarrow> ob_status ob = StActive \<and> ob_current_outpoint ob = p)
       (bt_entries (active s))"

text \<open>
  The transactions seen so far: every active outpoint and every genesis belongs to one of them.
  A transaction is new when its id gives an object key none of them has.
\<close>

definition history_ok :: "hash32 list \<Rightarrow> chain_state \<Rightarrow> bool" where
  "history_ok hs s \<longleftrightarrow>
     list_all (\<lambda>(p, k). op_txid p \<in> set hs) (bt_entries (active s)) \<and>
     list_all (\<lambda>(k, ob). op_txid (ob_genesis ob) \<in> set hs) (bt_entries (objects s))"

definition distinct_keys :: "externals \<Rightarrow> binding \<Rightarrow> hash32 list \<Rightarrow> bool" where
  "distinct_keys X b hs \<longleftrightarrow> distinct (map (object_key X (namespace X b)) hs)"

section \<open>Reading the invariant\<close>

lemma list_all_entries_iff:
  "list_all P (bt_entries m) \<longleftrightarrow> (\<forall>k v. bt_get m k = Some v \<longrightarrow> P (k, v))"
  by (auto simp: list_all_iff bt.get_iff_entries)

lemma case_option_False_iff: "(case x of None \<Rightarrow> False | Some v \<Rightarrow> P v) \<longleftrightarrow> (\<exists>v. x = Some v \<and> P v)"
  by (cases x) auto

lemma chain_ok_iff:
  "chain_ok X s \<longleftrightarrow>
     phases_ok (protocol_status s) \<and>
     (\<forall>k ob. bt_get (objects s) k = Some ob \<longrightarrow>
        ob_object_key ob = k \<and> object_ok X (binding_of s) (protocol_status s) ob \<and>
        (ob_status ob = StActive \<longrightarrow> bt_get (active s) (ob_current_outpoint ob) = Some k)) \<and>
     (\<forall>p k. bt_get (active s) p = Some k \<longrightarrow>
        (\<exists>ob. bt_get (objects s) k = Some ob \<and> ob_status ob = StActive \<and> ob_current_outpoint ob = p))"
  by (simp add: chain_ok_def list_all_entries_iff case_option_False_iff)

lemma history_ok_iff:
  "history_ok hs s \<longleftrightarrow>
     (\<forall>p k. bt_get (active s) p = Some k \<longrightarrow> op_txid p \<in> set hs) \<and>
     (\<forall>k ob. bt_get (objects s) k = Some ob \<longrightarrow> op_txid (ob_genesis ob) \<in> set hs)"
  by (auto simp: history_ok_def list_all_entries_iff)

lemma chain_okI:
  assumes "phases_ok (protocol_status s)"
    and "\<And>k ob. bt_get (objects s) k = Some ob \<Longrightarrow> ob_object_key ob = k"
    and "\<And>k ob. bt_get (objects s) k = Some ob \<Longrightarrow> object_ok X (binding_of s) (protocol_status s) ob"
    and "\<And>k ob. bt_get (objects s) k = Some ob \<Longrightarrow> ob_status ob = StActive \<Longrightarrow>
      bt_get (active s) (ob_current_outpoint ob) = Some k"
    and "\<And>p k. bt_get (active s) p = Some k \<Longrightarrow>
      \<exists>ob. bt_get (objects s) k = Some ob \<and> ob_status ob = StActive \<and> ob_current_outpoint ob = p"
  shows "chain_ok X s"
  using assms by (simp add: chain_ok_iff)

lemma chain_okD:
  assumes "chain_ok X s"
  shows chain_ok_phases: "phases_ok (protocol_status s)"
    and chain_ok_key: "bt_get (objects s) k = Some ob \<Longrightarrow> ob_object_key ob = k"
    and chain_ok_object: "bt_get (objects s) k = Some ob \<Longrightarrow> object_ok X (binding_of s) (protocol_status s) ob"
    and chain_ok_indexed: "bt_get (objects s) k = Some ob \<Longrightarrow> ob_status ob = StActive \<Longrightarrow>
      bt_get (active s) (ob_current_outpoint ob) = Some k"
    and chain_ok_active: "bt_get (active s) p = Some k \<Longrightarrow>
      \<exists>ob. bt_get (objects s) k = Some ob \<and> ob_status ob = StActive \<and> ob_current_outpoint ob = p"
  using assms by (auto simp: chain_ok_iff)

lemma chain_ok_carrier:
  assumes "chain_ok X s" and "(j, ob) \<in> set (carrier_spends s tx)"
  shows "bt_get (objects s) (ob_object_key ob) = Some ob" and "ob_status ob = StActive"
    and "ob_current_outpoint ob = prevout (inputs tx ! j)"
    and "bt_get (active s) (ob_current_outpoint ob) = Some (ob_object_key ob)" and "j < length (inputs tx)"
    and "object_ok X (binding_of s) (protocol_status s) ob"
  using assms by (fastforce simp: carrier_spends_iff chain_ok_iff)+

text \<open>Every input that spends an active outpoint is found by \<open>carrier_spends\<close>.\<close>

lemma active_input_is_carrier:
  assumes "chain_ok X s" and "j < length (inputs tx)"
    and "bt_get (active s) (prevout (inputs tx ! j)) = Some k"
  obtains ob where "(j, ob) \<in> set (carrier_spends s tx)"
  using chain_ok_active [OF assms(1,3)] assms(2,3) by (auto simp: carrier_spends_iff)

text \<open>The active index has one entry per active object.\<close>

lemma chain_ok_active_count:
  assumes "chain_ok X s"
  shows "length (filter (\<lambda>ob. ob_status ob = StActive) (bt_values (objects s))) = bt_len (active s)"
proof -
  let ?A = "{k. \<exists>ob. bt_get (objects s) k = Some ob \<and> ob_status ob = StActive}"
  have "inj_on (\<lambda>p. the (bt_get (active s) p)) (dom (bt_get (active s)))"
  proof (rule inj_onI)
    fix p q
    assume "p \<in> dom (bt_get (active s))" "q \<in> dom (bt_get (active s))"
      "the (bt_get (active s) p) = the (bt_get (active s) q)"
    then obtain k where k: "bt_get (active s) p = Some k" "bt_get (active s) q = Some k" by auto
    show "p = q"
      using chain_ok_active [OF assms k(1)] chain_ok_active [OF assms k(2)] by auto
  qed
  moreover have "(\<lambda>p. the (bt_get (active s) p)) ` dom (bt_get (active s)) = ?A"
    using chain_ok_active [OF assms] chain_ok_indexed [OF assms] by (force simp: dom_def)
  ultimately have "card (dom (bt_get (active s))) = card ?A" by (metis card_image)
  then show ?thesis by (simp add: bt_values_count bt_len_card)
qed

section \<open>Preservation by the primitive changes\<close>

text \<open>The parts of the state no transaction changes.\<close>

definition same_frame :: "chain_state \<Rightarrow> chain_state \<Rightarrow> bool" where
  "same_frame s s' \<longleftrightarrow>
     binding_of s' = binding_of s \<and> protocol_status s' = protocol_status s \<and>
     tip_height s' = tip_height s \<and> tip_hash s' = tip_hash s \<and> cs_chained_root s' = cs_chained_root s"

lemma same_frame_refl [simp]: "same_frame s s"
  by (simp add: same_frame_def)

lemma same_frame_trans: "same_frame s t \<Longrightarrow> same_frame t u \<Longrightarrow> same_frame s u"
  by (simp add: same_frame_def)

lemma same_frame_steps [simp]:
  "same_frame s (found_object s ob)" "same_frame s (advance_object s ob ob')"
  "same_frame s (terminate_object s ob st t)" "same_frame s (close_object s ob t seq)"
  by (simp_all add: same_frame_def found_object_def advance_object_def terminate_object_def close_object_def)

definition new_tx :: "externals \<Rightarrow> chain_state \<Rightarrow> hash32 \<Rightarrow> bool" where
  "new_tx X s txid \<longleftrightarrow>
     bt_get (active s) (OutPointRef txid 1) = None \<and>
     bt_get (objects s) (object_key X (namespace X (binding_of s)) txid) = None"

lemma new_txI:
  assumes "chain_ok X s" and "history_ok hs s" and "distinct_keys X (binding_of s) (txid # hs)"
  shows "new_tx X s txid"
proof -
  have "bt_get (objects s) k = None" if k: "k = object_key X (namespace X (binding_of s)) txid" for k
  proof (rule ccontr)
    assume "bt_get (objects s) k \<noteq> None"
    then obtain ob where ob: "bt_get (objects s) k = Some ob" by blast
    then have "k = object_key X (namespace X (binding_of s)) (op_txid (ob_genesis ob))"
      using chain_ok_key [OF assms(1) ob] chain_ok_object [OF assms(1) ob] by (simp add: object_ok_def)
    moreover have "op_txid (ob_genesis ob) \<in> set hs" using assms(2) ob by (auto simp: history_ok_iff)
    ultimately show False using assms(3) k by (auto simp: distinct_keys_def)
  qed
  moreover have "bt_get (active s) (OutPointRef txid 1) = None"
    using assms(2,3) by (cases "bt_get (active s) (OutPointRef txid 1)") (fastforce simp: history_ok_iff distinct_keys_def)+
  ultimately show ?thesis by (simp add: new_tx_def)
qed

lemma found_object_chain_ok:
  assumes "chain_ok X s" and "new_tx X s (tx_txid tx)"
    and "protocol_status s = ProtocolActive ih ho hc" and "checked X (key0 ks) (key1 ks) = Some ks"
    and "u64_of_u32 ho \<le> bv_height b"
  shows "chain_ok X (found_object s (created_object X s b tx ho hc ks))"
proof -
  let ?k = "object_key X (namespace X (binding_of s)) (tx_txid tx)" and ?p = "OutPointRef (tx_txid tx) 1"
  have fresh: "bt_get (active s) ?p = None" "bt_get (objects s) ?k = None"
    using assms(2) by (simp_all add: new_tx_def)
  have no_p: "ob_current_outpoint ob \<noteq> ?p" if "bt_get (objects s) k = Some ob" "ob_status ob = StActive" for k ob
    using chain_ok_indexed [OF assms(1) that] fresh(1) by auto
  have no_k: "k \<noteq> ?k" if "bt_get (active s) p = Some k" for p k
    using chain_ok_active [OF assms(1) that] fresh(2) by auto
  show ?thesis
    using assms fresh no_p no_k
    by (auto simp: chain_ok_iff found_object_def created_object_def object_ok_def founded_ok_def)
qed

lemma advance_object_chain_ok:
  assumes "chain_ok X s" and "new_tx X s txid"
    and "bt_get (objects s) (ob_object_key ob) = Some ob" and "ob_status ob = StActive"
    and "object_ok X (binding_of s) (protocol_status s) ob'" and "ob_status ob' = StActive"
    and "ob_object_key ob' = ob_object_key ob" and "ob_current_outpoint ob' = OutPointRef txid 1"
  shows "chain_ok X (advance_object s ob ob')"
proof -
  let ?k = "ob_object_key ob" and ?p = "OutPointRef txid 1"
  have fresh: "bt_get (active s) ?p = None" using assms(2) by (simp add: new_tx_def)
  have own: "bt_get (active s) (ob_current_outpoint ob) = Some ?k"
    using chain_ok_indexed [OF assms(1,3,4)] .
  have no_p: "ob_current_outpoint v \<noteq> ?p" "k \<noteq> ?k \<Longrightarrow> ob_current_outpoint v \<noteq> ob_current_outpoint ob"
    if "bt_get (objects s) k = Some v" "ob_status v = StActive" for k v
    using chain_ok_indexed [OF assms(1) that] fresh own by auto
  have uniq: "p = ob_current_outpoint ob" if "bt_get (active s) p = Some ?k" for p
    using chain_ok_active [OF assms(1) that] assms(3) by auto
  have objs: "bt_get (objects (advance_object s ob ob')) = (bt_get (objects s))(?k \<mapsto> ob')"
    and act: "bt_get (active (advance_object s ob ob')) =
      (bt_get (active s))(ob_current_outpoint ob := None, ?p \<mapsto> ?k)"
    and frame: "same_frame s (advance_object s ob ob')"
    by (simp_all add: advance_object_def same_frame_def assms(7,8))
  show ?thesis
  proof (rule chain_okI)
    show "phases_ok (protocol_status (advance_object s ob ob'))"
      using chain_ok_phases [OF assms(1)] frame by (simp add: same_frame_def)
  next
    fix k v
    assume *: "bt_get (objects (advance_object s ob ob')) k = Some v"
    show "ob_object_key v = k"
      using * chain_ok_key [OF assms(1)] assms(7) by (auto simp: objs split: if_splits)
    show "object_ok X (binding_of (advance_object s ob ob')) (protocol_status (advance_object s ob ob')) v"
      using * chain_ok_object [OF assms(1)] assms(5) frame by (auto simp: objs same_frame_def split: if_splits)
    show "bt_get (active (advance_object s ob ob')) (ob_current_outpoint v) = Some k" if "ob_status v = StActive"
      using * that no_p chain_ok_indexed [OF assms(1)] assms(8) by (auto simp: objs act split: if_splits)
  next
    fix p k
    assume "bt_get (active (advance_object s ob ob')) p = Some k"
    then show "\<exists>v. bt_get (objects (advance_object s ob ob')) k = Some v \<and> ob_status v = StActive \<and>
        ob_current_outpoint v = p"
      using uniq chain_ok_active [OF assms(1), of p k] assms(6,8) by (auto simp: objs act split: if_splits)
  qed
qed

text \<open>Retiring a stored object: its outpoint leaves the index and it has none any more.\<close>

lemma retire_chain_ok:
  assumes "chain_ok X s" and "bt_get (objects s) k = Some st"
    and "ob_status st = StActive \<Longrightarrow> ob_current_outpoint st = p"
    and "bt_get (active s) p = None \<or> bt_get (active s) p = Some k"
    and "object_ok X (binding_of s) (protocol_status s) st'" and "ob_status st' \<noteq> StActive"
    and "ob_object_key st' = k"
  shows "chain_ok X (s\<lparr>active := bt_remove p (active s), objects := bt_insert k st' (objects s)\<rparr>)"
proof -
  have other: "ob_current_outpoint v \<noteq> p"
    if "k' \<noteq> k" "bt_get (objects s) k' = Some v" "ob_status v = StActive" for k' v
    using chain_ok_indexed [OF assms(1) that(2,3)] assms(4) that(1) by auto
  have uniq: "q = p" if "bt_get (active s) q = Some k" for q
    using chain_ok_active [OF assms(1) that] assms(2,3) by auto
  show ?thesis
    using assms other uniq by (auto simp: chain_ok_iff)
qed

text \<open>
  What holds of a carrier of the transaction while its carriers are terminated one after another:
  it is still stored as it was, or it was terminated by this transaction already (when the
  transaction lists the outpoint twice).
\<close>

definition live_carrier :: "chain_state \<Rightarrow> object_state \<Rightarrow> bool" where
  "live_carrier s ob \<longleftrightarrow>
     bt_get (objects s) (ob_object_key ob) = Some ob \<and> ob_status ob = StActive \<and>
     bt_get (active s) (ob_current_outpoint ob) = Some (ob_object_key ob)"

definition retirable :: "hash32 \<Rightarrow> chain_state \<Rightarrow> object_state \<Rightarrow> bool" where
  "retirable t s ob \<longleftrightarrow>
     live_carrier s ob \<or>
     bt_get (objects s) (ob_object_key ob) = Some (terminated_object ob StExitedNoncanonical t) \<and>
     bt_get (active s) (ob_current_outpoint ob) = None"

lemma object_ok_terminated:
  assumes "object_ok X b ps st" and "status \<noteq> StActive" and "ob_state_seq st \<le> seq"
  shows "object_ok X b ps ((terminated_object st status t)\<lparr>ob_state_seq := seq\<rparr>)"
  using assms
  by (auto simp: object_ok_def founded_ok_def terminated_object_def split: protocol_status.splits)

lemma terminate_object_chain_ok:
  assumes "chain_ok X s" and "retirable t' s ob" and "status \<noteq> StActive"
  shows "chain_ok X (terminate_object s ob status t)"
proof -
  obtain st where st: "bt_get (objects s) (ob_object_key ob) = Some st"
    using assms(2) by (auto simp: retirable_def live_carrier_def)
  show ?thesis
    unfolding terminate_object_eq [OF st]
  proof (rule retire_chain_ok [OF assms(1) st])
    show "object_ok X (binding_of s) (protocol_status s) (terminated_object st status t)"
      using object_ok_terminated [OF chain_ok_object [OF assms(1) st] assms(3) order_refl, of t]
      by (simp add: terminated_object_def)
  qed (use assms(2,3) st chain_ok_key [OF assms(1) st] in \<open>auto simp: retirable_def live_carrier_def\<close>)
qed

lemma terminate_object_retirable:
  assumes "retirable t s ob" and "retirable t s v"
  shows "retirable t (terminate_object s ob StExitedNoncanonical t) v"
proof -
  obtain st where st: "bt_get (objects s) (ob_object_key ob) = Some st"
    and st': "terminated_object st StExitedNoncanonical t = terminated_object ob StExitedNoncanonical t"
    using assms(1) by (auto simp: retirable_def live_carrier_def)
  show ?thesis
    using assms unfolding terminate_object_eq [OF st]
    by (cases "ob_object_key v = ob_object_key ob") (auto simp: retirable_def live_carrier_def st')
qed

lemma close_object_chain_ok:
  assumes "chain_ok X s" and "live_carrier s ob" and "ob_state_seq ob \<le> seq"
  shows "chain_ok X (close_object s ob t seq)"
proof -
  have ob: "bt_get (objects s) (ob_object_key ob) = Some ob" using assms(2) by (simp add: live_carrier_def)
  show ?thesis
    unfolding close_object_eq [OF ob] using assms object_ok_terminated [OF chain_ok_object [OF assms(1) ob]]
    by (intro retire_chain_ok [OF assms(1) ob]) (auto simp: live_carrier_def)
qed

section \<open>Preservation by a transaction\<close>

lemma same_frame_terminate_all [simp]: "same_frame s (terminate_all t cs s)"
proof (induction cs arbitrary: s)
  case (Cons c cs)
  then show ?case by (cases c) (auto intro: same_frame_trans [OF same_frame_steps(3)])
qed simp

lemma terminate_all_chain_ok:
  assumes "chain_ok X s" and "\<forall>(j, ob)\<in>set cs. retirable t s ob"
  shows "chain_ok X (terminate_all t cs s)"
  using assms
proof (induction cs arbitrary: s)
  case (Cons c cs)
  obtain j ob where c: "c = (j, ob)" by (cases c)
  have "retirable t s ob" using Cons.prems(2) by (simp add: c)
  then show ?case
    using Cons.prems unfolding c
    by (auto intro!: Cons.IH terminate_object_chain_ok terminate_object_retirable)
qed simp

lemma carrier_live:
  assumes "chain_ok X s" and "(j, ob) \<in> set (carrier_spends s tx)"
  shows "live_carrier s ob" and "retirable t s ob"
  using chain_ok_carrier [OF assms] by (auto simp: retirable_def live_carrier_def)

lemma seq_step: "unat (seq :: u32) = Suc (unat a) \<Longrightarrow> a \<le> seq"
  by (simp add: word_le_nat_alt)

lemma object_ok_marked:
  assumes "object_ok X b ps ob" and "ob_status ob = StActive" and "ob_chapter_count ob \<noteq> u32_MAX"
    and "unat seq = Suc (unat (ob_state_seq ob))"
  shows "object_ok X b ps (marked_object ob tx seq)"
proof -
  have "unat (ob_chapter_count ob) < 4294967295"
    using assms(3) u32_bound [of "ob_chapter_count ob"] by (simp add: word_unat_eq_iff)
  then have "unat (ob_chapter_count ob + 1) = Suc (unat (ob_chapter_count ob))"
    by (simp add: unat_add_fits)
  then have "ob_chapter_count ob + 1 \<le> seq"
    using assms(1,4) by (simp add: object_ok_def word_le_nat_alt)
  then show ?thesis
    using assms by (simp add: object_ok_def marked_object_def founded_ok_def split: protocol_status.splits)
qed

lemma object_ok_rotated:
  assumes "object_ok X b ps ob" and "ob_status ob = StActive"
    and "unat seq = Suc (unat (ob_state_seq ob))" and "checked X (key0 ks) (key1 ks) = Some ks"
  shows "object_ok X b ps (rotated_object ob tx seq ks)"
  using assms seq_step [OF assms(3)]
  by (auto simp: object_ok_def rotated_object_def founded_ok_def split: protocol_status.splits)

lemma process_transaction_chain_ok:
  fixes s' :: chain_state
  assumes "process_transaction X s b tx i = (Ok (s', es) :: ('e, chain_state \<times> event list) res)"
    and "chain_ok X s" and "new_tx X s (tx_txid tx)"
  shows "chain_ok X s'"
  using assms(1)
proof (cases rule: process_transaction_Ok)
  case (exits ei rsn ns)
  then obtain cs where "set cs = set (carrier_spends s tx)" "s' = terminate_all (tx_txid tx) cs s"
    by (auto elim: terminate_carriers_Ok)
  then show ?thesis
    using assms(2) by (auto intro!: terminate_all_chain_ok intro: carrier_live)
next
  case (refund j ob)
  have "retirable (tx_txid tx) s ob"
    using assms(2) by (rule carrier_live(2) [of _ _ j _ tx]) (simp add: refund)
  then show ?thesis
    using assms(2) refund by (auto intro: terminate_object_chain_ok)
next
  case (operation c m carrier op e)
  have stored: "(0, ob) \<in> set (carrier_spends s tx)" if "carrier = Some (0, ob)" for ob
    using operation(3) that by simp
  from operation(4,5) show ?thesis
  proof (cases rule: operation_cases)
    case (create ks ih ho hc)
    then show ?thesis using assms(2,3) by (auto intro: found_object_chain_ok)
  next
    case (mark ob seq c)
    note ob = chain_ok_carrier [OF assms(2) stored [OF mark(1)]]
    show ?thesis
      unfolding mark(9) using ob mark(2,8)
      by (intro advance_object_chain_ok [OF assms(2,3)] object_ok_marked) (auto simp: marked_object_def)
  next
    case (rotate ob seq ks)
    note ob = chain_ok_carrier [OF assms(2) stored [OF rotate(1)]]
    show ?thesis
      unfolding rotate(9) using ob rotate(2,7)
      by (intro advance_object_chain_ok [OF assms(2,3)] object_ok_rotated) (auto simp: rotated_object_def)
  next
    case (close ob seq c)
    note ob = chain_ok_carrier [OF assms(2) stored [OF close(1)]]
    show ?thesis
      unfolding close(5) using assms(2) carrier_live(1) [OF assms(2) stored [OF close(1)]] seq_step [OF close(2)]
      by (rule close_object_chain_ok)
  qed
qed (use assms(2) in auto)

end
