(* ===== verification/Object_Lifecycle.thy ===== *)
theory Object_Lifecycle
  imports Reducer_Invariant
begin

text \<open>
  The life of an object, as a step relation on its stored state, and the refinement that the reducer
  implements it: between two blocks every object that existed has made zero or more steps, and every
  other object that exists was created by a transaction of the block. The relation is what the
  protocol promises of an object: its identity never changes, its state number grows by one per
  operation, and a terminated object makes no step. The second half lifts the transaction lemmas
  to the loop over a block.
\<close>

section \<open>Steps of an object\<close>

inductive obj_step :: "object_state \<Rightarrow> object_state \<Rightarrow> bool" where
  step_mark: "ob_status ob = StActive \<Longrightarrow> unat seq = Suc (unat (ob_state_seq ob)) \<Longrightarrow>
    ob_chapter_count ob \<noteq> u32_MAX \<Longrightarrow> obj_step ob (marked_object ob tx seq)"
| step_rotate: "ob_status ob = StActive \<Longrightarrow> unat seq = Suc (unat (ob_state_seq ob)) \<Longrightarrow>
    ob_keys ob \<noteq> ks \<Longrightarrow> obj_step ob (rotated_object ob tx seq ks)"
| step_close: "ob_status ob = StActive \<Longrightarrow> unat seq = Suc (unat (ob_state_seq ob)) \<Longrightarrow>
    obj_step ob ((terminated_object ob StClosed t)\<lparr>ob_state_seq := seq\<rparr>)"
| step_refund: "ob_status ob = StActive \<Longrightarrow> obj_step ob (terminated_object ob StRefunded t)"
| step_exit: "ob_status ob = StActive \<Longrightarrow> obj_step ob (terminated_object ob StExitedNoncanonical t)"

inductive_cases obj_stepE: "obj_step ob ob'"

definition same_identity :: "object_state \<Rightarrow> object_state \<Rightarrow> bool" where
  "same_identity ob ob' \<longleftrightarrow>
     ob_object_key ob' = ob_object_key ob \<and> ob_genesis ob' = ob_genesis ob \<and>
     ob_founding ob' = ob_founding ob \<and> ob_create_height ob' = ob_create_height ob"

lemma obj_step_facts:
  assumes "obj_step ob ob'"
  shows "ob_status ob = StActive" and "same_identity ob ob'"
    and "unat (ob_state_seq ob) \<le> unat (ob_state_seq ob')"
    and "unat (ob_chapter_count ob) \<le> unat (ob_chapter_count ob')"
    and "ob_status ob' = StActive \<Longrightarrow> unat (ob_state_seq ob') = Suc (unat (ob_state_seq ob))"
proof -
  have incr: "unat (c + 1) = Suc (unat c)" if "c \<noteq> u32_MAX" for c :: u32
    using checked_add_one [of c] that checked_add_Some_iff [of c 1 "c + 1"] by simp
  show "ob_status ob = StActive" "same_identity ob ob'"
    "unat (ob_state_seq ob) \<le> unat (ob_state_seq ob')"
    "unat (ob_chapter_count ob) \<le> unat (ob_chapter_count ob')"
    "ob_status ob' = StActive \<Longrightarrow> unat (ob_state_seq ob') = Suc (unat (ob_state_seq ob))"
    using assms
    by (auto elim!: obj_stepE simp: same_identity_def marked_object_def rotated_object_def
        terminated_object_def incr)
qed

lemma obj_steps_facts:
  assumes "obj_step\<^sup>*\<^sup>* ob ob'"
  shows "same_identity ob ob'" and "unat (ob_state_seq ob) \<le> unat (ob_state_seq ob')"
    and "unat (ob_chapter_count ob) \<le> unat (ob_chapter_count ob')"
    and "ob_status ob \<noteq> StActive \<Longrightarrow> ob' = ob"
proof -
  have "same_identity ob ob' \<and> unat (ob_state_seq ob) \<le> unat (ob_state_seq ob') \<and>
      unat (ob_chapter_count ob) \<le> unat (ob_chapter_count ob') \<and> (ob_status ob \<noteq> StActive \<longrightarrow> ob' = ob)"
    using assms
  proof (induction rule: rtranclp_induct)
    case (step y z)
    with obj_step_facts(1-4) [OF step(2)] show ?case by (auto simp: same_identity_def)
  qed (simp add: same_identity_def)
  then show "same_identity ob ob'" and "unat (ob_state_seq ob) \<le> unat (ob_state_seq ob')"
    and "unat (ob_chapter_count ob) \<le> unat (ob_chapter_count ob')"
    and "ob_status ob \<noteq> StActive \<Longrightarrow> ob' = ob"
    by blast+
qed

section \<open>Steps of a transaction\<close>

lemma terminate_all_objects:
  assumes "\<forall>(j, ob)\<in>set cs. retirable t s ob" and "bt_get (objects s) k = Some ob"
  shows "\<exists>ob'. bt_get (objects (terminate_all t cs s)) k = Some ob' \<and> obj_step\<^sup>*\<^sup>* ob ob'"
  using assms
proof (induction cs arbitrary: s ob)
  case (Cons c cs)
  obtain j v where c: "c = (j, v)" by (cases c)
  let ?s = "terminate_object s v StExitedNoncanonical t"
  have r: "retirable t s v" using Cons.prems(1) by (simp add: c)
  then obtain st where st: "bt_get (objects s) (ob_object_key v) = Some st"
    "st = v \<and> ob_status v = StActive \<or> st = terminated_object v StExitedNoncanonical t"
    by (auto simp: retirable_def live_carrier_def)
  then have "obj_step\<^sup>*\<^sup>* st (terminated_object st StExitedNoncanonical t)"
    by (auto intro: step_exit)
  then obtain ob1 where ob1: "bt_get (objects ?s) k = Some ob1" "obj_step\<^sup>*\<^sup>* ob ob1"
    using Cons.prems(2) st(1)
    by (cases "k = ob_object_key v") (auto simp: terminate_object_eq [OF st(1)])
  have "\<forall>(j, ob)\<in>set cs. retirable t ?s ob"
    using Cons.prems(1) r by (auto simp: c intro: terminate_object_retirable)
  from Cons.IH [OF this ob1(1)] ob1(2) show ?case
    by (auto simp: c intro: rtranclp_trans)
qed auto

lemma terminate_object_new: "bt_get (objects s) k = None \<Longrightarrow> bt_get (objects (terminate_object s ob status t)) k = None"
  by (auto simp: terminate_object_def)

lemma terminate_all_new:
  "bt_get (objects s) k = None \<Longrightarrow> bt_get (objects (terminate_all t cs s)) k = None"
  by (induction cs arbitrary: s) (auto simp: terminate_object_new)

lemma terminate_all_active:
  "bt_get (active (terminate_all t cs s)) p =
     (if p \<in> (\<lambda>c. ob_current_outpoint (snd c)) ` set cs then None else bt_get (active s) p)"
proof (induction cs arbitrary: s)
  case (Cons c cs)
  then show ?case by (cases c) (auto simp: terminate_object_def)
qed simp

lemma process_transaction_objects:
  fixes s' :: chain_state
  assumes "process_transaction X s b tx i = (Ok (s', es) :: ('e, chain_state \<times> event list) res)"
    and "chain_ok X s" and "new_tx X s (tx_txid tx)"
  shows "same_frame s s'"
    and "bt_get (objects s) k = Some ob \<Longrightarrow>
      \<exists>ob'. bt_get (objects s') k = Some ob' \<and> obj_step\<^sup>*\<^sup>* ob ob'"
    and "bt_get (objects s) k = None \<Longrightarrow> bt_get (objects s') k = Some ob' \<Longrightarrow>
      \<exists>ih ho hc ks. protocol_status s = ProtocolActive ih ho hc \<and> ob' = created_object X s b tx ho hc ks"
    and "bt_get (active s') p = Some k \<Longrightarrow> bt_get (active s) p = Some k \<or> p = OutPointRef (tx_txid tx) 1"
proof -
  have "same_frame s s' \<and>
    (\<forall>ob. bt_get (objects s) k = Some ob \<longrightarrow> (\<exists>ob'. bt_get (objects s') k = Some ob' \<and> obj_step\<^sup>*\<^sup>* ob ob')) \<and>
    (bt_get (objects s) k = None \<longrightarrow> bt_get (objects s') k = Some ob' \<longrightarrow>
      (\<exists>ih ho hc ks. protocol_status s = ProtocolActive ih ho hc \<and> ob' = created_object X s b tx ho hc ks)) \<and>
    (bt_get (active s') p = Some k \<longrightarrow> bt_get (active s) p = Some k \<or> p = OutPointRef (tx_txid tx) 1)"
    using assms(1)
  proof (cases rule: process_transaction_Ok)
    case (exits ei rsn ns)
    then obtain cs where cs: "set cs = set (carrier_spends s tx)" "s' = terminate_all (tx_txid tx) cs s"
      by (auto elim: terminate_carriers_Ok)
    have "\<forall>(j, ob)\<in>set cs. retirable (tx_txid tx) s ob"
      using assms(2) cs(1) by (auto intro: carrier_live)
    then show ?thesis
      using terminate_all_objects terminate_all_new [of s k] by (simp add: cs(2) terminate_all_active)
  next
    case (refund j v)
    have "live_carrier s v" using assms(2) by (rule carrier_live(1) [of _ _ j _ tx]) (simp add: refund)
    then show ?thesis
      by (auto simp: refund live_carrier_def terminate_object_eq same_frame_def intro: step_refund)
  next
    case (operation c m carrier op e)
    have live: "live_carrier s v" if "carrier = Some (0, v)" for v
      using operation(3) that by (intro carrier_live(1) [OF assms(2), of 0 _ tx]) simp
    from operation(4,5) show ?thesis
    proof (cases rule: operation_cases)
      case (create ks ih ho hc)
      then show ?thesis
        using assms(3) by (auto simp: found_object_def new_tx_def same_frame_def created_object_def)
    next
      case (mark v seq c)
      then show ?thesis
        using live [OF mark(1)] step_mark [of v seq tx]
        by (auto simp: live_carrier_def advance_object_def same_frame_def marked_object_def)
    next
      case (rotate v seq ks)
      then show ?thesis
        using live [OF rotate(1)] step_rotate [of v seq ks tx]
        by (auto simp: live_carrier_def advance_object_def same_frame_def rotated_object_def)
    next
      case (close v seq c)
      then show ?thesis
        using live [OF close(1)] step_close [of v seq "tx_txid tx"]
        by (auto simp: live_carrier_def close_object_eq same_frame_def)
    qed
  qed auto
  then show "same_frame s s'"
    and "bt_get (objects s) k = Some ob \<Longrightarrow>
      \<exists>ob'. bt_get (objects s') k = Some ob' \<and> obj_step\<^sup>*\<^sup>* ob ob'"
    and "bt_get (objects s) k = None \<Longrightarrow> bt_get (objects s') k = Some ob' \<Longrightarrow>
      \<exists>ih ho hc ks. protocol_status s = ProtocolActive ih ho hc \<and> ob' = created_object X s b tx ho hc ks"
    and "bt_get (active s') p = Some k \<Longrightarrow> bt_get (active s) p = Some k \<or> p = OutPointRef (tx_txid tx) 1"
    by blast+
qed

lemma process_transaction_history:
  fixes s' :: chain_state
  assumes "process_transaction X s b tx i = (Ok (s', es) :: ('e, chain_state \<times> event list) res)"
    and "chain_ok X s" and "new_tx X s (tx_txid tx)" and "history_ok hs s"
  shows "history_ok (tx_txid tx # hs) s'"
  unfolding history_ok_iff
proof (intro conjI allI impI)
  fix p k
  assume "bt_get (active s') p = Some k"
  then show "op_txid p \<in> set (tx_txid tx # hs)"
    using process_transaction_objects(4) [OF assms(1-3)] assms(4) by (fastforce simp: history_ok_iff)
next
  fix k ob'
  assume ob': "bt_get (objects s') k = Some ob'"
  show "op_txid (ob_genesis ob') \<in> set (tx_txid tx # hs)"
  proof (cases "bt_get (objects s) k")
    case None
    then show ?thesis
      using process_transaction_objects(3) [OF assms(1-3) None ob'] by (auto simp: created_object_def)
  next
    case (Some ob)
    then have "ob_genesis ob' = ob_genesis ob"
      using process_transaction_objects(2) [OF assms(1-3) Some] ob' obj_steps_facts(1)
      by (fastforce simp: same_identity_def)
    then show ?thesis using assms(4) Some by (auto simp: history_ok_iff)
  qed
qed

end
