(* ===== verification/Block_Steps.thy ===== *)
theory Block_Steps
  imports Object_Lifecycle
begin

text \<open>
  From transactions to blocks: an induction rule for the loop over a block's transactions, totality
  (no path of \<open>apply_block\<close> panics on a state that satisfies the invariant), and the inversion of
  \<open>apply_block\<close> into its errors and its one successful path.
\<close>

section \<open>Bookkeeping of the history\<close>

lemma history_ok_mono: "history_ok hs s \<Longrightarrow> set hs \<subseteq> set hs' \<Longrightarrow> history_ok hs' s"
  by (auto simp: history_ok_iff)

lemma distinct_keys_ConsD:
  assumes "distinct_keys X b ((t # ts) @ hs)"
  shows "distinct_keys X b (t # hs)" and "distinct_keys X b (ts @ t # hs)"
  using assms by (auto simp: distinct_keys_def)

lemma history_ok_frame:
  "active s' = active s \<Longrightarrow> objects s' = objects s \<Longrightarrow> history_ok hs s' \<longleftrightarrow> history_ok hs s"
  by (simp add: history_ok_def)

section \<open>The loop over the transactions\<close>

lemma block_loop_rule:
  assumes "block_loop X b skip n txs s = (s', Ok es)" and "chain_ok X s" and "history_ok hs s"
    and "distinct_keys X (binding_of s) (map tx_txid txs @ hs)"
    and nil: "\<And>n s. P n [] s s []"
    and init: "\<And>n tx txs s s' es' i. u32_of_usize n = Some i \<Longrightarrow> skip \<Longrightarrow>
      tx_txid tx = init_txid (binding_of s) \<Longrightarrow> chain_ok X s \<Longrightarrow> P (Suc n) txs s s' es' \<Longrightarrow>
      P n (tx # txs) s s' (valid_init_event X s b tx i # es')"
    and step: "\<And>n tx txs s s1 s' es es' i. u32_of_usize n = Some i \<Longrightarrow>
      process_transaction X s b tx i = (Ok (s1, es) :: (reducer_error, chain_state \<times> event list) res) \<Longrightarrow>
      chain_ok X s \<Longrightarrow> new_tx X s (tx_txid tx) \<Longrightarrow> chain_ok X s1 \<Longrightarrow> P (Suc n) txs s1 s' es' \<Longrightarrow>
      P n (tx # txs) s s' (es @ es')"
  shows "P n txs s s' es" and "chain_ok X s'" and "history_ok (map tx_txid txs @ hs) s'"
proof -
  have "P n txs s s' es \<and> chain_ok X s' \<and> history_ok (map tx_txid txs @ hs) s'"
    using assms(1-4)
  proof (induction txs arbitrary: n s hs es)
    case Nil
    then show ?case using nil by simp
  next
    case (Cons tx txs)
    obtain i where i: "u32_of_usize n = Some i"
      using Cons.prems(1) by (cases "u32_of_usize n") auto
    have dk: "distinct_keys X (binding_of s) (tx_txid tx # hs)"
        "distinct_keys X (binding_of s) (map tx_txid txs @ tx_txid tx # hs)"
      using distinct_keys_ConsD [of X "binding_of s" "tx_txid tx"] Cons.prems(4) by auto
    have last: "history_ok (map tx_txid (tx # txs) @ hs) s'"
      if "history_ok (map tx_txid txs @ tx_txid tx # hs) s'"
      using that by (rule history_ok_mono) auto
    show ?case
    proof (cases "skip \<and> tx_txid tx = init_txid (binding_of s)")
      case True
      with Cons.prems(1) i obtain es' where es': "block_loop X b skip (Suc n) txs s = (s', Ok es')"
          "es = valid_init_event X s b tx i # es'"
        by (auto simp: res_simps split: prod.splits)
      have "history_ok (tx_txid tx # hs) s" using Cons.prems(3) by (rule history_ok_mono) auto
      from Cons.IH [OF es'(1) Cons.prems(2) this dk(2)] show ?thesis
        using init [OF i] True Cons.prems(2) last by (simp add: es'(2))
    next
      case False
      with Cons.prems(1) i obtain s1 es1 es' where
          p: "process_transaction X s b tx i = (Ok (s1, es1) :: (reducer_error, chain_state \<times> event list) res)"
          and l: "block_loop X b skip (Suc n) txs s1 = (s', Ok es')" and es: "es = es1 @ es'"
        by (auto simp: res_simps split: prod.splits res.splits if_splits)
      have new: "new_tx X s (tx_txid tx)"
        using Cons.prems(2,3) dk(1) by (rule new_txI)
      have ok: "chain_ok X s1"
        using p Cons.prems(2) new by (rule process_transaction_chain_ok)
      have "history_ok (tx_txid tx # hs) s1"
        using p Cons.prems(2) new Cons.prems(3) by (rule process_transaction_history)
      moreover have "binding_of s1 = binding_of s"
        using process_transaction_objects(1) [OF p Cons.prems(2) new] by (simp add: same_frame_def)
      ultimately show ?thesis
        using Cons.IH [OF l ok] dk(2) step [OF i p Cons.prems(2) new ok] last by (simp add: es)
    qed
  qed
  then show "P n txs s s' es" and "chain_ok X s'" and "history_ok (map tx_txid txs @ hs) s'" by blast+
qed

section \<open>No panics\<close>

lemma apply_valid_operation_total:
  assumes "validate_single X s (bv_height b) tx m carrier = Ok op"
    and "\<And>ob. carrier = Some (0, ob) \<Longrightarrow> ob_chapter_count ob \<le> ob_state_seq ob"
  shows "\<exists>r. apply_valid_operation X s b tx i ei op = Ok r"
proof (cases rule: validate_single_Ok [OF assms(1)])
  case 1
  show ?thesis
    by (rule validate_create_Ok [OF 1(2)]) (simp add: apply_valid_operation_def Let_def)
next
  case 2
  obtain ob seq c where op: "op = VoMark ob seq c" "carrier = Some (0, ob)"
      "unat seq = Suc (unat (ob_state_seq ob))"
    by (rule validate_mark_Ok [OF 2(2)])
  have "unat (ob_chapter_count ob) < 4294967295"
    using assms(2) [OF op(2)] op(3) u32_bound [of seq] by (simp add: word_le_nat_alt)
  then have "ob_chapter_count ob \<noteq> u32_MAX" by auto
  then show ?thesis by (simp add: op apply_valid_operation_def Let_def checked_add_one)
next
  case 3
  show ?thesis
    by (rule validate_rotate_Ok [OF 3(2)]) (simp add: apply_valid_operation_def Let_def)
next
  case 4
  show ?thesis
    by (rule validate_close_Ok [OF 4(2)]) (simp add: apply_valid_operation_def Let_def)
qed

lemma process_transaction_total:
  assumes "chain_ok X s" and "length (inputs tx) \<le> 4294967296"
  shows "\<exists>r. process_transaction X s b tx i = (Ok r :: ('e, chain_state \<times> event list) res)"
proof -
  let ?carrier = "spent_carrier s tx"
  have exits: "\<exists>r. terminate_carriers s b tx i ei rsn ns (carrier_spends s tx) = (Ok r :: ('e, chain_state \<times> event list) res)"
    for ei rsn ns
    using length_carrier_spends [of s tx] assms(2) by (intro terminate_carriers_total) simp
  show ?thesis
  proof (cases rule: dispatch_cases [where tx = tx and bnd = "binding_of s" and s = s])
    case (unmarked j ob)
    then show ?thesis
      using exits validate_refund_no_panic [of X "bv_height b" tx ob]
      by (cases "validate_refund X (bv_height b) tx ob") (auto simp: process_transaction_def Let_def)
  next
    case (marked c)
    have chapters: "ob_chapter_count ob \<le> ob_state_seq ob" if "?carrier = Some (0, ob)" for ob
      using chain_ok_carrier(6) [OF assms(1), of 0 ob tx] that
      by (auto simp: spent_carrier_def object_ok_def split: list.splits)
    obtain script where f: "find_marker_candidate script (mc_vout c) = Some c"
      using marked(1) marker_candidates_found [of c tx "binding_of s"] by auto
    let ?v = "res_bind (map_err me_reason (parse c)) (\<lambda>m. validate_single X s (bv_height b) tx m ?carrier)"
    have "?v \<noteq> Panic"
      using parse_found_no_panic [OF f] parse_found_well_parsed(1) [OF f] validate_single_no_panic by (auto simp: res_simps)
    moreover have "\<exists>r. apply_valid_operation X s b tx i (mc_vout c) op = (Ok r :: ('e, chain_state \<times> event) res)" if "?v = Ok op" for op
    proof -
      from that obtain m where "validate_single X s (bv_height b) tx m ?carrier = Ok op"
        by (auto simp: res_simps)
      then show ?thesis using chapters by (rule apply_valid_operation_total)
    qed
    ultimately show ?thesis
      unfolding process_marked [OF marked] using exits by (cases ?v) auto
  qed (use exits in \<open>simp_all add: process_transaction_def Let_def\<close>)
qed

lemma block_loop_total:
  assumes "chain_ok X s" and "history_ok hs s" and "distinct_keys X (binding_of s) (map tx_txid txs @ hs)"
    and "\<forall>tx\<in>set txs. length (inputs tx) \<le> 4294967296" and "n + length txs \<le> 4294967296"
  shows "\<exists>s' es. block_loop X b skip n txs s = (s', Ok es)"
  using assms
proof (induction txs arbitrary: n s hs)
  case (Cons tx txs)
  define i :: u32 where "i = word_of_int (int n)"
  have i: "u32_of_usize n = Some i" using Cons.prems(5) by (simp add: u32_of_usize_eq i_def)
  have dk: "distinct_keys X (binding_of s) (tx_txid tx # hs)"
      "distinct_keys X (binding_of s) (map tx_txid txs @ tx_txid tx # hs)"
    using distinct_keys_ConsD [of X "binding_of s" "tx_txid tx"] Cons.prems(3) by auto
  have new: "new_tx X s (tx_txid tx)" using Cons.prems(1,2) dk(1) by (rule new_txI)
  have IH: "\<exists>s' es. block_loop X b skip (Suc n) txs t = (s', Ok es)"
    if "chain_ok X t" "history_ok (tx_txid tx # hs) t" "binding_of t = binding_of s" for t
    using Cons.IH [OF that(1,2)] dk(2) that(3) Cons.prems(4,5) by simp
  show ?case
  proof (cases "skip \<and> tx_txid tx = init_txid (binding_of s)")
    case True
    have "history_ok (tx_txid tx # hs) s" using Cons.prems(2) by (rule history_ok_mono) auto
    with True IH [of s] Cons.prems(1) i show ?thesis by auto
  next
    case False
    obtain s1 es1 where
      p: "process_transaction X s b tx i = (Ok (s1, es1) :: (reducer_error, chain_state \<times> event list) res)"
      using process_transaction_total [OF Cons.prems(1), of tx b i] Cons.prems(4)
      by (metis list.set_intros(1) surj_pair)
    have "\<exists>s' es. block_loop X b skip (Suc n) txs s1 = (s', Ok es)"
    proof (rule IH)
      show "chain_ok X s1" using p Cons.prems(1) new by (rule process_transaction_chain_ok)
      show "history_ok (tx_txid tx # hs) s1"
        using p Cons.prems(1) new Cons.prems(2) by (rule process_transaction_history)
      show "binding_of s1 = binding_of s"
        using process_transaction_objects(1) [OF p Cons.prems(1) new] by (simp add: same_frame_def)
    qed
    then show ?thesis using False i p by auto
  qed
qed simp

section \<open>The phases of a block\<close>

lemma chain_ok_inactive:
  assumes "chain_ok X s" and "\<And>ih ho hc. protocol_status s \<noteq> ProtocolActive ih ho hc"
  shows "objects s = bt_new" and "active s = bt_new"
proof -
  have "bt_get (objects s) k = None" for k
    using chain_ok_object [OF assms(1), of k] assms(2)
    by (cases "bt_get (objects s) k") (auto simp: object_ok_def founded_ok_def split: protocol_status.splits)
  then show objs: "objects s = bt_new" by (intro bt.ext_map) (simp add: fun_eq_iff)
  have "bt_get (active s) p = None" for p
    using chain_ok_active [OF assms(1), of p] objs by (cases "bt_get (active s) p") auto
  then show "active s = bt_new" by (intro bt.ext_map) (simp add: fun_eq_iff)
qed

definition activated :: "chain_state \<Rightarrow> block_view \<Rightarrow> init_params \<Rightarrow> chain_state" where
  "activated s b params =
     s\<lparr>protocol_status := ProtocolActive (bv_height b) (ip_h_open params) (ip_h_close params)\<rparr>"

lemma chain_ok_empty:
  "objects s = bt_new \<Longrightarrow> active s = bt_new \<Longrightarrow> phases_ok (protocol_status s) \<Longrightarrow> chain_ok X s"
  by (rule chain_okI) auto

lemma activated_chain_ok:
  assumes "chain_ok X s" and "protocol_status s = AwaitingInit"
    and "validate_configured_init X (binding_of s) (bv_height b) tx = Ok params"
  shows "chain_ok X (activated s b params)"
proof (rule chain_ok_empty)
  have "u64_of_u32 (ip_h_close params) = u64_of_u32 (ip_h_open params) + 4320"
    using validate_configured_init_Ok(1) [OF assms(3)] u32_bound [of "ip_h_open params"]
    by (simp add: word_unat_eq_iff chk_simps unat_add_fits)
  then show "phases_ok (protocol_status (activated s b params))"
    using validate_configured_init_Ok(2) [OF assms(3)] by (simp add: activated_def phases_ok_def)
qed (use chain_ok_inactive [OF assms(1)] assms(2) in \<open>simp_all add: activated_def\<close>)

lemma block_events_Ok:
  assumes "block_events X s b = (s', Ok es)"
  obtains
    (starts) tx params where "protocol_status s = AwaitingInit"
      and "tx \<in> set (transactions b)" and "tx_txid tx = init_txid (binding_of s)"
      and "validate_configured_init X (binding_of s) (bv_height b) tx = Ok params"
      and "block_loop X b True 0 (transactions b) (activated s b params) = (s', Ok es)"
  | (fails) n i tx rsn where "protocol_status s = AwaitingInit"
      and "u32_of_usize n = Some i" and "n < length (transactions b)" and "transactions b ! n = tx"
      and "validate_configured_init X (binding_of s) (bv_height b) tx = Err rsn"
      and "s' = s\<lparr>protocol_status := FailedInit rsn (bv_height b)\<rparr>"
      and "es = [invalid_event X (binding_of s) b tx i rsn True]"
  | (runs) ih ho hc where "protocol_status s = ProtocolActive ih ho hc"
      and "block_loop X b False 0 (transactions b) s = (s', Ok es)"
  | (inert) rsn h where "protocol_status s = FailedInit rsn h" and "s' = s" and "es = []"
proof (cases "protocol_status s")
  case AwaitingInit
  then obtain n i tx where
      f: "find (\<lambda>(_, tx). tx_txid tx = init_txid (binding_of s)) (enumerate_from 0 (transactions b)) = Some (n, tx)"
      and i: "u32_of_usize n = Some i"
    using assms by (auto simp: block_events_def split: option.splits prod.splits)
  have "tx_txid tx = init_txid (binding_of s)" using f by (auto simp: find_Some_iff)
  moreover note n = find_enumerate [OF f]
  ultimately have tx: "tx \<in> set (transactions b)" "tx_txid tx = init_txid (binding_of s)" by auto
  from AwaitingInit f i tx assms show thesis
    by (cases "validate_configured_init X (binding_of s) (bv_height b) tx")
      (auto simp: block_events_def activated_def intro: starts fails [OF _ i n])
qed (use assms in \<open>auto simp: block_events_def intro: runs inert\<close>)

section \<open>Whole blocks\<close>

text \<open>
  The blocks the reducer is run on: the state satisfies the invariant for the transactions seen so
  far, and the transactions of the block are new. \<open>inputs_bounded\<close> is implied by the block
  weight limit of Bitcoin.
\<close>

definition admissible :: "externals \<Rightarrow> hash32 list \<Rightarrow> chain_state \<Rightarrow> block_view \<Rightarrow> bool" where
  "admissible X hs s b \<longleftrightarrow>
     chain_ok X s \<and> history_ok hs s \<and>
     distinct_keys X (binding_of s) (map tx_txid (transactions b) @ hs)"

definition inputs_bounded :: "block_view \<Rightarrow> bool" where
  "inputs_bounded b \<longleftrightarrow> list_all (\<lambda>tx. int (length (inputs tx)) \<le> 4294967296) (transactions b)"

lemma admissibleD:
  assumes "admissible X hs s b"
  shows "chain_ok X s" and "history_ok hs s"
    and "distinct_keys X (binding_of s) (map tx_txid (transactions b) @ hs)"
  using assms by (simp_all add: admissible_def)

lemma admissible_activated:
  assumes "admissible X hs s b" and "protocol_status s = AwaitingInit"
    and "validate_configured_init X (binding_of s) (bv_height b) tx = Ok params"
  shows "admissible X hs (activated s b params) b"
  using activated_chain_ok [OF admissibleD(1) [OF assms(1)] assms(2,3)] assms(1)
  by (simp add: admissible_def activated_def history_ok_def)

lemma finish_block_Ok:
  obtains d where
    "finish_block X before b s es =
       (s\<lparr>tip_height := Some (bv_height b), tip_hash := Some (bv_hash b),
          cs_chained_root := hr_chained_root (bd_roots d)\<rparr>, Ok d)"
    and "bd_before d = before" and "bd_block_hash d = bv_hash b" and "bd_previous_hash d = bv_previous_hash b"
    and "bd_height d = bv_height b" and "bd_events d = es"
    and "event_root X (namespace X (binding_of before)) es = (Ok (hr_event_root (bd_roots d)) :: (reducer_error, hash32) res)"
    and "object_state_root X (namespace X (binding_of before)) (bt_values (objects s)) =
           (Ok (hr_object_state_root (bd_roots d)) :: (reducer_error, hash32) res)"
    and "hr_counters (bd_roots d) = state_counters s"
    and "hr_chained_root (bd_roots d) =
           block_root X (namespace X (binding_of before)) (cs_chained_root s) (bv_hash b) (bv_height b)
             (hr_event_root (bd_roots d)) (hr_object_state_root (bd_roots d)) (state_counters s)"
proof -
  obtain er obr where
    "event_root X (namespace X (binding_of before)) es = (Ok er :: (reducer_error, hash32) res)"
    "object_state_root X (namespace X (binding_of before)) (bt_values (objects s)) = (Ok obr :: (reducer_error, hash32) res)"
    using event_root_total object_state_root_total by metis
  then show thesis by (intro that) (auto simp: finish_block_def Let_def)
qed

lemma apply_block_Ok:
  assumes "apply_block X s b = (s', Ok d)"
  obtains s1 where "validate_linkage s b = Ok ()" and "length (transactions b) \<le> 4294967295"
    and "block_events X s b = (s1, Ok (bd_events d))"
    and "s' = s1\<lparr>tip_height := Some (bv_height b), tip_hash := Some (bv_hash b),
                 cs_chained_root := hr_chained_root (bd_roots d)\<rparr>"
    and "finish_block X s b s1 (bd_events d) = (s', Ok d)"
    and "bd_before d = s" and "bd_block_hash d = bv_hash b" and "bd_height d = bv_height b"
proof -
  obtain s1 es where *: "validate_linkage s b = Ok ()" "length (transactions b) \<le> 4294967295"
      "block_events X s b = (s1, Ok es)" "finish_block X s b s1 es = (s', Ok d)"
    using assms by (auto simp: apply_block_def split: res.splits if_splits prod.splits)
  obtain d' where "finish_block X s b s1 es =
       (s1\<lparr>tip_height := Some (bv_height b), tip_hash := Some (bv_hash b),
          cs_chained_root := hr_chained_root (bd_roots d')\<rparr>, Ok d')"
    "bd_before d' = s" "bd_block_hash d' = bv_hash b" "bd_height d' = bv_height b" "bd_events d' = es"
    by (rule finish_block_Ok)
  then show thesis using * by (intro that) auto
qed

lemma apply_block_linked: "apply_block X s b = (s', Ok d) \<Longrightarrow> validate_linkage s b = Ok ()"
  by (erule apply_block_Ok)

text \<open>Finishing a block changes the tip and the chained root only.\<close>

lemma apply_block_maps:
  assumes "apply_block X s b = (s', Ok d)"
  obtains s1 where "block_events X s b = (s1, Ok (bd_events d))" and "objects s' = objects s1"
    and "active s' = active s1" and "protocol_status s' = protocol_status s1"
    and "binding_of s' = binding_of s1"
  by (rule apply_block_Ok [OF assms]) (rule that, auto)

lemma block_events_chain_ok:
  assumes "admissible X hs s b" and "block_events X s b = (s', Ok es)"
  shows "chain_ok X s'" and "history_ok (map tx_txid (transactions b) @ hs) s'"
    and "binding_of s' = binding_of s"
proof -
  have loop: "chain_ok X s' \<and> history_ok (map tx_txid (transactions b) @ hs) s' \<and> same_frame t s'"
    if t: "admissible X hs t b" "block_loop X b skip 0 (transactions b) t = (s', Ok es)" for skip t
    using block_loop_rule [OF t(2) admissibleD [OF t(1)], of "\<lambda>n txs s s' es. same_frame s s'"]
    by (auto intro: same_frame_trans dest: process_transaction_objects(1))
  have "chain_ok X s' \<and> history_ok (map tx_txid (transactions b) @ hs) s' \<and> binding_of s' = binding_of s"
    using assms(2)
  proof (cases rule: block_events_Ok)
    case (starts tx params)
    then show ?thesis
      using loop [OF admissible_activated [OF assms(1) starts(1,4)] starts(5)]
      by (auto simp: same_frame_def activated_def)
  next
    case (fails n i tx rsn)
    then show ?thesis
      using chain_ok_inactive [OF admissibleD(1) [OF assms(1)]] admissibleD(2) [OF assms(1)]
      by (auto simp: phases_ok_def history_ok_iff intro!: chain_ok_empty)
  next
    case (runs ih ho hc)
    then show ?thesis using loop [OF assms(1) runs(2)] by (auto simp: same_frame_def)
  next
    case (inert rsn h)
    then show ?thesis using assms(1) by (auto simp: admissible_def intro: history_ok_mono)
  qed
  then show "chain_ok X s'" and "history_ok (map tx_txid (transactions b) @ hs) s'"
    and "binding_of s' = binding_of s" by blast+
qed

lemma chain_ok_tip [simp]:
  "chain_ok X (s\<lparr>tip_height := h, tip_hash := t, cs_chained_root := r\<rparr>) \<longleftrightarrow> chain_ok X s"
  "history_ok hs (s\<lparr>tip_height := h, tip_hash := t, cs_chained_root := r\<rparr>) \<longleftrightarrow> history_ok hs s"
  by (simp_all add: chain_ok_def history_ok_def)

lemma apply_block_chain_ok:
  assumes "admissible X hs s b" and "apply_block X s b = (s', Ok d)"
  shows "chain_ok X s'" and "history_ok (map tx_txid (transactions b) @ hs) s'"
    and "binding_of s' = binding_of s"
proof -
  obtain s1 where e: "block_events X s b = (s1, Ok (bd_events d))"
    and s': "s' = s1\<lparr>tip_height := Some (bv_height b), tip_hash := Some (bv_hash b),
                    cs_chained_root := hr_chained_root (bd_roots d)\<rparr>"
    by (rule apply_block_Ok [OF assms(2)])
  show "chain_ok X s'" and "history_ok (map tx_txid (transactions b) @ hs) s'"
    and "binding_of s' = binding_of s"
    using block_events_chain_ok [OF assms(1) e] by (simp_all add: s')
qed

lemma process_transaction_no_Err: "process_transaction X s b tx i \<noteq> Err e"
  by (auto simp: process_transaction_def Let_def terminate_carriers_def terminate_loop_eq res_simps
      apply_valid_operation_def
      split: list.splits res.splits validated_operation.splits protocol_status.splits option.splits)

lemma block_loop_no_Err:
  "n + length txs \<le> 4294967296 \<Longrightarrow> block_loop X b skip n txs s \<noteq> (s', Err e)"
proof (induction txs arbitrary: n s s')
  case (Cons tx txs)
  then have "u32_of_usize n \<noteq> None" by (simp add: u32_of_usize_None_iff)
  moreover have "block_loop X b skip (Suc n) txs t \<noteq> (t', Err e)" for t t' using Cons by simp
  ultimately show ?case
    by (auto simp: process_transaction_no_Err res_simps split: res.splits option.splits prod.splits)
qed simp

lemma block_events_Err:
  assumes "block_events X s b = (s', Err e)" and "length (transactions b) \<le> 4294967295"
  shows "s' = s" and "protocol_status s = AwaitingInit"
proof -
  have no: "block_loop X b skip 0 (transactions b) t \<noteq> (t', Err e)" for skip t t'
    using assms(2) by (intro block_loop_no_Err) simp
  show "protocol_status s = AwaitingInit"
    using assms(1) no by (cases "protocol_status s") (auto simp: block_events_def)
  then show "s' = s"
    using assms(1) no
    by (auto simp: block_events_def split: option.splits prod.splits res.splits)
qed

lemma apply_block_Err:
  assumes "apply_block X s b = (s', Err e)"
  shows "s' = s"
proof -
  have "finish_block X s b t es \<noteq> (s', Err e)" for t es
    by (rule finish_block_Ok [of X s b t es]) auto
  then show ?thesis
    using assms block_events_Err(1) [of X s b]
    by (auto simp: apply_block_def split: res.splits if_splits prod.splits)
qed

lemma block_events_total:
  assumes "admissible X hs s b" and "inputs_bounded b" and "length (transactions b) \<le> 4294967295"
    and "protocol_status s = AwaitingInit \<Longrightarrow> init_txid (binding_of s) \<in> tx_txid ` set (transactions b)"
  shows "\<exists>s' es. block_events X s b = (s', Ok es)"
proof -
  have loop: "\<exists>s' es. block_loop X b skip 0 (transactions b) t = (s', Ok es)" if "admissible X hs t b" for skip t
    using admissibleD [OF that] assms(2,3)
    by (intro block_loop_total) (auto simp: inputs_bounded_def list_all_iff)
  show ?thesis
  proof (cases "protocol_status s")
    case AwaitingInit
    let ?f = "find (\<lambda>(_, tx). tx_txid tx = init_txid (binding_of s)) (enumerate_from 0 (transactions b))"
    obtain tx0 where "tx0 \<in> set (transactions b)" "tx_txid tx0 = init_txid (binding_of s)"
      using assms(4) AwaitingInit by auto
    then have "?f \<noteq> None"
      by (auto simp: find_None_iff set_enumerate_from in_set_conv_nth)
    then obtain n tx where f: "?f = Some (n, tx)" by auto
    have "n < length (transactions b)" using f by (rule find_enumerate)
    then obtain i where i: "u32_of_usize n = Some i" using assms(3) by (simp add: u32_of_usize_eq)
    show ?thesis
      using AwaitingInit f i loop [OF admissible_activated [OF assms(1) AwaitingInit]]
        validate_configured_init_no_panic [of X "binding_of s" "bv_height b" tx]
      by (cases "validate_configured_init X (binding_of s) (bv_height b) tx")
        (auto simp: block_events_def activated_def)
  qed (use loop [OF assms(1)] in \<open>auto simp: block_events_def\<close>)
qed

lemma validate_linkage_no_panic: "validate_linkage s b \<noteq> Panic"
  by (auto simp: validate_linkage_def res_simps split: option.splits)

lemma block_events_absent:
  assumes "protocol_status s = AwaitingInit" and "init_txid (binding_of s) \<notin> tx_txid ` set (transactions b)"
  shows "block_events X s b = (s, Err ConfiguredInitAbsent)"
proof -
  have "find (\<lambda>(_, tx). tx_txid tx = init_txid (binding_of s)) (enumerate_from 0 (transactions b)) = None"
    using assms(2) by (force simp: find_None_iff set_enumerate_from dest: nth_mem)
  then show ?thesis using assms(1) by (simp add: block_events_def)
qed

lemma apply_block_result:
  assumes "admissible X hs s b" and "inputs_bounded b"
  shows "(\<exists>s' d. apply_block X s b = (s', Ok d)) \<longleftrightarrow>
      validate_linkage s b = Ok () \<and> length (transactions b) \<le> 4294967295 \<and>
      (protocol_status s = AwaitingInit \<longrightarrow> init_txid (binding_of s) \<in> tx_txid ` set (transactions b))"
    and "snd (apply_block X s b) \<noteq> Panic"
proof -
  let ?run = "length (transactions b) \<le> 4294967295 \<and>
      (protocol_status s = AwaitingInit \<longrightarrow> init_txid (binding_of s) \<in> tx_txid ` set (transactions b))"
  have ok: "\<exists>s' d. apply_block X s b = (s', Ok d)" if "validate_linkage s b = Ok ()" ?run
  proof -
    obtain s1 es where "block_events X s b = (s1, Ok es)"
      using block_events_total [OF assms] \<open>?run\<close> by blast
    moreover obtain s' d where "finish_block X s b s1 es = (s', Ok d)"
      by (rule finish_block_Ok [of X s b s1 es])
    ultimately show ?thesis using that by (auto simp: apply_block_def)
  qed
  have run: "?run" if applied: "apply_block X s b = (s', Ok d)" for s' d
  proof -
    obtain s1 where "block_events X s b = (s1, Ok (bd_events d))" "length (transactions b) \<le> 4294967295"
      by (rule apply_block_Ok [OF applied])
    then show ?thesis using block_events_absent [of s b X] by auto
  qed
  show "(\<exists>s' d. apply_block X s b = (s', Ok d)) \<longleftrightarrow> validate_linkage s b = Ok () \<and> ?run"
    using ok run apply_block_linked by blast
  show "snd (apply_block X s b) \<noteq> Panic"
  proof (cases "validate_linkage s b = Ok () \<and> ?run")
    case True
    then show ?thesis using ok by fastforce
  next
    case False
    then show ?thesis
      using validate_linkage_no_panic [of s b] block_events_absent [of s b X]
      by (cases "validate_linkage s b") (auto simp: apply_block_def)
  qed
qed

lemma disconnect_apply:
  assumes "apply_block X s b = (s', Ok d)"
  shows "disconnect_block s' d = (s, Ok ())"
  by (rule apply_block_Ok [OF assms]) (simp add: disconnect_block_def)

section \<open>The objects of a block\<close>

definition objects_evolve :: "externals \<Rightarrow> block_view \<Rightarrow> tx_view list \<Rightarrow> chain_state \<Rightarrow> chain_state \<Rightarrow> bool" where
  "objects_evolve X b txs s s' \<longleftrightarrow>
     (\<forall>k ob. bt_get (objects s) k = Some ob \<longrightarrow>
        (\<exists>ob'. bt_get (objects s') k = Some ob' \<and> obj_step\<^sup>*\<^sup>* ob ob')) \<and>
     (\<forall>k ob'. bt_get (objects s) k = None \<longrightarrow> bt_get (objects s') k = Some ob' \<longrightarrow>
        (\<exists>tx\<in>set txs. \<exists>ih ho hc ks. protocol_status s' = ProtocolActive ih ho hc \<and>
           obj_step\<^sup>*\<^sup>* (created_object X s b tx ho hc ks) ob'))"

lemma objects_evolve_step:
  fixes s1 :: chain_state
  assumes "process_transaction X s b tx i = (Ok (s1, es) :: ('e, chain_state \<times> event list) res)"
    and "chain_ok X s" and "new_tx X s (tx_txid tx)"
    and "objects_evolve X b txs s1 s'" and "protocol_status s' = protocol_status s1"
  shows "objects_evolve X b (tx # txs) s s'"
proof -
  note p = process_transaction_objects [OF assms(1-3)]
  have created: "created_object X s1 b t ho hc ks = created_object X s b t ho hc ks" for t ho hc ks
    using p(1) by (simp add: created_object_def same_frame_def)
  show ?thesis
    unfolding objects_evolve_def
  proof (intro conjI allI impI)
    fix k ob
    assume "bt_get (objects s) k = Some ob"
    then obtain ob1 where "bt_get (objects s1) k = Some ob1" "obj_step\<^sup>*\<^sup>* ob ob1" using p(2) by blast
    moreover from this obtain ob' where "bt_get (objects s') k = Some ob'" "obj_step\<^sup>*\<^sup>* ob1 ob'"
      using assms(4) unfolding objects_evolve_def by blast
    ultimately show "\<exists>ob'. bt_get (objects s') k = Some ob' \<and> obj_step\<^sup>*\<^sup>* ob ob'"
      by (blast intro: rtranclp_trans)
  next
    fix k ob'
    assume none: "bt_get (objects s) k = None" and ob': "bt_get (objects s') k = Some ob'"
    show "\<exists>t\<in>set (tx # txs). \<exists>ih ho hc ks. protocol_status s' = ProtocolActive ih ho hc \<and>
        obj_step\<^sup>*\<^sup>* (created_object X s b t ho hc ks) ob'"
    proof (cases "bt_get (objects s1) k")
      case None
      then show ?thesis using assms(4) ob' by (auto simp: objects_evolve_def created)
    next
      case (Some ob1)
      then obtain ih ho hc ks where
          ps: "protocol_status s = ProtocolActive ih ho hc" "ob1 = created_object X s b tx ho hc ks"
        using p(3) [OF none] by blast
      moreover have "obj_step\<^sup>*\<^sup>* ob1 ob'" using assms(4) Some ob' unfolding objects_evolve_def by (metis option.inject)
      moreover have "protocol_status s' = protocol_status s" using p(1) assms(5) by (simp add: same_frame_def)
      ultimately show ?thesis by auto
    qed
  qed
qed

lemma block_loop_objects:
  assumes "block_loop X b skip n txs s = (s', Ok es)" and "chain_ok X s" and "history_ok hs s"
    and "distinct_keys X (binding_of s) (map tx_txid txs @ hs)"
  shows "objects_evolve X b txs s s' \<and> protocol_status s' = protocol_status s"
proof (rule block_loop_rule(1) [OF assms, where P = "\<lambda>n txs s s' es.
    objects_evolve X b txs s s' \<and> protocol_status s' = protocol_status s"], goal_cases)
  case (2 n tx txs s s' es' i)
  then show ?case by (auto simp: objects_evolve_def)
next
  case (3 n tx txs s s1 s' es es' i)
  then show ?case
    using objects_evolve_step [OF 3(2-4)] process_transaction_objects(1) [OF 3(2-4)]
    by (simp add: same_frame_def)
qed (auto simp: objects_evolve_def)

lemma block_events_objects:
  assumes "admissible X hs s b" and "block_events X s b = (s', Ok es)"
  shows "objects_evolve X b (transactions b) s s'"
  using assms(2)
proof (cases rule: block_events_Ok)
  case (starts tx params)
  have "objects_evolve X b (transactions b) (activated s b params) s'"
    using block_loop_objects [OF starts(5) admissibleD [OF admissible_activated [OF assms(1) starts(1,4)]]]
    by blast
  then show ?thesis by (simp add: objects_evolve_def activated_def created_object_def)
next
  case (runs ih ho hc)
  then show ?thesis using block_loop_objects [OF runs(2) admissibleD [OF assms(1)]] by blast
qed (auto simp: objects_evolve_def)

end
