(* ===== verification/Event_Log.thy ===== *)
theory Event_Log
  imports Block_Steps
begin

text \<open>
  The events of a block against the state it produces. \<open>replay_event\<close> is the specification: what
  a reader of the published events, who never sees a transaction, does to its copy of the object
  table. The lemmas show that replaying the events of a block gives exactly the reducer's object
  table, that the events come out in strictly increasing canonical order (so the sort in
  \<open>event_root\<close> changes nothing and no two events share a position), and that every event is
  attributed to the transaction at its index.
\<close>

section \<open>Replaying events\<close>

definition event_keys :: "event \<Rightarrow> key_pair" where
  "event_keys e = \<lparr>key0 = ev_key0 e, key1 = ev_key1 e\<rparr>"

definition replay_create ::
    "event \<Rightarrow> u32 \<Rightarrow> u32 \<Rightarrow> object_state" where
  "replay_create e h_open h_close =
     \<lparr>ob_object_key = ev_object_key e, ob_genesis = ev_successor e,
      ob_founding = (u64_of_u32 h_open \<le> ev_height e \<and> ev_height e < u64_of_u32 h_close),
      ob_status = StActive, ob_create_height = ev_height e, ob_state_seq = ev_state_seq e,
      ob_current_outpoint = ev_successor e, ob_keys = event_keys e,
      ob_terminal_txid = hash32_ZERO, ob_chapter_count = 0\<rparr>"

definition replay_event ::
    "protocol_status \<Rightarrow> event \<Rightarrow> (hash32, object_state) btreemap \<Rightarrow> (hash32, object_state) btreemap" where
  "replay_event ps e m =
     (let k = ev_object_key e in
      case ev_validity_class e of
        InvalidNoState \<Rightarrow> m
      | TerminalNoncanonical \<Rightarrow>
          bt_update k (\<lambda>ob. terminated_object ob StExitedNoncanonical (ev_txid e)) m
      | ValidOperation \<Rightarrow>
          (case ev_event_type e of
             EvCreate \<Rightarrow>
               (case ps of
                  ProtocolActive _ h_open h_close \<Rightarrow> bt_insert k (replay_create e h_open h_close) m
                | _ \<Rightarrow> m)
           | EvMark \<Rightarrow>
               bt_update k (\<lambda>ob. ob\<lparr>ob_current_outpoint := ev_successor e, ob_state_seq := ev_state_seq e,
                                   ob_chapter_count := ob_chapter_count ob + 1\<rparr>) m
           | EvRotate \<Rightarrow>
               bt_update k (\<lambda>ob. ob\<lparr>ob_current_outpoint := ev_successor e, ob_state_seq := ev_state_seq e,
                                   ob_keys := event_keys e\<rparr>) m
           | EvClose \<Rightarrow>
               bt_update k (\<lambda>ob. (terminated_object ob StClosed (ev_txid e))\<lparr>ob_state_seq := ev_state_seq e\<rparr>) m
           | EvRefund \<Rightarrow>
               bt_update k (\<lambda>ob. terminated_object ob StRefunded (ev_txid e)) m
           | _ \<Rightarrow> m))"

lemma key_pair_eta [simp]: "\<lparr>key0 = key0 ks, key1 = key1 ks\<rparr> = ks"
  by simp

lemma replay_exit_events:
  "objects (terminate_all (tx_txid tx) cs s) =
     fold (replay_event ps) (exit_events b tx i ei rsn ns n cs) (objects s)"
proof (induction cs arbitrary: n s)
  case (Cons c cs)
  obtain j ob where c: "c = (j, ob)" by (cases c)
  have "objects (terminate_object s ob StExitedNoncanonical (tx_txid tx)) =
      replay_event ps (exit_event b tx i ei (word_of_int (int n)) rsn ns ob) (objects s)"
    by (simp add: terminate_object_def replay_event_def exit_event_def terminated_object_def)
  with Cons.IH [of "terminate_object s ob StExitedNoncanonical (tx_txid tx)" "Suc n"] show ?case
    by (simp add: c exit_events_def)
qed (simp add: exit_events_def)

lemma process_transaction_replay:
  fixes s' :: chain_state
  assumes "process_transaction X s b tx i = (Ok (s', es) :: ('e, chain_state \<times> event list) res)"
    and "chain_ok X s" and "new_tx X s (tx_txid tx)"
  shows "objects s' = fold (replay_event (protocol_status s)) es (objects s)"
  using assms(1)
proof (cases rule: process_transaction_Ok)
  case (invalid ei et rsn ns)
  then show ?thesis by (simp add: replay_event_def bare_invalid_event_def)
next
  case (exits ei rsn ns)
  then show ?thesis by (auto elim!: terminate_carriers_Ok simp: replay_exit_events)
next
  case (refund j ob)
  then show ?thesis
    by (simp add: replay_event_def valid_refund_event_def valid_event_base_def terminate_object_def
        terminated_object_def)
next
  case (operation c m carrier op e)
  have live: "live_carrier s v" if "carrier = Some (0, v)" for v
    using operation(3) that by (intro carrier_live(1) [OF assms(2), of 0 _ tx]) simp
  from operation(4,5) show ?thesis
  proof (cases rule: operation_cases)
    case (create ks ih ho hc)
    then show ?thesis
      by (simp add: operation(6) replay_event_def valid_event_base_def found_object_def
          created_object_def replay_create_def event_keys_def)
  next
    case (mark ob seq c)
    then show ?thesis
      using live [OF mark(1)]
      by (simp add: operation(6) replay_event_def valid_event_base_def advance_object_def
          marked_object_def bt_update_def live_carrier_def)
  next
    case (rotate ob seq ks)
    then show ?thesis
      using live [OF rotate(1)]
      by (simp add: operation(6) replay_event_def valid_event_base_def advance_object_def
          rotated_object_def bt_update_def live_carrier_def event_keys_def)
  next
    case (close ob seq c)
    then show ?thesis
      using live [OF close(1)]
      by (simp add: operation(6) replay_event_def valid_event_base_def close_object_eq
          bt_update_def live_carrier_def)
  qed
qed simp

lemma replay_init [simp]: "replay_event ps (valid_init_event X s b tx i) m = m"
  by (simp add: replay_event_def valid_init_event_def)

lemma replay_invalid [simp]: "replay_event ps (invalid_event X bnd b tx i rsn flag) m = m"
  by (simp add: replay_event_def invalid_event_def bare_invalid_event_def Let_def)

lemma block_loop_replay:
  assumes "block_loop X b skip n txs s = (s', Ok es)" and "chain_ok X s" and "history_ok hs s"
    and "distinct_keys X (binding_of s) (map tx_txid txs @ hs)"
  shows "objects s' = fold (replay_event (protocol_status s)) es (objects s) \<and>
    protocol_status s' = protocol_status s"
proof (rule block_loop_rule(1) [OF assms, where P = "\<lambda>n txs s s' es.
    objects s' = fold (replay_event (protocol_status s)) es (objects s) \<and>
    protocol_status s' = protocol_status s"])
  fix n tx txs s s1 s' es es' i
  assume p: "process_transaction X s b tx i = (Ok (s1, es) :: (reducer_error, chain_state \<times> event list) res)"
    and ok: "chain_ok X s" "new_tx X s (tx_txid tx)"
    and IH: "objects s' = fold (replay_event (protocol_status s1)) es' (objects s1) \<and>
      protocol_status s' = protocol_status s1"
  show "objects s' = fold (replay_event (protocol_status s)) (es @ es') (objects s) \<and>
      protocol_status s' = protocol_status s"
    using IH process_transaction_replay [OF p ok] process_transaction_objects(1) [OF p ok]
    by (simp add: same_frame_def)
qed simp_all

lemma block_events_replay:
  assumes "admissible X hs s b" and "block_events X s b = (s', Ok es)"
  shows "objects s' = fold (replay_event (protocol_status s')) es (objects s)"
  using assms(2)
proof (cases rule: block_events_Ok)
  case (starts tx params)
  note adm = admissible_activated [OF assms(1) starts(1,4)]
  show ?thesis
    using block_loop_replay [OF starts(5) admissibleD [OF adm]] by (simp add: activated_def)
next
  case (runs ih ho hc)
  show ?thesis using block_loop_replay [OF runs(2) admissibleD [OF assms(1)]] by simp
qed simp_all

section \<open>Order and attribution\<close>

definition attributed :: "block_view \<Rightarrow> tx_view \<Rightarrow> u32 \<Rightarrow> event \<Rightarrow> bool" where
  "attributed b tx i e \<longleftrightarrow>
     ev_block_hash e = bv_hash b \<and> ev_height e = bv_height b \<and> ev_tx_index e = i \<and>
     ev_txid e = tx_txid tx \<and> ev_wtxid e = tx_wtxid tx"

lemma sorted_exit_events:
  assumes "n + length cs \<le> 4294967296"
  shows "sorted_wrt (<) (map event_order (exit_events b tx i ei rsn ns n cs))"
    and "\<forall>e\<in>set (exit_events b tx i ei rsn ns n cs).
      ev_tx_index e = i \<and> ev_event_index e = ei \<and> n \<le> unat (ev_sub_index e)"
proof -
  have "sorted_wrt (<) (map event_order (exit_events b tx i ei rsn ns n cs)) \<and>
    (\<forall>e\<in>set (exit_events b tx i ei rsn ns n cs).
      ev_tx_index e = i \<and> ev_event_index e = ei \<and> n \<le> unat (ev_sub_index e))"
    using assms
  proof (induction cs arbitrary: n)
    case (Cons c cs)
    obtain j ob where c: "c = (j, ob)" by (cases c)
    have n: "unat (word_of_int (int n) :: u32) = n"
      using Cons.prems by (simp add: unat_of_nat take_bit_nat_eq_self_iff)
    have "exit_events b tx i ei rsn ns n (c # cs) =
        exit_event b tx i ei (word_of_int (int n)) rsn ns ob # exit_events b tx i ei rsn ns (Suc n) cs"
      by (simp add: c exit_events_def)
    with Cons.IH [of "Suc n"] Cons.prems n show ?case
      by (auto simp: exit_event_def event_order_def word_less_nat_alt Suc_le_eq)
  qed (simp add: exit_events_def)
  then show "sorted_wrt (<) (map event_order (exit_events b tx i ei rsn ns n cs))"
    and "\<forall>e\<in>set (exit_events b tx i ei rsn ns n cs).
      ev_tx_index e = i \<and> ev_event_index e = ei \<and> n \<le> unat (ev_sub_index e)" by blast+
qed

lemma exit_events_attributed: "e \<in> set (exit_events b tx i ei rsn ns n cs) \<Longrightarrow> attributed b tx i e"
  by (auto simp: exit_events_def attributed_def exit_event_def)

lemma base_attributed [simp]:
  "attributed b tx i (bare_invalid_event b tx i ei et rsn ns)"
  "attributed b tx i (valid_event_base X s b tx i ei et k seq p q ks c)"
  "attributed b tx i (valid_init_event X s b tx i)"
  "attributed b tx i (valid_refund_event X s b tx i ob)"
  "attributed b tx i (invalid_event X bnd b tx i rsn flag)"
  by (simp_all add: attributed_def bare_invalid_event_def valid_event_base_def valid_init_event_def
      valid_refund_event_def invalid_event_def Let_def)

lemma process_transaction_events:
  fixes s' :: chain_state
  assumes "process_transaction X s b tx i = (Ok (s', es) :: ('e, chain_state \<times> event list) res)"
  shows "sorted_wrt (<) (map event_order es)" and "\<forall>e\<in>set es. attributed b tx i e"
proof -
  have "sorted_wrt (<) (map event_order es) \<and> (\<forall>e\<in>set es. attributed b tx i e)"
    using assms
  proof (cases rule: process_transaction_Ok)
    case (exits ei rsn ns)
    then show ?thesis
      using exit_events_attributed sorted_exit_events(1) by (auto elim!: terminate_carriers_Ok)
  next
    case (operation c m carrier op e)
    from operation(4,5) show ?thesis by (cases rule: operation_cases) (simp_all add: operation(6))
  qed simp_all
  then show "sorted_wrt (<) (map event_order es)" and "\<forall>e\<in>set es. attributed b tx i e" by blast+
qed

text \<open>The events of the loop started at index \<open>n\<close>: ordered, and each belongs to a later transaction.\<close>

definition events_from :: "block_view \<Rightarrow> nat \<Rightarrow> tx_view list \<Rightarrow> event list \<Rightarrow> bool" where
  "events_from b n txs es \<longleftrightarrow>
     sorted_wrt (<) (map event_order es) \<and>
     (\<forall>e\<in>set es. \<exists>m<length txs. unat (ev_tx_index e) = n + m \<and> attributed b (txs ! m) (ev_tx_index e) e)"

lemma events_from_Cons:
  assumes "u32_of_usize n = Some i" and "sorted_wrt (<) (map event_order es)"
    and "\<forall>e\<in>set es. attributed b tx i e" and "events_from b (Suc n) txs es'"
  shows "events_from b n (tx # txs) (es @ es')"
proof -
  have i: "unat i = n" using assms(1) by (simp add: u32_of_usize_Some_iff)
  have "event_order e < event_order e'" if "e \<in> set es" "e' \<in> set es'" for e e'
    using that assms(3,4) i
    by (fastforce simp: events_from_def attributed_def event_order_def word_less_nat_alt)
  moreover have "\<exists>m<length (tx # txs). unat (ev_tx_index e) = n + m \<and>
      attributed b ((tx # txs) ! m) (ev_tx_index e) e" if "e \<in> set es" for e
    using that assms(3) i by (intro exI [of _ 0]) (auto simp: attributed_def)
  moreover have "\<exists>m<length (tx # txs). unat (ev_tx_index e) = n + m \<and>
      attributed b ((tx # txs) ! m) (ev_tx_index e) e" if "e \<in> set es'" for e
    using that assms(4) by (fastforce simp: events_from_def)
  ultimately show ?thesis
    using assms(2,4) by (auto simp: events_from_def sorted_wrt_append)
qed

lemma block_loop_events:
  assumes "block_loop X b skip n txs s = (s', Ok es)" and "chain_ok X s" and "history_ok hs s"
    and "distinct_keys X (binding_of s) (map tx_txid txs @ hs)"
  shows "events_from b n txs es"
proof (rule block_loop_rule(1) [OF assms, where P = "\<lambda>n txs s s' es. events_from b n txs es"])
  show "events_from b n (tx # txs) (valid_init_event X s b tx i # es')"
    if "u32_of_usize n = Some i" "events_from b (Suc n) txs es'" for n tx txs s es' i
    using events_from_Cons [OF that(1), of "[valid_init_event X s b tx i]" b tx txs es'] that(2) by simp
  show "events_from b n (tx # txs) (es @ es')"
    if "u32_of_usize n = Some i"
      "process_transaction X s b tx i = (Ok (s1, es) :: (reducer_error, chain_state \<times> event list) res)"
      "events_from b (Suc n) txs es'" for n tx txs s s1 es es' i
    using events_from_Cons [OF that(1) process_transaction_events [OF that(2)] that(3)] .
qed (simp add: events_from_def)

lemma block_events_from:
  assumes "admissible X hs s b" and "block_events X s b = (s', Ok es)"
  shows "events_from b 0 (transactions b) es"
  using assms(2)
proof (cases rule: block_events_Ok)
  case (starts tx params)
  show ?thesis
    using starts(5) admissibleD [OF admissible_activated [OF assms(1) starts(1,4)]] by (rule block_loop_events)
next
  case (fails n i tx rsn)
  let ?e = "invalid_event X (binding_of s) b tx i rsn True"
  have "ev_tx_index ?e = i" "attributed b tx i ?e"
    using base_attributed(5) [of b tx i X "binding_of s" rsn True] by (simp_all add: attributed_def)
  then show ?thesis using fails(2-4) by (auto simp: fails(7) events_from_def u32_of_usize_Some_iff)
next
  case (runs ih ho hc)
  show ?thesis using runs(2) admissibleD [OF assms(1)] by (rule block_loop_events)
qed (simp add: events_from_def)

lemma sort_key_sorted: "sorted_wrt (<) (map f xs) \<Longrightarrow> sort_key f xs = xs"
  by (rule sort_key_id_if_sorted) (auto simp: strict_sorted_iff)

end
