(* ===== verification/Carrier_Safety.thy ===== *)
theory Carrier_Safety
  imports Event_Log
begin

text \<open>
  Every spend of an active carrier is accounted for. The chain's outputs are a function \<open>sp\<close> from
  outpoints to scripts; a resolved transaction is one whose input scripts were looked up there and
  whose outputs are there. Under that contract of the resolver (\<open>crates/tandem-verifier/src/rpc.rs\<close>)
  the stored keys of every active object are the keys its carrier output is locked to, and no
  outpoint a block spends is still active after it.
\<close>

section \<open>Resolved transactions\<close>

definition resolved_tx :: "(outpoint_ref \<Rightarrow> bytes) \<Rightarrow> tx_view \<Rightarrow> bool" where
  "resolved_tx sp tx \<longleftrightarrow>
     list_all (\<lambda>inp. prevout_script inp = sp (prevout inp)) (inputs tx) \<and>
     list_all (\<lambda>(j, out). case u32_of_usize j of None \<Rightarrow> True
                 | Some v \<Rightarrow> sp (OutPointRef (tx_txid tx) v) = script_pubkey out)
       (enumerate_from 0 (outputs tx))"

definition carriers_on_chain :: "externals \<Rightarrow> (outpoint_ref \<Rightarrow> bytes) \<Rightarrow> chain_state \<Rightarrow> bool" where
  "carriers_on_chain X sp s \<longleftrightarrow>
     list_all (\<lambda>(k, ob). ob_status ob = StActive \<longrightarrow>
                 sp (ob_current_outpoint ob) = carrier_script X (ob_keys ob))
       (bt_entries (objects s))"

text \<open>No transaction spends an output of itself or of a later transaction of the block.\<close>

fun topological :: "tx_view list \<Rightarrow> bool" where
  "topological [] \<longleftrightarrow> True"
| "topological (tx # txs) \<longleftrightarrow>
     list_all (\<lambda>inp. op_txid (prevout inp) \<notin> set (map tx_txid (tx # txs))) (inputs tx) \<and> topological txs"

lemma carriers_on_chain_iff:
  "carriers_on_chain X sp s \<longleftrightarrow>
     (\<forall>k ob. bt_get (objects s) k = Some ob \<longrightarrow> ob_status ob = StActive \<longrightarrow>
        sp (ob_current_outpoint ob) = carrier_script X (ob_keys ob))"
  by (auto simp: carriers_on_chain_def list_all_entries_iff)

lemma resolved_tx_input: "resolved_tx sp tx \<Longrightarrow> inp \<in> set (inputs tx) \<Longrightarrow> prevout_script inp = sp (prevout inp)"
  by (simp add: resolved_tx_def list_all_iff)

lemma resolved_tx_output:
  assumes "resolved_tx sp tx" and "1 < length (outputs tx)"
  shows "sp (OutPointRef (tx_txid tx) 1) = script_pubkey (outputs tx ! 1)"
proof -
  have "(1, outputs tx ! 1) \<in> set (enumerate_from 0 (outputs tx))"
    using assms(2) by (force simp: set_enumerate_from)
  then show ?thesis using assms(1) by (auto simp: resolved_tx_def list_all_iff u32_of_usize_eq)
qed

section \<open>One transaction\<close>

lemma carriers_on_chain_terminated:
  assumes "carriers_on_chain X sp s" and "status \<noteq> StActive"
  shows "carriers_on_chain X sp (terminate_object s ob status t)"
  using assms by (auto simp: carriers_on_chain_iff terminate_object_def)

lemma carriers_on_chain_terminate_all:
  "carriers_on_chain X sp s \<Longrightarrow> carriers_on_chain X sp (terminate_all t cs s)"
proof (induction cs arbitrary: s)
  case (Cons c cs)
  obtain j ob where c: "c = (j, ob)" by (cases c)
  show ?case
    unfolding c terminate_all_simps using Cons.prems
    by (intro Cons.IH carriers_on_chain_terminated) simp_all
qed simp

lemma carriers_on_chain_insert:
  assumes "carriers_on_chain X sp s" and "objects s' = bt_insert k ob (objects s)"
    and "ob_status ob = StActive \<Longrightarrow> sp (ob_current_outpoint ob) = carrier_script X (ob_keys ob)"
  shows "carriers_on_chain X sp s'"
  using assms by (auto simp: carriers_on_chain_iff)

lemma process_transaction_carriers:
  fixes s' :: chain_state
  assumes "process_transaction X s b tx i = (Ok (s', es) :: ('e, chain_state \<times> event list) res)"
    and "chain_ok X s" and "carriers_on_chain X sp s" and "resolved_tx sp tx"
  shows "carriers_on_chain X sp s'"
  using assms(1)
proof (cases rule: process_transaction_Ok)
  case (exits ei rsn ns)
  then show ?thesis
    using assms(3) by (auto elim!: terminate_carriers_Ok intro: carriers_on_chain_terminate_all)
next
  case (refund j ob)
  then show ?thesis using assms(3) by (simp add: carriers_on_chain_terminated)
next
  case (operation c m carrier op e)
  note out = resolved_tx_output [OF assms(4)]
  from operation(4,5) show ?thesis
  proof (cases rule: operation_cases)
    case (create ks ih ho hc)
    then show ?thesis
      using out by (intro carriers_on_chain_insert [OF assms(3)]) (auto simp: found_object_def created_object_def)
  next
    case (mark ob seq c)
    then show ?thesis
      using out by (intro carriers_on_chain_insert [OF assms(3)]) (auto simp: advance_object_def marked_object_def)
  next
    case (rotate ob seq ks)
    then show ?thesis
      using out by (intro carriers_on_chain_insert [OF assms(3)]) (auto simp: advance_object_def rotated_object_def)
  next
    case (close ob seq c)
    have "live_carrier s ob"
      using operation(3) close(1) by (intro carrier_live(1) [OF assms(2), of 0 _ tx]) simp
    then have ob: "bt_get (objects s) (ob_object_key ob) = Some ob" by (simp add: live_carrier_def)
    show ?thesis
      unfolding close(5) by (rule carriers_on_chain_insert [OF assms(3)]) (simp add: close_object_eq [OF ob], simp)
  qed
qed (use assms(3) in simp_all)

text \<open>An input that reveals a P2WPKH key does not spend an active carrier: the scripts differ in length.\<close>

lemma p2wpkh_input_not_active:
  assumes "chain_ok X s" and "carriers_on_chain X sp s" and "resolved_tx sp tx"
    and "inp \<in> set (inputs tx)" and "p2wpkh_revealed_key inp \<noteq> None"
  shows "bt_get (active s) (prevout inp) = None"
proof (rule ccontr)
  assume "bt_get (active s) (prevout inp) \<noteq> None"
  then obtain k ob where "bt_get (objects s) k = Some ob" "ob_status ob = StActive"
      "ob_current_outpoint ob = prevout inp"
    using chain_ok_active [OF assms(1)] by blast
  then have "prevout_script inp = carrier_script X (ob_keys ob)"
    using assms(2) resolved_tx_input [OF assms(3,4)] by (metis carriers_on_chain_iff)
  moreover have "length (prevout_script inp) = 22"
    using assms(5) by (auto simp: p2wpkh_revealed_key_def split: if_splits)
  ultimately show False by simp
qed

lemma single_carrier_inputs:
  assumes "chain_ok X s" and "carrier_spends s tx = [(j0, ob)]" and "j < length (inputs tx)"
  shows "prevout (inputs tx ! j) = ob_current_outpoint ob \<or> bt_get (active s) (prevout (inputs tx ! j)) = None"
proof (cases "bt_get (active s) (prevout (inputs tx ! j))")
  case (Some k)
  then obtain v where v: "(j, v) \<in> set (carrier_spends s tx)"
    by (rule active_input_is_carrier [OF assms(1,3)])
  then show ?thesis using chain_ok_carrier(3) [OF assms(1) v] assms(2) by auto
qed simp

lemma process_transaction_spends:
  fixes s' :: chain_state
  assumes "process_transaction X s b tx i = (Ok (s', es) :: ('e, chain_state \<times> event list) res)"
    and "chain_ok X s" and "carriers_on_chain X sp s" and "resolved_tx sp tx"
    and "inp \<in> set (inputs tx)" and "op_txid (prevout inp) \<noteq> tx_txid tx"
  shows "bt_get (active s') (prevout inp) = None"
proof -
  obtain j where j: "j < length (inputs tx)" "inp = inputs tx ! j"
    using assms(5) by (auto simp: in_set_conv_nth)
  have none: "bt_get (active s) (prevout inp) = None" if "carrier_spends s tx = []"
  proof (rule ccontr)
    assume "bt_get (active s) (prevout inp) \<noteq> None"
    then show False using active_input_is_carrier [OF assms(2) j(1)] that by (auto simp: j(2))
  qed
  have other: "prevout inp \<noteq> OutPointRef (tx_txid tx) 1" using assms(6) by auto
  show ?thesis
    using assms(1)
  proof (cases rule: process_transaction_Ok)
    case (exits ei rsn ns)
    then obtain cs where cs: "set cs = set (carrier_spends s tx)" "s' = terminate_all (tx_txid tx) cs s"
      by (auto elim: terminate_carriers_Ok)
    show ?thesis
    proof (cases "bt_get (active s) (prevout inp)")
      case (Some k)
      then obtain ob where "(j, ob) \<in> set cs"
        using active_input_is_carrier [OF assms(2) j(1)] by (auto simp: j(2) cs(1))
      moreover from this have "ob_current_outpoint ob = prevout inp"
        using chain_ok_carrier(3) [OF assms(2)] by (auto simp: j(2) cs(1))
      ultimately show ?thesis by (force simp: cs(2) terminate_all_active)
    qed (simp add: cs(2) terminate_all_active)
  next
    case (refund j0 ob)
    then show ?thesis
      using single_carrier_inputs [OF assms(2) refund(2) j(1)] by (auto simp: j(2) terminate_object_def)
  next
    case (operation c m carrier op e)
    have single: "prevout inp = ob_current_outpoint ob \<or> bt_get (active s) (prevout inp) = None"
      if "carrier = Some (0, ob)" for ob
    proof -
      have "carrier_spends s tx = [(0, ob)]" using operation(3) that by simp
      from single_carrier_inputs [OF assms(2) this j(1)] show ?thesis by (simp add: j(2))
    qed
    from operation(4,5) show ?thesis
    proof (cases rule: operation_cases)
      case (create ks ih ho hc)
      then show ?thesis
        using p2wpkh_input_not_active [OF assms(2-5)] assms(5) other
        by (auto simp: found_object_def created_object_def)
    next
      case (mark ob seq c)
      then show ?thesis
        using single [OF mark(1)] other by (auto simp: advance_object_def marked_object_def)
    next
      case (rotate ob seq ks)
      then show ?thesis
        using single [OF rotate(1)] other by (auto simp: advance_object_def rotated_object_def)
    next
      case (close ob seq c)
      then show ?thesis
        using single [OF close(1)] by (auto simp: close_object_def terminate_object_def)
    qed
  qed (use none in simp_all)
qed

section \<open>One block\<close>

lemma process_transaction_stays_inactive:
  fixes s' :: chain_state
  assumes "process_transaction X s b tx i = (Ok (s', es) :: ('e, chain_state \<times> event list) res)"
    and "chain_ok X s" and "new_tx X s (tx_txid tx)" and "bt_get (active s) p = None"
    and "op_txid p \<noteq> tx_txid tx"
  shows "bt_get (active s') p = None"
proof (cases "bt_get (active s') p")
  case (Some k)
  then show ?thesis using process_transaction_objects(4) [OF assms(1-3) Some] assms(4,5) by auto
qed

lemma block_loop_spends:
  assumes "block_loop X b False n txs s = (s', Ok es)" and "chain_ok X s" and "history_ok hs s"
    and "distinct_keys X (binding_of s) (map tx_txid txs @ hs)"
    and "carriers_on_chain X sp s" and "list_all (resolved_tx sp) txs" and "topological txs"
  shows "carriers_on_chain X sp s'"
    and "tx \<in> set txs \<Longrightarrow> inp \<in> set (inputs tx) \<Longrightarrow> bt_get (active s') (prevout inp) = None"
proof -
  have "carriers_on_chain X sp s \<longrightarrow> list_all (resolved_tx sp) txs \<longrightarrow> topological txs \<longrightarrow>
    carriers_on_chain X sp s' \<and>
    (\<forall>tx\<in>set txs. \<forall>inp\<in>set (inputs tx). bt_get (active s') (prevout inp) = None) \<and>
    (\<forall>p. bt_get (active s) p = None \<longrightarrow> op_txid p \<notin> set (map tx_txid txs) \<longrightarrow> bt_get (active s') p = None)"
  proof (rule block_loop_rule(1) [OF assms(1-4), where P = "\<lambda>n txs s s' es.
      carriers_on_chain X sp s \<longrightarrow> list_all (resolved_tx sp) txs \<longrightarrow> topological txs \<longrightarrow>
      carriers_on_chain X sp s' \<and>
      (\<forall>tx\<in>set txs. \<forall>inp\<in>set (inputs tx). bt_get (active s') (prevout inp) = None) \<and>
      (\<forall>p. bt_get (active s) p = None \<longrightarrow> op_txid p \<notin> set (map tx_txid txs) \<longrightarrow>
         bt_get (active s') p = None)"], goal_cases)
    case (3 n tx txs s s1 s' es es' i)
    note p = 3(2) and ok = 3(3) and new = 3(4) and IH = 3(6)
    show ?case
    proof (intro impI)
      assume sc: "carriers_on_chain X sp s" and rs: "list_all (resolved_tx sp) (tx # txs)"
        and tp: "topological (tx # txs)"
      have spent: "bt_get (active s1) (prevout inp) = None" if "inp \<in> set (inputs tx)" for inp
        using process_transaction_spends [OF p ok sc _ that] rs tp that by (auto simp: list_all_iff)
      have "carriers_on_chain X sp s1"
        using process_transaction_carriers [OF p ok sc] rs by simp
      with IH rs tp have rest: "carriers_on_chain X sp s'"
          "\<forall>tx\<in>set txs. \<forall>inp\<in>set (inputs tx). bt_get (active s') (prevout inp) = None"
          "\<And>q. bt_get (active s1) q = None \<Longrightarrow> op_txid q \<notin> set (map tx_txid txs) \<Longrightarrow>
            bt_get (active s') q = None"
        by auto
      have "bt_get (active s') (prevout inp) = None" if "inp \<in> set (inputs tx)" for inp
        using rest(3) [OF spent [OF that]] tp that by (auto simp: list_all_iff)
      moreover have "bt_get (active s') q = None"
        if "bt_get (active s) q = None" "op_txid q \<notin> set (map tx_txid (tx # txs))" for q
        using rest(3) process_transaction_stays_inactive [OF p ok new that(1)] that(2) by auto
      ultimately show "carriers_on_chain X sp s' \<and>
          (\<forall>tx\<in>set (tx # txs). \<forall>inp\<in>set (inputs tx). bt_get (active s') (prevout inp) = None) \<and>
          (\<forall>q. bt_get (active s) q = None \<longrightarrow> op_txid q \<notin> set (map tx_txid (tx # txs)) \<longrightarrow>
             bt_get (active s') q = None)"
        using rest(1,2) by simp
    qed
  qed simp_all
  then show "carriers_on_chain X sp s'"
    and "tx \<in> set txs \<Longrightarrow> inp \<in> set (inputs tx) \<Longrightarrow> bt_get (active s') (prevout inp) = None"
    using assms(5-7) by blast+
qed

text \<open>
  The block that activates the protocol creates no object: the phases open at least 1,008 blocks
  later.
\<close>

lemma init_block_loop:
  assumes "block_loop X b True n txs s = (s', Ok es)" and "chain_ok X s" and "history_ok hs s"
    and "distinct_keys X (binding_of s) (map tx_txid txs @ hs)"
    and "protocol_status s = ProtocolActive ih ho hc" and "bv_height b < u64_of_u32 ho"
    and "active s = bt_new"
  shows "s' = s"
proof -
  have "protocol_status s = ProtocolActive ih ho hc \<and> active s = bt_new \<longrightarrow> s' = s"
  proof (rule block_loop_rule(1) [OF assms(1-4), where P = "\<lambda>n txs s s' es.
      protocol_status s = ProtocolActive ih ho hc \<and> active s = bt_new \<longrightarrow> s' = s"], goal_cases)
    case (3 n tx txs s s1 s' es es' i)
    have "s1 = s" if st: "protocol_status s = ProtocolActive ih ho hc" "active s = bt_new"
    proof -
      have none: "carrier_spends s tx = []"
        using carrier_spends_iff [of _ _ s tx] st(2) by (cases "carrier_spends s tx") fastforce+
      from 3(2) show ?thesis
      proof (cases rule: process_transaction_Ok)
        case (operation c m carrier op e)
        have "carrier = None" using operation(3) none by (auto split: option.splits)
        with operation(4,5) show ?thesis
          by (cases rule: operation_cases) (use st(1) assms(6) in auto)
      qed (use none in auto)
    qed
    with 3(6) show ?case by auto
  qed simp_all
  then show ?thesis using assms(5,7) by simp
qed

lemma block_events_starts_empty:
  assumes "admissible X hs s b" and "block_events X s b = (s', Ok es)" and "protocol_status s = AwaitingInit"
  shows "objects s' = bt_new" and "active s' = bt_new"
proof -
  note inactive = chain_ok_inactive [OF admissibleD(1) [OF assms(1)]]
  have empty: "objects s = bt_new" "active s = bt_new" using inactive assms(3) by simp_all
  have "objects s' = bt_new \<and> active s' = bt_new"
    using assms(2)
  proof (cases rule: block_events_Ok)
    case (starts tx params)
    have "s' = activated s b params"
    proof (rule init_block_loop [OF starts(5) admissibleD [OF admissible_activated [OF assms(1) starts(1,4)]]])
      show "bv_height b < u64_of_u32 (ip_h_open params)"
        using validate_configured_init_Ok(2) [OF starts(4)] by (simp add: word_less_nat_alt chk_simps)
    qed (simp_all add: activated_def empty)
    then show ?thesis by (simp add: activated_def empty)
  qed (use empty assms(3) in simp_all)
  then show "objects s' = bt_new" and "active s' = bt_new" by simp_all
qed

lemma block_events_spends:
  assumes "admissible X hs s b" and "block_events X s b = (s', Ok es)"
    and "carriers_on_chain X sp s" and "list_all (resolved_tx sp) (transactions b)"
    and "topological (transactions b)"
  shows "carriers_on_chain X sp s'"
    and "tx \<in> set (transactions b) \<Longrightarrow> inp \<in> set (inputs tx) \<Longrightarrow> bt_get (active s') (prevout inp) = None"
proof -
  have "carriers_on_chain X sp s' \<and>
    (\<forall>tx\<in>set (transactions b). \<forall>inp\<in>set (inputs tx). bt_get (active s') (prevout inp) = None)"
  proof (cases "protocol_status s")
    case AwaitingInit
    then show ?thesis
      using block_events_starts_empty [OF assms(1,2)] by (simp add: carriers_on_chain_iff)
  next
    case (ProtocolActive ih ho hc)
    then have "block_loop X b False 0 (transactions b) s = (s', Ok es)"
      using assms(2) by (simp add: block_events_def)
    from block_loop_spends [OF this admissibleD [OF assms(1)] assms(3-5)] show ?thesis by blast
  next
    case (FailedInit rsn h)
    then show ?thesis
      using assms(2,3) chain_ok_inactive [OF admissibleD(1) [OF assms(1)]] by (simp add: block_events_def)
  qed
  then show "carriers_on_chain X sp s'"
    and "tx \<in> set (transactions b) \<Longrightarrow> inp \<in> set (inputs tx) \<Longrightarrow> bt_get (active s') (prevout inp) = None"
    by blast+
qed

section \<open>Objects a block does not spend\<close>

lemma terminate_all_untouched:
  "\<forall>(j, v)\<in>set cs. ob_object_key v \<noteq> k \<Longrightarrow>
     bt_get (objects (terminate_all t cs s)) k = bt_get (objects s) k"
proof (induction cs arbitrary: s)
  case (Cons c cs)
  then show ?case by (cases c) (auto simp: terminate_object_def)
qed simp

lemma process_transaction_untouched:
  fixes s' :: chain_state
  assumes "process_transaction X s b tx i = (Ok (s', es) :: ('e, chain_state \<times> event list) res)"
    and "chain_ok X s" and "new_tx X s (tx_txid tx)" and "bt_get (objects s) k = Some ob"
    and "ob_current_outpoint ob \<notin> prevout ` set (inputs tx) \<or> ob_status ob \<noteq> StActive"
  shows "bt_get (objects s') k = Some ob"
proof -
  have other: "ob_object_key v \<noteq> k" if "(j, v) \<in> set (carrier_spends s tx)" for j v
  proof
    assume "ob_object_key v = k"
    then have "v = ob" using chain_ok_carrier(1) [OF assms(2) that] assms(4) by simp
    then show False
      using chain_ok_carrier(2,3,5) [OF assms(2) that] assms(5) by (auto simp: image_iff)
  qed
  show ?thesis
    using assms(1)
  proof (cases rule: process_transaction_Ok)
    case (exits ei rsn ns)
    then obtain cs where cs: "set cs = set (carrier_spends s tx)" "s' = terminate_all (tx_txid tx) cs s"
      by (auto elim: terminate_carriers_Ok)
    then have "\<forall>(j, v)\<in>set cs. ob_object_key v \<noteq> k" using other by auto
    then show ?thesis using assms(4) by (simp add: cs(2) terminate_all_untouched)
  next
    case (refund j v)
    then show ?thesis using other [of j v] assms(4) by (simp add: terminate_object_def)
  next
    case (operation c m carrier op e)
    have neq: "ob_object_key v \<noteq> k" if "carrier = Some (0, v)" for v
      using other [of 0 v] operation(3) that by simp
    from operation(4,5) show ?thesis
    proof (cases rule: operation_cases)
      case (create ks ih ho hc)
      then show ?thesis
        using assms(3,4) by (auto simp: found_object_def created_object_def new_tx_def)
    next
      case (mark v seq c)
      then show ?thesis
        using neq [OF mark(1)] assms(4) by (simp add: advance_object_def marked_object_def)
    next
      case (rotate v seq ks)
      then show ?thesis
        using neq [OF rotate(1)] assms(4) by (simp add: advance_object_def rotated_object_def)
    next
      case (close v seq c)
      then show ?thesis
        using neq [OF close(1)] assms(4) by (simp add: close_object_def terminate_object_def)
    qed
  qed (use assms(4) in simp_all)
qed

definition spent_outpoints :: "block_view \<Rightarrow> outpoint_ref set" where
  "spent_outpoints b = (\<Union>tx\<in>set (transactions b). prevout ` set (inputs tx))"

lemma block_loop_untouched:
  assumes "block_loop X b skip n txs s = (s', Ok es)" and "chain_ok X s" and "history_ok hs s"
    and "distinct_keys X (binding_of s) (map tx_txid txs @ hs)" and "bt_get (objects s) k = Some ob"
    and "(\<forall>tx\<in>set txs. ob_current_outpoint ob \<notin> prevout ` set (inputs tx)) \<or> ob_status ob \<noteq> StActive"
  shows "bt_get (objects s') k = Some ob"
proof -
  have "bt_get (objects s) k = Some ob \<longrightarrow>
      (\<forall>tx\<in>set txs. ob_current_outpoint ob \<notin> prevout ` set (inputs tx)) \<or> ob_status ob \<noteq> StActive \<longrightarrow>
      bt_get (objects s') k = Some ob"
  proof (rule block_loop_rule(1) [OF assms(1-4), where P = "\<lambda>n txs s s' es.
      bt_get (objects s) k = Some ob \<longrightarrow>
      (\<forall>tx\<in>set txs. ob_current_outpoint ob \<notin> prevout ` set (inputs tx)) \<or> ob_status ob \<noteq> StActive \<longrightarrow>
      bt_get (objects s') k = Some ob"], goal_cases)
    case (3 n tx txs s s1 s' es es' i)
    show ?case
      using process_transaction_untouched [OF 3(2-4), of k ob] 3(6) by auto
  qed simp_all
  then show ?thesis using assms(5,6) by blast
qed

lemma block_events_untouched:
  assumes "admissible X hs s b" and "block_events X s b = (s', Ok es)" and "bt_get (objects s) k = Some ob"
    and "ob_current_outpoint ob \<notin> spent_outpoints b \<or> ob_status ob \<noteq> StActive"
  shows "bt_get (objects s') k = Some ob"
  using assms(2)
proof (cases rule: block_events_Ok)
  case (runs ih ho hc)
  show ?thesis
    using block_loop_untouched [OF runs(2) admissibleD [OF assms(1)] assms(3)] assms(4)
    by (auto simp: spent_outpoints_def)
qed (use assms(3) chain_ok_inactive [OF admissibleD(1) [OF assms(1)]] in simp_all)

end
