(* ===== verification/Journal.thy ===== *)
theory Journal
  imports Tandem_Prelude
begin

text \<open>
  The interface between a state machine and the code that reorganises it: \<open>connect\<close> applies a
  block and returns a journal entry, \<open>disconnect\<close> undoes the newest entry. The one law a provider
  promises is that undoing what was just done restores the state. From it the client gets, for every
  sequence of connections and disconnections, that the state is the one a fresh replay of the
  surviving blocks gives, and that a rollback is never stuck.
\<close>

section \<open>Runs\<close>

fun replay :: "('s \<Rightarrow> 'b \<Rightarrow> ('s \<times> 'd) option) \<Rightarrow> 's \<Rightarrow> 'b list \<Rightarrow> 's option" where
  "replay connect s [] = Some s"
| "replay connect s (b # bs) = (case connect s b of None \<Rightarrow> None | Some (s', _) \<Rightarrow> replay connect s' bs)"

text \<open>The journal is newest first.\<close>

inductive run ::
    "('s \<Rightarrow> 'b \<Rightarrow> ('s \<times> 'd) option) \<Rightarrow> ('s \<Rightarrow> 'd \<Rightarrow> 's option) \<Rightarrow> 's \<Rightarrow> ('b \<times> 'd) list \<Rightarrow> 's \<Rightarrow> bool"
  for connect disconnect s0 where
  run_start: "run connect disconnect s0 [] s0"
| run_connect: "run connect disconnect s0 js s \<Longrightarrow> connect s b = Some (s', d) \<Longrightarrow>
    run connect disconnect s0 ((b, d) # js) s'"
| run_disconnect: "run connect disconnect s0 ((b, d) # js) s \<Longrightarrow> disconnect s d = Some s' \<Longrightarrow>
    run connect disconnect s0 js s'"

lemma replay_append:
  "replay connect s (bs @ bs') =
     (case replay connect s bs of None \<Rightarrow> None | Some s' \<Rightarrow> replay connect s' bs')"
  by (induction bs arbitrary: s) (auto split: option.splits)

lemma replay_snoc:
  "replay connect s bs = Some t \<Longrightarrow> connect t b = Some (t', d) \<Longrightarrow> replay connect s (bs @ [b]) = Some t'"
  by (simp add: replay_append)

text \<open>Every entry of a journal was produced by connecting its block.\<close>

fun journal_of :: "('s \<Rightarrow> 'b \<Rightarrow> ('s \<times> 'd) option) \<Rightarrow> 's \<Rightarrow> ('b \<times> 'd) list \<Rightarrow> 's \<Rightarrow> bool" where
  "journal_of connect s0 [] s \<longleftrightarrow> s = s0"
| "journal_of connect s0 ((b, d) # js) s \<longleftrightarrow> (\<exists>t. journal_of connect s0 js t \<and> connect t b = Some (s, d))"

lemma journal_replay:
  "journal_of connect s0 js s \<Longrightarrow> replay connect s0 (rev (map fst js)) = Some s"
  by (induction connect s0 js s rule: journal_of.induct) (auto intro: replay_snoc)

locale journaled =
  fixes connect :: "'s \<Rightarrow> 'b \<Rightarrow> ('s \<times> 'd) option"
    and disconnect :: "'s \<Rightarrow> 'd \<Rightarrow> 's option"
  assumes disconnect_connect: "connect s b = Some (s', d) \<Longrightarrow> disconnect s' d = Some s"
begin

lemma run_journal: "run connect disconnect s0 js s \<Longrightarrow> journal_of connect s0 js s"
  by (induction rule: run.induct) (auto dest: disconnect_connect)

lemma run_replay: "run connect disconnect s0 js s \<Longrightarrow> replay connect s0 (rev (map fst js)) = Some s"
  by (rule journal_replay [OF run_journal])

text \<open>A rollback is always possible, down to the start.\<close>

lemma run_rollback:
  assumes "run connect disconnect s0 ((b, d) # js) s"
  shows "\<exists>s'. disconnect s d = Some s' \<and> run connect disconnect s0 js s'"
proof -
  obtain t where "connect t b = Some (s, d)" using run_journal [OF assms] by auto
  then have "disconnect s d = Some t" by (rule disconnect_connect)
  with run_disconnect [OF assms this] show ?thesis by blast
qed

end

section \<open>A journal kept in a database\<close>

text \<open>
  The contract of a store that keeps the state and the journal of such a machine in a database:
  \<open>holds js s db\<close> says that \<open>db\<close> stores state \<open>s\<close> with journal \<open>js\<close>. \<open>persist t d db db'\<close>
  is one attempt to store post-state \<open>t\<close> and entry \<open>d\<close>, \<open>undo\<close> one attempt to roll back, and
  \<open>touch\<close> any other write. An attempt may fail or lose its acknowledgement; the law is that it
  happened on the stored state or not at all.
\<close>

inductive commit_step ::
    "('s \<Rightarrow> 'b \<Rightarrow> ('s \<times> 'd) option) \<Rightarrow> ('s \<Rightarrow> 'd \<Rightarrow> 'db \<Rightarrow> 'db \<Rightarrow> bool) \<Rightarrow> ('db \<Rightarrow> 'db \<Rightarrow> bool) \<Rightarrow>
      ('db \<Rightarrow> 'db \<Rightarrow> bool) \<Rightarrow> 'db \<Rightarrow> 'db \<Rightarrow> bool"
  for connect persist undo touch where
  commit_persist: "connect t b = Some (t', d) \<Longrightarrow> persist t' d db db' \<Longrightarrow> commit_step connect persist undo touch db db'"
| commit_undo: "undo db db' \<Longrightarrow> commit_step connect persist undo touch db db'"
| commit_touch: "touch db db' \<Longrightarrow> commit_step connect persist undo touch db db'"

locale durable_journal = journaled connect disconnect
  for connect :: "'s \<Rightarrow> 'b \<Rightarrow> ('s \<times> 'd) option" and disconnect :: "'s \<Rightarrow> 'd \<Rightarrow> 's option" +
  fixes start :: 's
    and holds :: "('b \<times> 'd) list \<Rightarrow> 's \<Rightarrow> 'db \<Rightarrow> bool"
    and persist :: "'s \<Rightarrow> 'd \<Rightarrow> 'db \<Rightarrow> 'db \<Rightarrow> bool"
    and undo :: "'db \<Rightarrow> 'db \<Rightarrow> bool"
    and touch :: "'db \<Rightarrow> 'db \<Rightarrow> bool"
  assumes holds_journal: "holds js s db \<Longrightarrow> journal_of connect start js s"
    and persist_holds: "holds js s db \<Longrightarrow> connect t b = Some (t', d) \<Longrightarrow> persist t' d db db' \<Longrightarrow>
      holds js s db' \<or> t = s \<and> holds ((b, d) # js) t' db'"
    and undo_holds: "holds js s db \<Longrightarrow> undo db db' \<Longrightarrow>
      holds js s db' \<or> (\<exists>b d js' s'. js = (b, d) # js' \<and> disconnect s d = Some s' \<and> holds js' s' db')"
    and touch_holds: "holds js s db \<Longrightarrow> touch db db' \<Longrightarrow> holds js s db'"
begin

text \<open>One commit, by whatever writer, is at most one step of the abstract machine.\<close>

lemma commit_holds:
  assumes "commit_step connect persist undo touch db db'" and "holds js s db"
  obtains (kept) "holds js s db'"
  | (pushed) b d s' where "connect s b = Some (s', d)" and "holds ((b, d) # js) s' db'"
  | (popped) b d js' s' where "js = (b, d) # js'" and "disconnect s d = Some s'" and "holds js' s' db'"
  using assms(1)
proof cases
  case (commit_persist t b t' d)
  with persist_holds [OF assms(2)] show thesis using kept pushed by blast
next
  case commit_undo
  with undo_holds [OF assms(2)] show thesis using kept popped by blast
next
  case commit_touch
  with touch_holds [OF assms(2)] show thesis using kept by blast
qed

text \<open>Any number of writers, in any order, from stale states or not, run the abstract machine.\<close>

lemma commits_run:
  assumes "(commit_step connect persist undo touch)\<^sup>*\<^sup>* db db'" and "holds js s db"
    and "run connect disconnect start js s"
  shows "\<exists>js' s'. holds js' s' db' \<and> run connect disconnect start js' s'"
  using assms(1)
proof induction
  case base
  then show ?case using assms(2,3) by blast
next
  case (step y z)
  then obtain js' s' where "holds js' s' y" and r: "run connect disconnect start js' s'" by blast
  with step.hyps(2) show ?case
    by (cases rule: commit_holds) (use r in \<open>blast intro: run_connect run_disconnect\<close>)+
qed

lemma commits_holds:
  assumes "(commit_step connect persist undo touch)\<^sup>*\<^sup>* db db'" and "holds js s db"
  shows "\<exists>js' s'. holds js' s' db'"
  using assms(1)
proof induction
  case (step y z)
  then obtain js' s' where "holds js' s' y" by blast
  with step.hyps(2) show ?case by (cases rule: commit_holds) blast+
qed (use assms(2) in blast)

lemma commits_replay:
  assumes "(commit_step connect persist undo touch)\<^sup>*\<^sup>* db db'" and "holds [] start db"
  shows "\<exists>js s. holds js s db' \<and> replay connect start (rev (map fst js)) = Some s"
  using commits_run [OF assms run_start] run_replay by blast

end

end
