(* ===== verification/Chain_Runs.thy ===== *)
theory Chain_Runs
  imports Carrier_Safety Journal
begin

text \<open>
  Sequences of blocks. \<open>connect_block\<close> and \<open>undo_block\<close> are \<open>apply_block\<close> and
  \<open>disconnect_block\<close> as the operations of a journaled state machine; the interpretation discharges
  the law of the interface for the reducer, and its facts are lifted to every state a node can reach
  through any mixture of connections and disconnections.
\<close>

definition connect_block :: "externals \<Rightarrow> chain_state \<Rightarrow> block_view \<Rightarrow> (chain_state \<times> block_delta) option" where
  "connect_block X s b = (case apply_block X s b of (s', Ok d) \<Rightarrow> Some (s', d) | _ \<Rightarrow> None)"

definition undo_block :: "chain_state \<Rightarrow> block_delta \<Rightarrow> chain_state option" where
  "undo_block s d = (case disconnect_block s d of (s', Ok _) \<Rightarrow> Some s' | _ \<Rightarrow> None)"

lemma connect_block_iff: "connect_block X s b = Some (s', d) \<longleftrightarrow> apply_block X s b = (s', Ok d)"
  by (auto simp: connect_block_def split: prod.splits res.splits)

interpretation reducer: journaled "connect_block X" undo_block for X
  by unfold_locales (auto simp: connect_block_iff undo_block_def disconnect_apply)

definition block_txids :: "block_view list \<Rightarrow> hash32 list" where
  "block_txids bs = concat (map (\<lambda>b. map tx_txid (transactions b)) (rev bs))"

lemma chain_state_new_ok [simp]:
  "chain_ok X (chain_state_new X bnd)" "history_ok hs (chain_state_new X bnd)"
  "binding_of (chain_state_new X bnd) = bnd"
  by (simp_all add: chain_state_new_def chain_ok_empty phases_ok_def history_ok_iff)

lemma replay_chain_ok:
  assumes "replay (connect_block X) s bs = Some s'" and "chain_ok X s" and "history_ok hs s"
    and "distinct_keys X (binding_of s) (block_txids bs @ hs)"
  shows "chain_ok X s' \<and> history_ok (block_txids bs @ hs) s' \<and> binding_of s' = binding_of s"
  using assms
proof (induction bs arbitrary: s hs)
  case (Cons b bs)
  obtain t d where t: "apply_block X s b = (t, Ok d)" "replay (connect_block X) t bs = Some s'"
    using Cons.prems(1) by (auto simp: connect_block_iff split: option.splits)
  let ?hs = "map tx_txid (transactions b) @ hs"
  have txids: "block_txids (b # bs) @ hs = block_txids bs @ ?hs" by (simp add: block_txids_def)
  have adm: "admissible X hs s b"
    using Cons.prems(2-4) unfolding txids by (simp add: admissible_def distinct_keys_def)
  show ?case
    unfolding txids
    using Cons.IH [OF t(2), of ?hs] apply_block_chain_ok [OF adm t(1)] Cons.prems(4)
    by (simp add: txids)
qed (simp add: block_txids_def)

text \<open>
  Distinct transaction ids give distinct object keys unless SHA-256 collides on the preimages.
\<close>

lemma distinct_keysI:
  assumes "distinct ts" and "inj_on (sha256_digest X) (object_key_preimage (namespace X b) ` set ts)"
  shows "distinct_keys X b ts"
proof -
  have "t = t'"
    if "t \<in> set ts" "t' \<in> set ts" "object_key X (namespace X b) t = object_key X (namespace X b) t'" for t t'
    using inj_onD [OF assms(2), of "object_key_preimage (namespace X b) t" "object_key_preimage (namespace X b) t'"]
      that by (auto simp: object_key_def hash32_sha256_def)
  then show ?thesis using assms(1) by (auto simp: distinct_keys_def distinct_map intro: inj_onI)
qed

end
