(* ===== verification/Fixtures.thy ===== *)
theory Fixtures
  imports Chain_Runs
begin

text \<open>
  The fixtures of the test module of \<open>crates/tandem-core/src/reducer.rs\<close>: transactions and blocks
  of a deployment as functions of the binding and of the owners' keys, over any implementation of
  the external crates.
\<close>

section \<open>Deployment and keys\<close>

text \<open>\<open>Hash32([byte; 32])\<close>\<close>

definition filled :: "u8 \<Rightarrow> hash32" where
  "filled b = array_of (replicate 32 b)"

definition binding_fixture :: binding where
  "binding_fixture = \<lparr>bnd_network = Regtest, init_txid = filled 1, spec_hash = filled 2\<rparr>"

definition key_pair_fixture :: "externals \<Rightarrow> key_pair option" where
  "key_pair_fixture X =
     (case key33_from_hex X ''0279be667ef9dcbbac55a06295ce870b07029bfcdb2dce28d959f2815b16f81798'' of
        Ok k0 \<Rightarrow>
          (case key33_from_hex X ''02c6047f9441ed7d6d3045406e95c07cd85c778e4b8cef3ca7abac09b95c709ee5'' of
             Ok k1 \<Rightarrow> checked X k0 k1
           | _ \<Rightarrow> None)
      | _ \<Rightarrow> None)"

section \<open>Inputs and scripts\<close>

text \<open>The payloads of the fixtures have at most 80 bytes, so the encoder does not panic.\<close>

definition script_of :: "bytes \<Rightarrow> bytes" where
  "script_of payload = (case (marker_script payload :: (unit, bytes) res) of Ok s \<Rightarrow> s | _ \<Rightarrow> [])"

definition p2wpkh_input :: "externals \<Rightarrow> key33 \<Rightarrow> u8 \<Rightarrow> u64 \<Rightarrow> u64 \<Rightarrow> u32 \<Rightarrow> input_view" where
  "p2wpkh_input X key txid_byte height amount seq =
     \<lparr>prevout = OutPointRef (filled txid_byte) 0, sequence = seq, script_sig = [],
      witness = [[0x30, 0x01], bytes_of key], prevout_value = amount,
      prevout_script = p2wpkh_script X key, prevout_height = Some height,
      signatures_valid = True\<rparr>"

definition carrier_input :: "externals \<Rightarrow> key_pair \<Rightarrow> outpoint_ref \<Rightarrow> u64 \<Rightarrow> u32 \<Rightarrow> input_view" where
  "carrier_input X ks p height seq =
     \<lparr>prevout = p, sequence = seq, script_sig = [],
      witness = [[], [0x30, 0x01], [0x30, 0x01], witness_script ks], prevout_value = CARRIER_VALUE,
      prevout_script = carrier_script X ks, prevout_height = Some height,
      signatures_valid = True\<rparr>"

definition height_hash :: "u64 \<Rightarrow> hash32" where
  "height_hash h = array_of (to_le_bytes h)"

section \<open>Transactions\<close>

definition init_transaction :: "externals \<Rightarrow> binding \<Rightarrow> key33 \<Rightarrow> tx_view" where
  "init_transaction X b key =
     \<lparr>tx_txid = init_txid b, tx_wtxid = filled 9, tx_version = 2, lock_time = 0,
      inputs = [p2wpkh_input X key 8 99 2000 u32_MAX],
      outputs =
        [\<lparr>out_value = 0,
          script_pubkey = script_of (MAGIC @ [VERSION, network_code Regtest, 0] @ to_le_bytes (1108 :: u32)
            @ to_le_bytes (5428 :: u32) @ to_le_bytes CARRIER_VALUE @ to_le_bytes REFUND_DELAY @ bytes_of (spec_hash b))\<rparr>,
         \<lparr>out_value = 1000, script_pubkey = p2wpkh_script X key\<rparr>]\<rparr>"

definition create_transaction :: "externals \<Rightarrow> binding \<Rightarrow> key_pair \<Rightarrow> tx_view" where
  "create_transaction X b ks =
     \<lparr>tx_txid = filled 20, tx_wtxid = filled 21, tx_version = 2, lock_time = 0,
      inputs =
        [p2wpkh_input X (key0 ks) 12 1000 20000 RBF_SEQUENCE,
         p2wpkh_input X (key1 ks) 13 1000 20000 RBF_SEQUENCE],
      outputs =
        [\<lparr>out_value = 0,
          script_pubkey = script_of (MAGIC @ [VERSION, network_code Regtest, 1, 1] @ bytes_of (namespace X b))\<rparr>,
         \<lparr>out_value = CARRIER_VALUE, script_pubkey = carrier_script X ks\<rparr>,
         \<lparr>out_value = 8485, script_pubkey = p2wpkh_script X (key0 ks)\<rparr>,
         \<lparr>out_value = 8485, script_pubkey = p2wpkh_script X (key1 ks)\<rparr>]\<rparr>"

definition mark_transaction ::
    "externals \<Rightarrow> binding \<Rightarrow> key_pair \<Rightarrow> outpoint_ref \<Rightarrow> u64 \<Rightarrow> u8 \<Rightarrow> u32 \<Rightarrow> hash32 \<Rightarrow> tx_view" where
  "mark_transaction X b ks p height txid_byte seq commitment =
     \<lparr>tx_txid = filled txid_byte, tx_wtxid = filled (txid_byte + 1), tx_version = 2, lock_time = 0,
      inputs =
        [carrier_input X ks p height RBF_SEQUENCE,
         p2wpkh_input X (key0 ks) (txid_byte + 20) 1000 5000 RBF_SEQUENCE],
      outputs =
        [\<lparr>out_value = 0,
          script_pubkey = script_of (MAGIC @ [VERSION, network_code Regtest, 2, 1] @ bytes_of (namespace X b)
            @ to_le_bytes seq @ [0, 0] @ bytes_of commitment)\<rparr>,
         \<lparr>out_value = CARRIER_VALUE, script_pubkey = carrier_script X ks\<rparr>,
         \<lparr>out_value = 4000, script_pubkey = p2wpkh_script X (key0 ks)\<rparr>]\<rparr>"

definition close_transaction :: "externals \<Rightarrow> binding \<Rightarrow> key_pair \<Rightarrow> outpoint_ref \<Rightarrow> tx_view" where
  "close_transaction X b ks p =
     \<lparr>tx_txid = filled 40, tx_wtxid = filled 41, tx_version = 2, lock_time = 0,
      inputs = [carrier_input X ks p 1109 RBF_SEQUENCE],
      outputs =
        [\<lparr>out_value = 0,
          script_pubkey = script_of (MAGIC @ [VERSION, network_code Regtest, 4, 0xff] @ bytes_of (namespace X b)
            @ to_le_bytes (2 :: u32) @ [0, 0, 0, 0] @ replicate 32 44)\<rparr>,
         \<lparr>out_value = 9500, script_pubkey = p2wpkh_script X (key0 ks)\<rparr>,
         \<lparr>out_value = 9500, script_pubkey = p2wpkh_script X (key1 ks)\<rparr>]\<rparr>"

definition refund_transaction :: "externals \<Rightarrow> key_pair \<Rightarrow> outpoint_ref \<Rightarrow> u64 \<Rightarrow> tx_view" where
  "refund_transaction X ks p height =
     \<lparr>tx_txid = filled 50, tx_wtxid = filled 51, tx_version = 2, lock_time = 0,
      inputs = [carrier_input X ks p height REFUND_DELAY],
      outputs =
        [\<lparr>out_value = 9830, script_pubkey = p2wpkh_script X (key0 ks)\<rparr>,
         \<lparr>out_value = 9830, script_pubkey = p2wpkh_script X (key1 ks)\<rparr>]\<rparr>"

text \<open>A block of the test chain.\<close>

definition chain_block :: "u64 \<Rightarrow> tx_view list \<Rightarrow> block_view" where
  "chain_block h txs =
     \<lparr>bv_hash = height_hash h, bv_previous_hash = height_hash (h - 1), bv_height = h, transactions = txs\<rparr>"

section \<open>The tests\<close>

definition state_fails_closed_without_configured_init :: "externals \<Rightarrow> bool" where
  "state_fails_closed_without_configured_init X =
     (case apply_block X (chain_state_new X binding_fixture)
             \<lparr>bv_hash = filled 3, bv_previous_hash = hash32_ZERO, bv_height = 100, transactions = []\<rparr> of
        (s, Err e) \<Rightarrow> e = ConfiguredInitAbsent \<and> protocol_status s = AwaitingInit
      | _ \<Rightarrow> False)"

definition unknown_transactions_do_not_emit_events :: "externals \<Rightarrow> bool" where
  "unknown_transactions_do_not_emit_events X =
     (let s = (chain_state_new X binding_fixture)\<lparr>protocol_status := ProtocolActive 1 1009 5329,
            tip_height := Some 1, tip_hash := Some (filled 4)\<rparr>;
          b = \<lparr>bv_hash = filled 5, bv_previous_hash = filled 4, bv_height = 2,
            transactions = [\<lparr>tx_txid = filled 6, tx_wtxid = filled 6, tx_version = 2, lock_time = 0, inputs = [],
              outputs = [\<lparr>out_value = 0, script_pubkey = [0x6a, 0x01, 0x00]\<rparr>]\<rparr>]\<rparr>
      in case connect_block X s b of
           None \<Rightarrow> False
         | Some (s', delta) \<Rightarrow>
             bd_events delta = [] \<and>
             (case undo_block s' delta of None \<Rightarrow> False | Some s'' \<Rightarrow> tip_height s'' = Some 1))"

text \<open>The loop over empty blocks, \<open>n\<close> of them from height \<open>h\<close>.\<close>

fun empty_blocks :: "externals \<Rightarrow> nat \<Rightarrow> u64 \<Rightarrow> chain_state \<Rightarrow> chain_state option" where
  "empty_blocks X 0 h s = Some s"
| "empty_blocks X (Suc n) h s =
     (case connect_block X s (chain_block h []) of
        None \<Rightarrow> None
      | Some (s', delta) \<Rightarrow> if bd_events delta = [] then empty_blocks X n (h + 1) s' else None)"

definition first_event :: "(event \<Rightarrow> bool) \<Rightarrow> block_delta \<Rightarrow> bool" where
  "first_event P delta = (case bd_events delta of [] \<Rightarrow> False | e # _ \<Rightarrow> P e)"

text \<open>The last part of the life cycle: CLOSE, and everything back to the block before CREATE.\<close>

definition close_and_reverse ::
    "externals \<Rightarrow> binding \<Rightarrow> key_pair \<Rightarrow> outpoint_ref \<Rightarrow> block_delta \<Rightarrow> block_delta \<Rightarrow> chain_state \<Rightarrow> bool" where
  "close_and_reverse X b ks marked create_delta mark_delta s =
     (case connect_block X s (chain_block 1110 [close_transaction X b ks marked]) of
        None \<Rightarrow> False
      | Some (s1, close_delta) \<Rightarrow>
          first_event (\<lambda>e. ev_event_type e = EvClose) close_delta \<and>
          active_objects (state_counters s1) = 0 \<and>
          (case bt_values (objects s1) of [] \<Rightarrow> False | ob # _ \<Rightarrow> ob_status ob = StClosed) \<and>
          (case undo_block s1 close_delta of
             None \<Rightarrow> False
           | Some s2 \<Rightarrow>
               (case undo_block s2 mark_delta of
                  None \<Rightarrow> False
                | Some s3 \<Rightarrow>
                    (case undo_block s3 create_delta of
                       None \<Rightarrow> False
                     | Some s4 \<Rightarrow> bt_values (objects s4) = [] \<and> tip_height s4 = Some 1107))))"

text \<open>After the MARK: the refund, and the rejected second MARK with its rollback.\<close>

definition refund_and_bad_mark ::
    "externals \<Rightarrow> binding \<Rightarrow> key_pair \<Rightarrow> block_delta \<Rightarrow> block_delta \<Rightarrow> chain_state \<Rightarrow> bool" where
  "refund_and_bad_mark X b ks create_delta mark_delta s =
     (case bt_values (objects s) of
        [] \<Rightarrow> False
      | object # _ \<Rightarrow>
          let marked = ob_current_outpoint object; refund = refund_transaction X ks marked 1109 in
          ob_state_seq object = 1 \<and> ob_chapter_count object = 1 \<and>
          validate_refund X 53669 refund object = Ok () \<and>
          validate_refund X 53668 refund object = Err BadRefundShapeOrMaturity \<and>
          (case connect_block X s (chain_block 1110 [mark_transaction X b ks marked 1109 32 2 hash32_ZERO]) of
             None \<Rightarrow> False
           | Some (s1, bad_delta) \<Rightarrow>
               first_event (\<lambda>e. ev_reason e = BadCommitment \<and> ev_validity_class e = TerminalNoncanonical) bad_delta \<and>
               (case undo_block s1 bad_delta of
                  None \<Rightarrow> False
                | Some s2 \<Rightarrow> close_and_reverse X b ks marked create_delta mark_delta s2)))"

definition full_lifecycle :: "externals \<Rightarrow> binding \<Rightarrow> key_pair \<Rightarrow> bool" where
  "full_lifecycle X b ks =
     (case connect_block X (chain_state_new X b) (chain_block 100 [init_transaction X b (key0 ks)]) of
        None \<Rightarrow> False
      | Some (s1, init_delta) \<Rightarrow>
          first_event (\<lambda>e. ev_event_type e = EvInit) init_delta \<and>
          (case empty_blocks X 1007 101 s1 of
             None \<Rightarrow> False
           | Some s2 \<Rightarrow>
               (case connect_block X s2 (chain_block 1108 [create_transaction X b ks]) of
                  None \<Rightarrow> False
                | Some (s3, create_delta) \<Rightarrow>
                    first_event (\<lambda>e. ev_event_type e = EvCreate) create_delta \<and>
                    founding_created (state_counters s3) = 1 \<and>
                    (case connect_block X s3 (chain_block 1109
                            [mark_transaction X b ks (OutPointRef (filled 20) 1) 1108 30 1 (filled 42)]) of
                       None \<Rightarrow> False
                     | Some (s4, mark_delta) \<Rightarrow>
                         first_event (\<lambda>e. ev_event_type e = EvMark) mark_delta \<and>
                         refund_and_bad_mark X b ks create_delta mark_delta s4))))"

definition full_lifecycle_reduces_terminates_and_reverses :: "externals \<Rightarrow> bool" where
  "full_lifecycle_reduces_terminates_and_reverses X =
     (case key_pair_fixture X of None \<Rightarrow> False | Some ks \<Rightarrow> full_lifecycle X binding_fixture ks)"

end
