(* ===== verification/Concrete_Chain.thy ===== *)
theory Concrete_Chain
  imports Fixtures
begin

text \<open>
  A concrete deployment on which the properties are exercised: the fixtures of the test module of
  \<open>crates/tandem-core/src/reducer.rs\<close> (binding, key pair, INIT, CREATE, MARK, CLOSE and refund
  transactions and their blocks), with the external crates instantiated by small total functions.
  The digests keep the last bytes of their input, which is enough for every digest of these blocks
  to be told apart; hexadecimal text is the usual one, so the laws of the \<open>hex\<close> crate hold.
\<close>

section \<open>Hexadecimal text\<close>

definition hex_digit :: "nat \<Rightarrow> char" where
  "hex_digit n = ''0123456789abcdef'' ! n"

definition hex_value :: "char \<Rightarrow> nat option" where
  "hex_value c =
     (let k = (of_char c :: nat) in
      if 48 \<le> k \<and> k \<le> 57 then Some (k - 48)
      else if 97 \<le> k \<and> k \<le> 102 then Some (k - 87)
      else if 65 \<le> k \<and> k \<le> 70 then Some (k - 55)
      else None)"

fun hex_text :: "bytes \<Rightarrow> string" where
  "hex_text [] = []"
| "hex_text (b # bs) = hex_digit (unat b div 16) # hex_digit (unat b mod 16) # hex_text bs"

fun hex_parse :: "string \<Rightarrow> bytes option" where
  "hex_parse [] = Some []"
| "hex_parse [c] = None"
| "hex_parse (c # c' # cs) =
     (case (hex_value c, hex_value c', hex_parse cs) of
        (Some h, Some l, Some bs) \<Rightarrow> Some (word_of_int (int (16 * h + l)) # bs)
      | _ \<Rightarrow> None)"

lemma hex_value_digit:
  assumes "n < 16"
  shows "hex_value (hex_digit n) = Some n"
proof -
  have "list_all (\<lambda>n. hex_value (hex_digit n) = Some n) [0..<16]"
    by code_simp
  moreover have "n \<in> set [0..<16]" using assms by simp
  ultimately show ?thesis unfolding list_all_iff by blast
qed

lemma hex_parse_text: "hex_parse (hex_text bs) = Some bs"
proof (induction bs)
  case (Cons b bs)
  have "unat b < 256" using unsigned_less [of b] by simp
  then have "unat b div 16 < 16" "unat b mod 16 < 16" by auto
  with Cons show ?case by (simp add: hex_value_digit)
qed simp

section \<open>External crates\<close>

definition demo_externals :: externals where
  "demo_externals =
     \<lparr>sha256_digest = (\<lambda>bs. array_of (take 32 (rev bs))),
      hash160_digest = (\<lambda>bs. array_of (take 20 (rev bs))),
      secp256k1_from_slice_ok = (\<lambda>_. True),
      hex_encode = hex_text,
      hex_decode = hex_parse,
      hex_decode_to_slice =
        (\<lambda>s n. case hex_parse s of None \<Rightarrow> None | Some bs \<Rightarrow> if length bs = n then Some bs else None)\<rparr>"

lemma demo_hex_laws: "hex_laws demo_externals"
  by (simp add: hex_laws_def demo_externals_def hex_parse_text)

section \<open>Transactions\<close>

abbreviation demo_hash :: "u8 \<Rightarrow> hash32" where
  "demo_hash \<equiv> filled"

definition demo_spec :: bytes where
  "demo_spec = ascii ''# Tandem'' @ [0x0a, 0x0a] @ ascii ''Two keys, one carrier.'' @ [0x0a]"

definition demo_binding :: binding where
  "demo_binding = \<lparr>bnd_network = Regtest, init_txid = demo_hash 1, spec_hash = hash32_sha256 demo_externals demo_spec\<rparr>"

definition demo_keys :: key_pair where
  "demo_keys = \<lparr>key0 = array_of (2 # replicate 32 5), key1 = array_of (2 # replicate 32 7)\<rparr>"

definition to_key :: "key33 \<Rightarrow> bytes" where
  "to_key k = p2wpkh_script demo_externals k"

definition demo_namespace :: bytes where
  "demo_namespace = bytes_of (namespace demo_externals demo_binding)"

definition demo_init :: tx_view where
  "demo_init = init_transaction demo_externals demo_binding (key0 demo_keys)"

definition demo_create :: tx_view where
  "demo_create = create_transaction demo_externals demo_binding demo_keys"

definition demo_mark :: "outpoint_ref \<Rightarrow> u64 \<Rightarrow> u8 \<Rightarrow> u32 \<Rightarrow> hash32 \<Rightarrow> tx_view" where
  "demo_mark = mark_transaction demo_externals demo_binding demo_keys"

definition demo_close :: "outpoint_ref \<Rightarrow> tx_view" where
  "demo_close = close_transaction demo_externals demo_binding demo_keys"

definition demo_refund :: "outpoint_ref \<Rightarrow> u64 \<Rightarrow> tx_view" where
  "demo_refund = refund_transaction demo_externals demo_keys"

section \<open>Blocks and states\<close>

abbreviation demo_block :: "u64 \<Rightarrow> tx_view list \<Rightarrow> block_view" where
  "demo_block \<equiv> chain_block"

text \<open>Applying a block gives the state \<open>s'\<close>; \<open>delta_of\<close> is the journal entry it returns.\<close>

definition applies :: "chain_state \<Rightarrow> block_view \<Rightarrow> chain_state \<Rightarrow> bool" where
  "applies s b s' = (case apply_block demo_externals s b of (t, Ok d) \<Rightarrow> t = s' | _ \<Rightarrow> False)"

definition delta_of :: "chain_state \<Rightarrow> block_view \<Rightarrow> block_delta" where
  "delta_of s b = the (map_option snd (connect_block demo_externals s b))"

lemma applies_delta: "applies s b s' \<Longrightarrow> apply_block demo_externals s b = (s', Ok (delta_of s b))"
  by (auto simp: applies_def delta_of_def connect_block_def split: prod.splits res.splits)

definition fresh_state :: chain_state where
  "fresh_state = chain_state_new demo_externals demo_binding"

definition init_block :: block_view where
  "init_block = demo_block 100 [demo_init]"

definition init_state :: chain_state where
  "init_state =
     \<lparr>binding_of = demo_binding, protocol_status = ProtocolActive 100 1108 5428,
      tip_height = Some 100, tip_hash = Some (height_hash 100),
      cs_chained_root = array_of (replicate 24 0 @ ascii '' Tandem'' @ [0x0a]), objects = bt_new, active = bt_new\<rparr>"

text \<open>The state after the empty blocks 101 to 1,107, up to its chained root.\<close>

definition open_state :: chain_state where
  "open_state = init_state\<lparr>tip_height := Some 1107, tip_hash := Some (height_hash 1107)\<rparr>"

definition create_block :: block_view where
  "create_block = demo_block 1108 [demo_create]"

definition created_point :: outpoint_ref where
  "created_point = OutPointRef (demo_hash 20) 1"

definition demo_key :: hash32 where
  "demo_key = array_of ([0, 0, 0, 1] @ replicate 28 20)"

definition demo_object :: object_state where
  "demo_object =
     \<lparr>ob_object_key = demo_key, ob_genesis = created_point, ob_founding = True, ob_status = StActive,
      ob_create_height = 1108, ob_state_seq = 0, ob_current_outpoint = created_point,
      ob_keys = demo_keys, ob_terminal_txid = hash32_ZERO, ob_chapter_count = 0\<rparr>"

definition counter_root :: "u8 \<Rightarrow> u8 \<Rightarrow> hash32" where
  "counter_root n t =
     array_of (replicate 7 0 @ [n] @ replicate 7 0 @ [1] @ replicate 7 0 @ [1] @ replicate 8 t)"

definition demo_state :: "u64 \<Rightarrow> object_state \<Rightarrow> u8 \<Rightarrow> u8 \<Rightarrow> chain_state" where
  "demo_state h ob n t =
     \<lparr>binding_of = demo_binding, protocol_status = ProtocolActive 100 1108 5428,
      tip_height = Some h, tip_hash = Some (height_hash h), cs_chained_root = counter_root n t,
      objects = bt_insert demo_key ob bt_new,
      active = (if ob_status ob = StActive then bt_insert (ob_current_outpoint ob) demo_key bt_new else bt_new)\<rparr>"

definition created_state :: chain_state where
  "created_state = demo_state 1108 demo_object 1 0"

definition mark_block :: block_view where
  "mark_block = demo_block 1109 [demo_mark created_point 1108 30 1 (demo_hash 42)]"

definition marked_point :: outpoint_ref where
  "marked_point = OutPointRef (demo_hash 30) 1"

definition marked_ob :: object_state where
  "marked_ob = demo_object\<lparr>ob_state_seq := 1, ob_current_outpoint := marked_point, ob_chapter_count := 1\<rparr>"

definition marked_state :: chain_state where
  "marked_state = demo_state 1109 marked_ob 1 0"

definition close_block :: block_view where
  "close_block = demo_block 1110 [demo_close marked_point]"

definition closed_state :: chain_state where
  "closed_state =
     demo_state 1110 (marked_ob\<lparr>ob_status := StClosed, ob_state_seq := 2,
       ob_current_outpoint := outpoint_ZERO, ob_terminal_txid := demo_hash 40\<rparr>) 0 40"

definition bad_mark_block :: block_view where
  "bad_mark_block = demo_block 1110 [demo_mark marked_point 1109 32 2 hash32_ZERO]"

definition exited_state :: chain_state where
  "exited_state =
     demo_state 1110 (marked_ob\<lparr>ob_status := StExitedNoncanonical,
       ob_current_outpoint := outpoint_ZERO, ob_terminal_txid := demo_hash 32\<rparr>) 0 32"

definition idle_block :: block_view where
  "idle_block = demo_block 1109 []"

definition idle_state :: chain_state where
  "idle_state = demo_state 1109 demo_object 1 0"

section \<open>The lifecycle of the tests, evaluated\<close>

lemma idle_applied: "applies created_state idle_block idle_state"
  by code_simp

lemma idle_admissible: "admissible demo_externals [demo_hash 20, demo_hash 1] created_state idle_block"
  by code_simp

lemma init_applied: "applies fresh_state init_block init_state"
  by code_simp

lemma create_applied: "applies open_state create_block created_state"
  by code_simp

lemma mark_applied: "applies created_state mark_block marked_state"
  by code_simp

lemma close_applied: "applies marked_state close_block closed_state"
  by code_simp

lemma bad_mark_applied: "applies marked_state bad_mark_block exited_state"
  by code_simp

lemma fresh_admissible: "admissible demo_externals [] fresh_state init_block"
  by code_simp

lemma open_admissible: "admissible demo_externals [demo_hash 1] open_state create_block"
  by code_simp

lemma created_admissible: "admissible demo_externals [demo_hash 20, demo_hash 1] created_state mark_block"
  by code_simp

lemma marked_admissible:
  "admissible demo_externals [demo_hash 30, demo_hash 20, demo_hash 1] marked_state close_block"
  "admissible demo_externals [demo_hash 30, demo_hash 20, demo_hash 1] marked_state bad_mark_block"
  by code_simp+

end
