(* ===== verification/Json.thy ===== *)
theory Json
  imports Tandem_Prelude "HOL-Library.Monad_Syntax"
begin

text \<open>
  JSON values, \<open>serde_json::Value\<close>, and what it takes to write a value and read it back. A
  \<open>jsonb\<close> column of the database keeps a value up to the order of the members of its objects, so the
  contract of a pair of conversions, the locale \<open>json_codec\<close>, asks that reading undoes writing on
  every value that is the same in this sense.
\<close>

section \<open>Values\<close>

datatype json =
    JNull | JBool bool | JInt int | JFloat string | JString string
  | JArray "json list" | JObject "(string \<times> json) list"

text \<open>Equality up to the order of members, for values in which no object has a key twice.\<close>

inductive same_value :: "json \<Rightarrow> json \<Rightarrow> bool" where
  same_null: "same_value JNull JNull"
| same_bool: "same_value (JBool b) (JBool b)"
| same_int: "same_value (JInt n) (JInt n)"
| same_float: "same_value (JFloat s) (JFloat s)"
| same_string: "same_value (JString s) (JString s)"
| same_array: "list_all2 same_value xs ys \<Longrightarrow> same_value (JArray xs) (JArray ys)"
| same_object:
    "distinct (map fst ms) \<Longrightarrow> distinct (map fst ns) \<Longrightarrow> set (map fst ms) = set (map fst ns) \<Longrightarrow>
     (\<And>k v w. map_of ms k = Some v \<Longrightarrow> map_of ns k = Some w \<Longrightarrow> same_value v w) \<Longrightarrow>
     same_value (JObject ms) (JObject ns)"

inductive_simps same_value_simps [simp]:
  "same_value JNull v" "same_value (JBool b) v" "same_value (JInt n) v" "same_value (JString s) v"
  "same_value (JArray xs) v"

inductive_cases same_objectE: "same_value (JObject ms) v"

lemma same_objectD:
  assumes "same_value (JObject ms) v"
  shows "\<exists>ns. v = JObject ns \<and> distinct (map fst ms) \<and> distinct (map fst ns) \<and> set (map fst ms) = set (map fst ns) \<and>
    (\<forall>k v w. map_of ms k = Some v \<longrightarrow> map_of ns k = Some w \<longrightarrow> same_value v w)"
  using assms by (cases rule: same_value.cases) auto

section \<open>Reading members\<close>

text \<open>A missing member is an error, except where the field is an \<open>Option\<close>; unknown members are ignored.\<close>

definition field :: "string \<Rightarrow> (json \<Rightarrow> 'a option) \<Rightarrow> json \<Rightarrow> 'a option" where
  "field k from_json v =
     (case v of JObject ms \<Rightarrow> Option.bind (map_of ms k) from_json | _ \<Rightarrow> None)"

fun option_to_json :: "('a \<Rightarrow> json) \<Rightarrow> 'a option \<Rightarrow> json" where
  "option_to_json to_json None = JNull"
| "option_to_json to_json (Some x) = to_json x"

definition option_from_json :: "(json \<Rightarrow> 'a option) \<Rightarrow> json \<Rightarrow> 'a option option" where
  "option_from_json from_json v = (if v = JNull then Some None else map_option Some (from_json v))"

definition optional_field :: "string \<Rightarrow> (json \<Rightarrow> 'a option) \<Rightarrow> json \<Rightarrow> 'a option option" where
  "optional_field k from_json v =
     (case v of
        JObject ms \<Rightarrow> (case map_of ms k of None \<Rightarrow> Some None | Some w \<Rightarrow> option_from_json from_json w)
      | _ \<Rightarrow> None)"

definition list_to_json :: "('a \<Rightarrow> json) \<Rightarrow> 'a list \<Rightarrow> json" where
  "list_to_json to_json xs = JArray (map to_json xs)"

fun list_from_json :: "(json \<Rightarrow> 'a option) \<Rightarrow> json \<Rightarrow> 'a list option" where
  "list_from_json from_json (JArray vs) = those (map from_json vs)"
| "list_from_json from_json _ = None"

section \<open>The contract\<close>

locale json_codec =
  fixes to_json :: "'a \<Rightarrow> json" and from_json :: "json \<Rightarrow> 'a option"
  assumes well_formed: "same_value (to_json x) (to_json x)"
    and read_back: "same_value (to_json x) v \<Longrightarrow> from_json v = Some x"
begin

lemma round_trip: "from_json (to_json x) = Some x"
  using well_formed by (rule read_back)

lemma field_read:
  assumes "same_value (JObject ms) v" and "map_of ms k = Some (to_json x)"
  shows "field k from_json v = Some x"
proof -
  obtain ns where ns: "v = JObject ns" "set (map fst ms) = set (map fst ns)"
      "\<forall>k v w. map_of ms k = Some v \<longrightarrow> map_of ns k = Some w \<longrightarrow> same_value v w"
    using same_objectD [OF assms(1)] by blast
  have "k \<in> set (map fst ns)" using assms(2) ns(2) by (metis map_of_SomeD fst_conv image_eqI set_map)
  then obtain w where "map_of ns k = Some w" by (metis map_of_eq_None_iff not_None_eq set_map)
  then show ?thesis using ns(1,3) assms(2) read_back by (simp add: field_def)
qed

lemma list_read_back:
  assumes "list_all2 same_value (map to_json xs) vs"
  shows "those (map from_json vs) = Some xs"
  using assms by (induction xs arbitrary: vs) (auto simp: list_all2_Cons1 read_back)

end

text \<open>An \<open>Option\<close> is null or the value, which must then not be null itself.\<close>

locale nonnull_codec = json_codec +
  assumes not_null: "to_json x \<noteq> JNull"
begin

lemma option_read_back:
  assumes "same_value (option_to_json to_json ox) v"
  shows "option_from_json from_json v = Some ox"
  using assms not_null read_back by (cases ox) (auto simp: option_from_json_def elim: same_value.cases)

lemma option_well_formed: "same_value (option_to_json to_json ox) (option_to_json to_json ox)"
  by (cases ox) (simp_all add: well_formed)

end

sublocale nonnull_codec \<subseteq> opt: json_codec "option_to_json to_json" "option_from_json from_json"
  by unfold_locales (fact option_well_formed, fact option_read_back)

lemma option_codec:
  assumes "nonnull_codec to_json from_json"
  shows "json_codec (option_to_json to_json) (option_from_json from_json)"
  by unfold_locales (fact nonnull_codec.option_well_formed [OF assms], fact nonnull_codec.option_read_back [OF assms])

lemma optional_field_read:
  assumes "json_codec to_json (option_from_json from_json)" and "same_value (JObject ms) v" and "map_of ms k = Some (to_json ox)"
  shows "optional_field k from_json v = Some ox"
proof -
  have "field k (option_from_json from_json) v = Some ox" by (rule json_codec.field_read [OF assms])
  then show ?thesis by (auto simp: field_def optional_field_def bind_eq_Some_conv split: json.splits option.splits)
qed

section \<open>Combinations\<close>

lemma list_codec:
  assumes "json_codec to_json from_json"
  shows "json_codec (list_to_json to_json) (list_from_json from_json)"
proof
  show "same_value (list_to_json to_json xs) (list_to_json to_json xs)" for xs
    by (simp add: list_to_json_def list_all2_map1 list_all2_map2 list_all2_same json_codec.well_formed [OF assms])
  show "list_from_json from_json v = Some xs" if "same_value (list_to_json to_json xs) v" for xs v
    using that json_codec.list_read_back [OF assms] by (auto simp: list_to_json_def)
qed

text \<open>The members of an object are well formed; a struct is read by reading its fields.\<close>

lemma object_well_formed:
  assumes "distinct (map fst ms)" and "\<forall>(k, v)\<in>set ms. same_value v v"
  shows "same_value (JObject ms) (JObject ms)"
  using assms by (intro same_object) (auto dest: map_of_SomeD)

text \<open>A map whose keys are written as names: the members are its entries in some order.\<close>

lemma map_members:
  assumes "same_value (JObject (map (\<lambda>(k, x). (name k, to_json x)) es)) (JObject ns)"
    and "inj name" and "distinct (map fst es)"
  shows "\<exists>es'. set es' = set es \<and> distinct (map fst es') \<and>
    list_all2 (\<lambda>(s, w) (k, x). s = name k \<and> same_value (to_json x) w) ns es'"
proof -
  let ?ms = "map (\<lambda>(k, x). (name k, to_json x)) es"
  have ns: "distinct (map fst ?ms)" "distinct (map fst ns)" "set (map fst ?ms) = set (map fst ns)"
      "\<forall>k v w. map_of ?ms k = Some v \<longrightarrow> map_of ns k = Some w \<longrightarrow> same_value v w"
    using same_objectD [OF assms(1)] by auto
  have "\<exists>e\<in>set es. fst p = name (fst e) \<and> same_value (to_json (snd e)) (snd p)" if p: "p \<in> set ns" for p
  proof -
    have "fst p \<in> set (map fst ?ms)" using p ns(3) by simp
    then obtain e where e: "e \<in> set es" "fst p = name (fst e)" by auto
    then have "map_of ?ms (fst p) = Some (to_json (snd e))"
      using ns(1) by (intro map_of_is_SomeI) (force split: prod.splits)+
    moreover have "map_of ns (fst p) = Some (snd p)" using p ns(2) by (intro map_of_is_SomeI) simp_all
    ultimately show ?thesis using e ns(4) by blast
  qed
  then obtain g where g: "\<forall>p\<in>set ns. g p \<in> set es \<and> fst p = name (fst (g p)) \<and> same_value (to_json (snd (g p))) (snd p)"
    by metis
  have "map name (map fst (map g ns)) = map fst ns" using g by auto
  then have d: "distinct (map fst (map g ns))" using ns(2) by (metis distinct_map)
  have "e \<in> set (map g ns)" if e: "e \<in> set es" for e
  proof -
    have "(name (fst e), to_json (snd e)) \<in> set ?ms" using e by (auto simp: image_iff split: prod.splits intro!: bexI [of _ e])
    then have "name (fst e) \<in> set (map fst ns)" unfolding ns(3) [symmetric] by (metis fst_conv image_eqI list.set_map)
    then obtain p where p: "p \<in> set ns" "fst p = name (fst e)" by auto
    then have "fst (g p) = fst e" using g injD [OF assms(2)] by metis
    moreover from this have "(fst e, snd (g p)) \<in> set es" using g p(1) by (metis prod.collapse)
    ultimately have "g p = e" using eq_key_imp_eq_value [OF assms(3)] e by (metis prod.collapse prod_eqI)
    then show ?thesis using p(1) by force
  qed
  then have "set (map g ns) = set es" using g by auto
  moreover have "list_all2 (\<lambda>(s, w) (k, x). s = name k \<and> same_value (to_json x) w) ns (map g ns)"
    using g by (auto simp: list_all2_map2 case_prod_unfold intro: list.rel_refl_strong)
  ultimately show ?thesis using d by blast
qed

text \<open>Unit variants are text.\<close>

definition enum_to_json :: "('a \<Rightarrow> string) \<Rightarrow> 'a \<Rightarrow> json" where
  "enum_to_json name x = JString (name x)"

fun enum_from_json :: "('a \<Rightarrow> string) \<Rightarrow> 'a list \<Rightarrow> json \<Rightarrow> 'a option" where
  "enum_from_json name variants (JString s) = find (\<lambda>x. name x = s) variants"
| "enum_from_json name variants _ = None"

lemma enum_codec:
  assumes "distinct (map name variants)" and "\<And>x. x \<in> set variants"
  shows "nonnull_codec (enum_to_json name) (enum_from_json name variants)"
proof
  show "enum_from_json name variants v = Some x" if "same_value (enum_to_json name x) v" for x v
  proof -
    have "find (\<lambda>y. name y = name x) variants = Some x"
      using assms(1) assms(2) [of x] by (induction variants) (auto simp: image_iff)
    then show ?thesis using that by (simp add: enum_to_json_def)
  qed
qed (simp_all add: enum_to_json_def)

text \<open>Integers; reading checks the range of the type.\<close>

definition uint_to_json :: "'a::len word \<Rightarrow> json" where
  "uint_to_json w = JInt (uint w)"

fun uint_from_json :: "json \<Rightarrow> 'a::len word option" where
  "uint_from_json (JInt n) = (if 0 \<le> n \<and> n < 2 ^ LENGTH('a) then Some (word_of_int n) else None)"
| "uint_from_json _ = None"

definition sint_to_json :: "'a::len word \<Rightarrow> json" where
  "sint_to_json w = JInt (sint w)"

fun sint_from_json :: "json \<Rightarrow> 'a::len word option" where
  "sint_from_json (JInt n) =
     (if - (2 ^ (LENGTH('a) - 1)) \<le> n \<and> n < 2 ^ (LENGTH('a) - 1) then Some (word_of_int n) else None)"
| "sint_from_json _ = None"

definition bool_from_json :: "json \<Rightarrow> bool option" where
  "bool_from_json v = (case v of JBool b \<Rightarrow> Some b | _ \<Rightarrow> None)"

interpretation uint: nonnull_codec uint_to_json uint_from_json
  by unfold_locales (auto simp: uint_to_json_def)

interpretation sint: nonnull_codec sint_to_json sint_from_json
  by unfold_locales (auto simp: sint_to_json_def sint_greater_eq sint_less)

interpretation bool: nonnull_codec JBool bool_from_json
  by unfold_locales (auto simp: bool_from_json_def)

end
