(* ===== verification/Serde.thy ===== *)
theory Serde
  imports Reducer Json
begin

text \<open>
  How the data of \<open>crates/tandem-core\<close> is written as JSON: the \<open>Serialize\<close> and \<open>Deserialize\<close>
  instances written by hand (digests, keys, byte strings, the active index) and the ones derived from
  the types by \<open>serde\<close> in its documented representation. A struct is an object with a member per
  field, a unit variant is its name after the \<open>rename_all\<close> rule of the type, the protocol status is
  an object with its variant in the member \<open>state\<close>, an \<open>Option\<close> is null or its value, a map keyed by
  digests is an object. Other input that the derived readers may also take, such as an array in the
  place of a struct, is not modelled: the readers are only used on what was written.
\<close>

section \<open>Digests and keys\<close>

definition hash32_fmt :: "externals \<Rightarrow> hash32 \<Rightarrow> string" where
  "hash32_fmt X h = hash32_to_hex X h"

definition hash32_from_str :: "externals \<Rightarrow> string \<Rightarrow> (hex_error, hash32) res" where
  "hash32_from_str X s = hash32_from_hex X s"

fun string_from_json :: "json \<Rightarrow> string option" where
  "string_from_json (JString s) = Some s"
| "string_from_json _ = None"

definition hash32_serialize :: "externals \<Rightarrow> hash32 \<Rightarrow> json" where
  "hash32_serialize X h = JString (hash32_to_hex X h)"

definition hash32_deserialize :: "externals \<Rightarrow> json \<Rightarrow> hash32 option" where
  "hash32_deserialize X v = do {
     s \<leftarrow> string_from_json v;
     case hash32_from_hex X s of Ok h \<Rightarrow> Some h | _ \<Rightarrow> None
   }"

definition key33_fmt :: "externals \<Rightarrow> key33 \<Rightarrow> string" where
  "key33_fmt X k = key33_to_hex X k"

definition key33_serialize :: "externals \<Rightarrow> key33 \<Rightarrow> json" where
  "key33_serialize X k = JString (key33_to_hex X k)"

definition key33_deserialize :: "externals \<Rightarrow> json \<Rightarrow> key33 option" where
  "key33_deserialize X v = do {
     s \<leftarrow> string_from_json v;
     case key33_from_hex X s of Ok k \<Rightarrow> Some k | _ \<Rightarrow> None
   }"

section \<open>Byte strings\<close>

definition hex_bytes_to_json :: "externals \<Rightarrow> bytes \<Rightarrow> json" where
  "hex_bytes_to_json X bs = JString (hex_bytes_serialize X bs)"

definition hex_bytes_from_json :: "externals \<Rightarrow> json \<Rightarrow> bytes option" where
  "hex_bytes_from_json X v = do {
     s \<leftarrow> string_from_json v;
     case hex_bytes_deserialize X s of Ok bs \<Rightarrow> Some bs | _ \<Rightarrow> None
   }"

definition hex_vec_to_json :: "externals \<Rightarrow> bytes list \<Rightarrow> json" where
  "hex_vec_to_json X xs = list_to_json JString (hex_vec_serialize X xs)"

definition hex_vec_from_json :: "externals \<Rightarrow> json \<Rightarrow> bytes list option" where
  "hex_vec_from_json X v = do {
     ss \<leftarrow> list_from_json string_from_json v;
     case hex_vec_deserialize X ss of Ok xs \<Rightarrow> Some xs | _ \<Rightarrow> None
   }"

section \<open>Names of variants\<close>

fun network_name :: "network \<Rightarrow> string" where
  "network_name Mainnet = ''mainnet''"
| "network_name Signet = ''signet''"
| "network_name Testnet4 = ''testnet4''"
| "network_name Regtest = ''regtest''"

fun reason_name :: "reason \<Rightarrow> string" where
  "reason_name Valid = ''VALID''"
| "reason_name MultipleMarkers = ''MULTIPLE_MARKERS''"
| "reason_name BadMarkerEncodingOrLength = ''BAD_MARKER_ENCODING_OR_LENGTH''"
| "reason_name UnknownVersion = ''UNKNOWN_VERSION''"
| "reason_name WrongNetwork = ''WRONG_NETWORK''"
| "reason_name UnknownOpcode = ''UNKNOWN_OPCODE''"
| "reason_name WrongNamespace = ''WRONG_NAMESPACE''"
| "reason_name UnsupportedOrReservedField = ''UNSUPPORTED_OR_RESERVED_FIELD''"
| "reason_name BadTxVersionOrLocktime = ''BAD_TX_VERSION_OR_LOCKTIME''"
| "reason_name BadInputCountOrOrder = ''BAD_INPUT_COUNT_OR_ORDER''"
| "reason_name BadOutputCountOrOrder = ''BAD_OUTPUT_COUNT_OR_ORDER''"
| "reason_name UnconfirmedOrSameBlockPrevout = ''UNCONFIRMED_OR_SAME_BLOCK_PREVOUT''"
| "reason_name BadInputScript = ''BAD_INPUT_SCRIPT''"
| "reason_name BadKeyOrderOrBinding = ''BAD_KEY_ORDER_OR_BINDING''"
| "reason_name BadSignatureOrSighash = ''BAD_SIGNATURE_OR_SIGHASH''"
| "reason_name BadOutputScriptOrValue = ''BAD_OUTPUT_SCRIPT_OR_VALUE''"
| "reason_name NonpositiveOrInvalidFee = ''NONPOSITIVE_OR_INVALID_FEE''"
| "reason_name BadFeeSplitOrChange = ''BAD_FEE_SPLIT_OR_CHANGE''"
| "reason_name PredecessorNotActive = ''PREDECESSOR_NOT_ACTIVE''"
| "reason_name BadStateSequence = ''BAD_STATE_SEQUENCE''"
| "reason_name BadSuccessor = ''BAD_SUCCESSOR''"
| "reason_name BadCommitment = ''BAD_COMMITMENT''"
| "reason_name BadHeightOrPhase = ''BAD_HEIGHT_OR_PHASE''"
| "reason_name BadRefundShapeOrMaturity = ''BAD_REFUND_SHAPE_OR_MATURITY''"
| "reason_name MultipleCarriers = ''MULTIPLE_CARRIERS''"
| "reason_name UnmarkedCarrierSpend = ''UNMARKED_CARRIER_SPEND''"

fun event_type_name :: "event_type \<Rightarrow> string" where
  "event_type_name EvInit = ''INIT''"
| "event_type_name EvCreate = ''CREATE''"
| "event_type_name EvMark = ''MARK''"
| "event_type_name EvRotate = ''ROTATE''"
| "event_type_name EvClose = ''CLOSE''"
| "event_type_name EvRefund = ''REFUND''"
| "event_type_name EvExitedNoncanonical = ''EXITED_NONCANONICAL''"
| "event_type_name EvInvalid = ''INVALID''"

fun validity_class_name :: "validity_class \<Rightarrow> string" where
  "validity_class_name InvalidNoState = ''INVALID_NO_STATE''"
| "validity_class_name ValidOperation = ''VALID_OPERATION''"
| "validity_class_name TerminalNoncanonical = ''TERMINAL_NONCANONICAL''"

fun object_status_name :: "object_status \<Rightarrow> string" where
  "object_status_name StActive = ''ACTIVE''"
| "object_status_name StClosed = ''CLOSED''"
| "object_status_name StRefunded = ''REFUNDED''"
| "object_status_name StExitedNoncanonical = ''EXITED_NONCANONICAL''"

definition network_to_json :: "network \<Rightarrow> json" where
  "network_to_json = enum_to_json network_name"

definition network_from_json :: "json \<Rightarrow> network option" where
  "network_from_json = enum_from_json network_name
     [Mainnet, Signet, Testnet4, Regtest]"

definition reason_to_json :: "reason \<Rightarrow> json" where
  "reason_to_json = enum_to_json reason_name"

definition reason_from_json :: "json \<Rightarrow> reason option" where
  "reason_from_json = enum_from_json reason_name
     [Valid, MultipleMarkers, BadMarkerEncodingOrLength, UnknownVersion, WrongNetwork, UnknownOpcode,
     WrongNamespace, UnsupportedOrReservedField, BadTxVersionOrLocktime, BadInputCountOrOrder,
     BadOutputCountOrOrder, UnconfirmedOrSameBlockPrevout, BadInputScript, BadKeyOrderOrBinding,
     BadSignatureOrSighash, BadOutputScriptOrValue, NonpositiveOrInvalidFee, BadFeeSplitOrChange,
     PredecessorNotActive, BadStateSequence, BadSuccessor, BadCommitment, BadHeightOrPhase,
     BadRefundShapeOrMaturity, MultipleCarriers, UnmarkedCarrierSpend]"

definition event_type_to_json :: "event_type \<Rightarrow> json" where
  "event_type_to_json = enum_to_json event_type_name"

definition event_type_from_json :: "json \<Rightarrow> event_type option" where
  "event_type_from_json = enum_from_json event_type_name
     [EvInit, EvCreate, EvMark, EvRotate, EvClose, EvRefund, EvExitedNoncanonical, EvInvalid]"

definition validity_class_to_json :: "validity_class \<Rightarrow> json" where
  "validity_class_to_json = enum_to_json validity_class_name"

definition validity_class_from_json :: "json \<Rightarrow> validity_class option" where
  "validity_class_from_json = enum_from_json validity_class_name
     [InvalidNoState, ValidOperation, TerminalNoncanonical]"

definition object_status_to_json :: "object_status \<Rightarrow> json" where
  "object_status_to_json = enum_to_json object_status_name"

definition object_status_from_json :: "json \<Rightarrow> object_status option" where
  "object_status_from_json = enum_from_json object_status_name
     [StActive, StClosed, StRefunded, StExitedNoncanonical]"

section \<open>Structs\<close>

definition outpoint_to_json :: "externals \<Rightarrow> outpoint_ref \<Rightarrow> json" where
  "outpoint_to_json X r =
     JObject [(''txid'', hash32_serialize X (op_txid r)), (''vout'', uint_to_json (op_vout r))]"

definition outpoint_from_json :: "externals \<Rightarrow> json \<Rightarrow> outpoint_ref option" where
  "outpoint_from_json X v = do {
     txid' \<leftarrow> field ''txid'' (hash32_deserialize X) v;
     vout' \<leftarrow> field ''vout'' uint_from_json v;
     Some (OutPointRef txid' vout')
   }"

definition key_pair_to_json :: "externals \<Rightarrow> key_pair \<Rightarrow> json" where
  "key_pair_to_json X r =
     JObject [(''key0'', key33_serialize X (key0 r)), (''key1'', key33_serialize X (key1 r))]"

definition key_pair_from_json :: "externals \<Rightarrow> json \<Rightarrow> key_pair option" where
  "key_pair_from_json X v = do {
     key0' \<leftarrow> field ''key0'' (key33_deserialize X) v;
     key1' \<leftarrow> field ''key1'' (key33_deserialize X) v;
     Some \<lparr>key0 = key0', key1 = key1'\<rparr>
   }"

definition binding_to_json :: "externals \<Rightarrow> binding \<Rightarrow> json" where
  "binding_to_json X r =
     JObject [(''network'', network_to_json (bnd_network r)), (''init_txid'', hash32_serialize X (init_txid r)),
       (''spec_hash'', hash32_serialize X (spec_hash r))]"

definition binding_from_json :: "externals \<Rightarrow> json \<Rightarrow> binding option" where
  "binding_from_json X v = do {
     network' \<leftarrow> field ''network'' network_from_json v;
     init_txid' \<leftarrow> field ''init_txid'' (hash32_deserialize X) v;
     spec_hash' \<leftarrow> field ''spec_hash'' (hash32_deserialize X) v;
     Some \<lparr>bnd_network = network', init_txid = init_txid', spec_hash = spec_hash'\<rparr>
   }"

definition input_view_to_json :: "externals \<Rightarrow> input_view \<Rightarrow> json" where
  "input_view_to_json X r =
     JObject [(''prevout'', outpoint_to_json X (prevout r)), (''sequence'', uint_to_json (sequence r)),
       (''script_sig'', hex_bytes_to_json X (script_sig r)), (''witness'', hex_vec_to_json X (witness r)),
       (''prevout_value'', uint_to_json (prevout_value r)),
       (''prevout_script'', hex_bytes_to_json X (prevout_script r)),
       (''prevout_height'', option_to_json uint_to_json (prevout_height r)),
       (''signatures_valid'', JBool (signatures_valid r))]"

definition input_view_from_json :: "externals \<Rightarrow> json \<Rightarrow> input_view option" where
  "input_view_from_json X v = do {
     prevout' \<leftarrow> field ''prevout'' (outpoint_from_json X) v;
     sequence' \<leftarrow> field ''sequence'' uint_from_json v;
     script_sig' \<leftarrow> field ''script_sig'' (hex_bytes_from_json X) v;
     witness' \<leftarrow> field ''witness'' (hex_vec_from_json X) v;
     prevout_value' \<leftarrow> field ''prevout_value'' uint_from_json v;
     prevout_script' \<leftarrow> field ''prevout_script'' (hex_bytes_from_json X) v;
     prevout_height' \<leftarrow> optional_field ''prevout_height'' uint_from_json v;
     signatures_valid' \<leftarrow> field ''signatures_valid'' bool_from_json v;
     Some \<lparr>prevout = prevout', sequence = sequence', script_sig = script_sig', witness = witness',
           prevout_value = prevout_value', prevout_script = prevout_script', prevout_height = prevout_height',
           signatures_valid = signatures_valid'\<rparr>
   }"

definition output_view_to_json :: "externals \<Rightarrow> output_view \<Rightarrow> json" where
  "output_view_to_json X r =
     JObject [(''value'', uint_to_json (out_value r)), (''script_pubkey'', hex_bytes_to_json X (script_pubkey r))]"

definition output_view_from_json :: "externals \<Rightarrow> json \<Rightarrow> output_view option" where
  "output_view_from_json X v = do {
     value' \<leftarrow> field ''value'' uint_from_json v;
     script_pubkey' \<leftarrow> field ''script_pubkey'' (hex_bytes_from_json X) v;
     Some \<lparr>out_value = value', script_pubkey = script_pubkey'\<rparr>
   }"

definition tx_view_to_json :: "externals \<Rightarrow> tx_view \<Rightarrow> json" where
  "tx_view_to_json X r =
     JObject [(''txid'', hash32_serialize X (tx_txid r)), (''wtxid'', hash32_serialize X (tx_wtxid r)),
       (''version'', sint_to_json (tx_version r)), (''lock_time'', uint_to_json (lock_time r)),
       (''inputs'', list_to_json (input_view_to_json X) (inputs r)),
       (''outputs'', list_to_json (output_view_to_json X) (outputs r))]"

definition tx_view_from_json :: "externals \<Rightarrow> json \<Rightarrow> tx_view option" where
  "tx_view_from_json X v = do {
     txid' \<leftarrow> field ''txid'' (hash32_deserialize X) v;
     wtxid' \<leftarrow> field ''wtxid'' (hash32_deserialize X) v;
     version' \<leftarrow> field ''version'' sint_from_json v;
     lock_time' \<leftarrow> field ''lock_time'' uint_from_json v;
     inputs' \<leftarrow> field ''inputs'' (list_from_json (input_view_from_json X)) v;
     outputs' \<leftarrow> field ''outputs'' (list_from_json (output_view_from_json X)) v;
     Some \<lparr>tx_txid = txid', tx_wtxid = wtxid', tx_version = version', lock_time = lock_time', inputs = inputs',
           outputs = outputs'\<rparr>
   }"

definition block_view_to_json :: "externals \<Rightarrow> block_view \<Rightarrow> json" where
  "block_view_to_json X r =
     JObject [(''hash'', hash32_serialize X (bv_hash r)), (''previous_hash'', hash32_serialize X (bv_previous_hash r)),
       (''height'', uint_to_json (bv_height r)), (''transactions'', list_to_json (tx_view_to_json X) (transactions r))]"

definition block_view_from_json :: "externals \<Rightarrow> json \<Rightarrow> block_view option" where
  "block_view_from_json X v = do {
     hash' \<leftarrow> field ''hash'' (hash32_deserialize X) v;
     previous_hash' \<leftarrow> field ''previous_hash'' (hash32_deserialize X) v;
     height' \<leftarrow> field ''height'' uint_from_json v;
     transactions' \<leftarrow> field ''transactions'' (list_from_json (tx_view_from_json X)) v;
     Some \<lparr>bv_hash = hash', bv_previous_hash = previous_hash', bv_height = height', transactions = transactions'\<rparr>
   }"

definition event_to_json :: "externals \<Rightarrow> event \<Rightarrow> json" where
  "event_to_json X r =
     JObject [(''namespace'', hash32_serialize X (ev_namespace r)), (''block_hash'', hash32_serialize X (ev_block_hash r)),
       (''height'', uint_to_json (ev_height r)), (''tx_index'', uint_to_json (ev_tx_index r)),
       (''event_index'', uint_to_json (ev_event_index r)), (''sub_index'', uint_to_json (ev_sub_index r)),
       (''event_type'', event_type_to_json (ev_event_type r)),
       (''validity_class'', validity_class_to_json (ev_validity_class r)), (''reason'', reason_to_json (ev_reason r)),
       (''txid'', hash32_serialize X (ev_txid r)), (''wtxid'', hash32_serialize X (ev_wtxid r)),
       (''object_key'', hash32_serialize X (ev_object_key r)), (''state_seq'', uint_to_json (ev_state_seq r)),
       (''predecessor'', outpoint_to_json X (ev_predecessor r)), (''successor'', outpoint_to_json X (ev_successor r)),
       (''key0'', key33_serialize X (ev_key0 r)), (''key1'', key33_serialize X (ev_key1 r)),
       (''commitment'', hash32_serialize X (ev_commitment r))]"

definition event_from_json :: "externals \<Rightarrow> json \<Rightarrow> event option" where
  "event_from_json X v = do {
     namespace' \<leftarrow> field ''namespace'' (hash32_deserialize X) v;
     block_hash' \<leftarrow> field ''block_hash'' (hash32_deserialize X) v;
     height' \<leftarrow> field ''height'' uint_from_json v;
     tx_index' \<leftarrow> field ''tx_index'' uint_from_json v;
     event_index' \<leftarrow> field ''event_index'' uint_from_json v;
     sub_index' \<leftarrow> field ''sub_index'' uint_from_json v;
     event_type' \<leftarrow> field ''event_type'' event_type_from_json v;
     validity_class' \<leftarrow> field ''validity_class'' validity_class_from_json v;
     reason' \<leftarrow> field ''reason'' reason_from_json v;
     txid' \<leftarrow> field ''txid'' (hash32_deserialize X) v;
     wtxid' \<leftarrow> field ''wtxid'' (hash32_deserialize X) v;
     object_key' \<leftarrow> field ''object_key'' (hash32_deserialize X) v;
     state_seq' \<leftarrow> field ''state_seq'' uint_from_json v;
     predecessor' \<leftarrow> field ''predecessor'' (outpoint_from_json X) v;
     successor' \<leftarrow> field ''successor'' (outpoint_from_json X) v;
     key0' \<leftarrow> field ''key0'' (key33_deserialize X) v;
     key1' \<leftarrow> field ''key1'' (key33_deserialize X) v;
     commitment' \<leftarrow> field ''commitment'' (hash32_deserialize X) v;
     Some \<lparr>ev_namespace = namespace', ev_block_hash = block_hash', ev_height = height', ev_tx_index = tx_index',
           ev_event_index = event_index', ev_sub_index = sub_index', ev_event_type = event_type',
           ev_validity_class = validity_class', ev_reason = reason', ev_txid = txid', ev_wtxid = wtxid',
           ev_object_key = object_key', ev_state_seq = state_seq', ev_predecessor = predecessor',
           ev_successor = successor', ev_key0 = key0', ev_key1 = key1', ev_commitment = commitment'\<rparr>
   }"

definition object_state_to_json :: "externals \<Rightarrow> object_state \<Rightarrow> json" where
  "object_state_to_json X r =
     JObject [(''object_key'', hash32_serialize X (ob_object_key r)), (''genesis'', outpoint_to_json X (ob_genesis r)),
       (''founding'', JBool (ob_founding r)), (''status'', object_status_to_json (ob_status r)),
       (''create_height'', uint_to_json (ob_create_height r)), (''state_seq'', uint_to_json (ob_state_seq r)),
       (''current_outpoint'', outpoint_to_json X (ob_current_outpoint r)), (''keys'', key_pair_to_json X (ob_keys r)),
       (''terminal_txid'', hash32_serialize X (ob_terminal_txid r)),
       (''chapter_count'', uint_to_json (ob_chapter_count r))]"

definition object_state_from_json :: "externals \<Rightarrow> json \<Rightarrow> object_state option" where
  "object_state_from_json X v = do {
     object_key' \<leftarrow> field ''object_key'' (hash32_deserialize X) v;
     genesis' \<leftarrow> field ''genesis'' (outpoint_from_json X) v;
     founding' \<leftarrow> field ''founding'' bool_from_json v;
     status' \<leftarrow> field ''status'' object_status_from_json v;
     create_height' \<leftarrow> field ''create_height'' uint_from_json v;
     state_seq' \<leftarrow> field ''state_seq'' uint_from_json v;
     current_outpoint' \<leftarrow> field ''current_outpoint'' (outpoint_from_json X) v;
     keys' \<leftarrow> field ''keys'' (key_pair_from_json X) v;
     terminal_txid' \<leftarrow> field ''terminal_txid'' (hash32_deserialize X) v;
     chapter_count' \<leftarrow> field ''chapter_count'' uint_from_json v;
     Some \<lparr>ob_object_key = object_key', ob_genesis = genesis', ob_founding = founding', ob_status = status',
           ob_create_height = create_height', ob_state_seq = state_seq', ob_current_outpoint = current_outpoint',
           ob_keys = keys', ob_terminal_txid = terminal_txid', ob_chapter_count = chapter_count'\<rparr>
   }"

section \<open>The chain state\<close>

fun protocol_status_to_json :: "protocol_status \<Rightarrow> json" where
  "protocol_status_to_json AwaitingInit = JObject [(''state'', JString ''AWAITING_INIT'')]"
| "protocol_status_to_json (ProtocolActive ih ho hc) =
     JObject [(''state'', JString ''ACTIVE''), (''init_height'', uint_to_json ih), (''h_open'', uint_to_json ho),
       (''h_close'', uint_to_json hc)]"
| "protocol_status_to_json (FailedInit rsn ih) =
     JObject [(''state'', JString ''FAILED_INIT''), (''reason'', reason_to_json rsn), (''init_height'', uint_to_json ih)]"

definition protocol_status_from_json :: "json \<Rightarrow> protocol_status option" where
  "protocol_status_from_json v = do {
     tag \<leftarrow> field ''state'' string_from_json v;
     if tag = ''AWAITING_INIT'' then Some AwaitingInit
     else if tag = ''ACTIVE'' then do {
       init_height' \<leftarrow> field ''init_height'' uint_from_json v;
       h_open' \<leftarrow> field ''h_open'' uint_from_json v;
       h_close' \<leftarrow> field ''h_close'' uint_from_json v;
       Some (ProtocolActive init_height' h_open' h_close')
     }
     else if tag = ''FAILED_INIT'' then do {
       reason' \<leftarrow> field ''reason'' reason_from_json v;
       init_height' \<leftarrow> field ''init_height'' uint_from_json v;
       Some (FailedInit reason' init_height')
     }
     else None
   }"

text \<open>\<open>BTreeMap<Hash32, ObjectState>\<close>: the keys are the members' names, and reading inserts in turn.\<close>

definition objects_to_json :: "externals \<Rightarrow> (hash32, object_state) btreemap \<Rightarrow> json" where
  "objects_to_json X m = JObject (map (\<lambda>(k, ob). (hash32_to_hex X k, object_state_to_json X ob)) (bt_entries m))"

fun objects_from_json :: "externals \<Rightarrow> json \<Rightarrow> (hash32, object_state) btreemap option" where
  "objects_from_json X (JObject ms) =
     map_option bt_collect
       (those (map (\<lambda>(s, v). do {
          k \<leftarrow> hash32_deserialize X (JString s);
          ob \<leftarrow> object_state_from_json X v;
          Some (k, ob)
        }) ms))"
| "objects_from_json X _ = None"

definition pair_to_json :: "externals \<Rightarrow> outpoint_ref \<times> hash32 \<Rightarrow> json" where
  "pair_to_json X p = JArray [outpoint_to_json X (fst p), hash32_serialize X (snd p)]"

fun pair_from_json :: "externals \<Rightarrow> json \<Rightarrow> (outpoint_ref \<times> hash32) option" where
  "pair_from_json X (JArray [v, w]) = do {
     p \<leftarrow> outpoint_from_json X v;
     h \<leftarrow> hash32_deserialize X w;
     Some (p, h)
   }"
| "pair_from_json X _ = None"

definition outpoint_map_to_json :: "externals \<Rightarrow> (outpoint_ref, hash32) btreemap \<Rightarrow> json" where
  "outpoint_map_to_json X m = list_to_json (pair_to_json X) (outpoint_map_serialize m)"

definition outpoint_map_from_json :: "externals \<Rightarrow> json \<Rightarrow> (outpoint_ref, hash32) btreemap option" where
  "outpoint_map_from_json X v = do {
     pairs \<leftarrow> list_from_json (pair_from_json X) v;
     case outpoint_map_deserialize pairs of Ok m \<Rightarrow> Some m | _ \<Rightarrow> None
   }"

definition chain_state_to_json :: "externals \<Rightarrow> chain_state \<Rightarrow> json" where
  "chain_state_to_json X r =
     JObject [(''binding'', binding_to_json X (binding_of r)),
       (''protocol_status'', protocol_status_to_json (protocol_status r)),
       (''tip_height'', option_to_json uint_to_json (tip_height r)),
       (''tip_hash'', option_to_json (hash32_serialize X) (tip_hash r)),
       (''chained_root'', hash32_serialize X (cs_chained_root r)), (''objects'', objects_to_json X (objects r)),
       (''active'', outpoint_map_to_json X (active r))]"

definition chain_state_from_json :: "externals \<Rightarrow> json \<Rightarrow> chain_state option" where
  "chain_state_from_json X v = do {
     binding' \<leftarrow> field ''binding'' (binding_from_json X) v;
     protocol_status' \<leftarrow> field ''protocol_status'' protocol_status_from_json v;
     tip_height' \<leftarrow> optional_field ''tip_height'' uint_from_json v;
     tip_hash' \<leftarrow> optional_field ''tip_hash'' (hash32_deserialize X) v;
     chained_root' \<leftarrow> field ''chained_root'' (hash32_deserialize X) v;
     objects' \<leftarrow> field ''objects'' (objects_from_json X) v;
     active' \<leftarrow> field ''active'' (outpoint_map_from_json X) v;
     Some \<lparr>binding_of = binding', protocol_status = protocol_status', tip_height = tip_height', tip_hash = tip_hash',
           cs_chained_root = chained_root', objects = objects', active = active'\<rparr>
   }"

definition counters_to_json :: "counters \<Rightarrow> json" where
  "counters_to_json r =
     JObject [(''founding_created'', uint_to_json (founding_created r)), (''all_objects'', uint_to_json (all_objects r)),
       (''active_objects'', uint_to_json (active_objects r))]"

definition counters_from_json :: "json \<Rightarrow> counters option" where
  "counters_from_json v = do {
     founding_created' \<leftarrow> field ''founding_created'' uint_from_json v;
     all_objects' \<leftarrow> field ''all_objects'' uint_from_json v;
     active_objects' \<leftarrow> field ''active_objects'' uint_from_json v;
     Some \<lparr>founding_created = founding_created', all_objects = all_objects', active_objects = active_objects'\<rparr>
   }"

definition height_roots_to_json :: "externals \<Rightarrow> height_roots \<Rightarrow> json" where
  "height_roots_to_json X r =
     JObject [(''height'', uint_to_json (hr_height r)), (''block_hash'', hash32_serialize X (hr_block_hash r)),
       (''event_root'', hash32_serialize X (hr_event_root r)),
       (''object_state_root'', hash32_serialize X (hr_object_state_root r)),
       (''chained_root'', hash32_serialize X (hr_chained_root r)), (''counters'', counters_to_json (hr_counters r))]"

definition height_roots_from_json :: "externals \<Rightarrow> json \<Rightarrow> height_roots option" where
  "height_roots_from_json X v = do {
     height' \<leftarrow> field ''height'' uint_from_json v;
     block_hash' \<leftarrow> field ''block_hash'' (hash32_deserialize X) v;
     event_root' \<leftarrow> field ''event_root'' (hash32_deserialize X) v;
     object_state_root' \<leftarrow> field ''object_state_root'' (hash32_deserialize X) v;
     chained_root' \<leftarrow> field ''chained_root'' (hash32_deserialize X) v;
     counters' \<leftarrow> field ''counters'' counters_from_json v;
     Some \<lparr>hr_height = height', hr_block_hash = block_hash', hr_event_root = event_root',
           hr_object_state_root = object_state_root', hr_chained_root = chained_root', hr_counters = counters'\<rparr>
   }"

definition block_delta_to_json :: "externals \<Rightarrow> block_delta \<Rightarrow> json" where
  "block_delta_to_json X r =
     JObject [(''before'', chain_state_to_json X (bd_before r)), (''block_hash'', hash32_serialize X (bd_block_hash r)),
       (''previous_hash'', hash32_serialize X (bd_previous_hash r)), (''height'', uint_to_json (bd_height r)),
       (''events'', list_to_json (event_to_json X) (bd_events r)), (''roots'', height_roots_to_json X (bd_roots r))]"

definition block_delta_from_json :: "externals \<Rightarrow> json \<Rightarrow> block_delta option" where
  "block_delta_from_json X v = do {
     before' \<leftarrow> field ''before'' (chain_state_from_json X) v;
     block_hash' \<leftarrow> field ''block_hash'' (hash32_deserialize X) v;
     previous_hash' \<leftarrow> field ''previous_hash'' (hash32_deserialize X) v;
     height' \<leftarrow> field ''height'' uint_from_json v;
     events' \<leftarrow> field ''events'' (list_from_json (event_from_json X)) v;
     roots' \<leftarrow> field ''roots'' (height_roots_from_json X) v;
     Some \<lparr>bd_before = before', bd_block_hash = block_hash', bd_previous_hash = previous_hash', bd_height = height',
           bd_events = events', bd_roots = roots'\<rparr>
   }"
section \<open>Reading undoes writing\<close>

lemma struct_codec:
  assumes "\<And>r. to_json r = JObject (members r)" and "\<And>r. distinct (map fst (members r))"
    and "\<And>r. \<forall>(k, v)\<in>set (members r). same_value v v"
    and "\<And>r v. same_value (JObject (members r)) v \<Longrightarrow> from_json v = Some r"
  shows "json_codec to_json from_json"
  by unfold_locales (use assms object_well_formed in auto)

interpretation text_codec: nonnull_codec JString string_from_json
  by unfold_locales auto

interpretation network: nonnull_codec network_to_json network_from_json
  unfolding network_to_json_def network_from_json_def
  apply (rule enum_codec)
   apply code_simp
  subgoal for x by (cases x) simp_all
  done

interpretation reason: nonnull_codec reason_to_json reason_from_json
  unfolding reason_to_json_def reason_from_json_def
  apply (rule enum_codec)
   apply code_simp
  subgoal for x by (cases x) simp_all
  done

interpretation event_type: nonnull_codec event_type_to_json event_type_from_json
  unfolding event_type_to_json_def event_type_from_json_def
  apply (rule enum_codec)
   apply code_simp
  subgoal for x by (cases x) simp_all
  done

interpretation validity_class: nonnull_codec validity_class_to_json validity_class_from_json
  unfolding validity_class_to_json_def validity_class_from_json_def
  apply (rule enum_codec)
   apply code_simp
  subgoal for x by (cases x) simp_all
  done

interpretation object_status: nonnull_codec object_status_to_json object_status_from_json
  unfolding object_status_to_json_def object_status_from_json_def
  apply (rule enum_codec)
   apply code_simp
  subgoal for x by (cases x) simp_all
  done

interpretation counters: json_codec counters_to_json counters_from_json
proof (rule struct_codec [OF counters_to_json_def])
  show "counters_from_json v = Some r"
    if s: "same_value (JObject [(''founding_created'', uint_to_json (founding_created r)),
       (''all_objects'', uint_to_json (all_objects r)), (''active_objects'', uint_to_json (active_objects r))]) v" for r v
    by (simp add: counters_from_json_def uint.field_read [OF s])
qed (auto simp: uint.well_formed)

lemma hash_codec:
  assumes "hex_laws X"
  shows "nonnull_codec (hash32_serialize X) (hash32_deserialize X)"
  by unfold_locales (auto simp: hash32_serialize_def hash32_deserialize_def hash_texts [OF assms])

lemma key_codec:
  assumes "hex_laws X"
  shows "nonnull_codec (key33_serialize X) (key33_deserialize X)"
  by unfold_locales (auto simp: key33_serialize_def key33_deserialize_def hash_texts [OF assms])

text \<open>What the codecs of structs rest on: the interpretations above, and these.\<close>

lemma hex_bytes_codec:
  assumes "hex_laws X"
  shows "json_codec (hex_bytes_to_json X) (hex_bytes_from_json X)"
  using assms
  by unfold_locales (auto simp: hex_bytes_to_json_def hex_bytes_from_json_def hex_bytes_serialize_def
      hex_bytes_deserialize_def hex_laws_def)

lemma hex_vec_deserialize_serialize:
  assumes "hex_laws X"
  shows "hex_vec_deserialize X (hex_vec_serialize X xs) = Ok xs"
  using assms
  by (induction xs) (simp_all add: hex_vec_serialize_def hex_bytes_deserialize_def hex_laws_def)

lemma hex_vec_codec:
  assumes "hex_laws X"
  shows "json_codec (hex_vec_to_json X) (hex_vec_from_json X)"
proof
  note texts = list_codec [OF text_codec.json_codec_axioms]
  show "same_value (hex_vec_to_json X xs) (hex_vec_to_json X xs)" for xs
    by (simp add: hex_vec_to_json_def json_codec.well_formed [OF texts])
  show "hex_vec_from_json X v = Some xs" if "same_value (hex_vec_to_json X xs) v" for xs v
    using json_codec.read_back [OF texts] that
    by (simp add: hex_vec_to_json_def hex_vec_from_json_def hex_vec_deserialize_serialize [OF assms])
qed

lemma hash_key_codecs:
  assumes "hex_laws X"
  shows "json_codec (hash32_serialize X) (hash32_deserialize X)" and "json_codec (key33_serialize X) (key33_deserialize X)"
    and "json_codec (option_to_json (hash32_serialize X)) (option_from_json (hash32_deserialize X))"
  using hash_codec [OF assms] key_codec [OF assms] by (simp_all add: nonnull_codec.axioms(1) option_codec)

lemma outpoint_codec:
  assumes "hex_laws X"
  shows "json_codec (outpoint_to_json X) (outpoint_from_json X)"
proof (rule struct_codec [OF outpoint_to_json_def], goal_cases)
  note hash = hash_key_codecs(1) [OF assms]
  case (2 r)
  show ?case by (simp add: json_codec.well_formed [OF hash] uint.well_formed)
  case (3 r v)
  show ?case by (simp add: outpoint_from_json_def json_codec.field_read [OF hash 3] uint.field_read [OF 3])
qed simp

lemma key_pair_codec:
  assumes "hex_laws X"
  shows "json_codec (key_pair_to_json X) (key_pair_from_json X)"
proof (rule struct_codec [OF key_pair_to_json_def], goal_cases)
  note key = hash_key_codecs(2) [OF assms]
  case (2 r)
  show ?case by (simp add: json_codec.well_formed [OF key])
  case (3 r v)
  show ?case by (simp add: key_pair_from_json_def json_codec.field_read [OF key 3])
qed simp

lemma binding_codec:
  assumes "hex_laws X"
  shows "json_codec (binding_to_json X) (binding_from_json X)"
proof (rule struct_codec [OF binding_to_json_def], goal_cases)
  note hash = hash_key_codecs(1) [OF assms]
  case (2 r)
  show ?case by (simp add: json_codec.well_formed [OF hash] network.well_formed)
  case (3 r v)
  show ?case by (simp add: binding_from_json_def json_codec.field_read [OF hash 3] network.field_read [OF 3])
qed simp

lemma input_view_codec:
  assumes "hex_laws X"
  shows "json_codec (input_view_to_json X) (input_view_from_json X)"
proof (rule struct_codec [OF input_view_to_json_def], goal_cases)
  note point = outpoint_codec [OF assms] and bytes = hex_bytes_codec [OF assms] and stack = hex_vec_codec [OF
    assms]
  case (2 r)
  show ?case by (simp add: json_codec.well_formed [OF point] json_codec.well_formed [OF bytes]
    json_codec.well_formed [OF stack] uint.well_formed bool.well_formed uint.option_well_formed)
  case (3 r v)
  show ?case by (simp add: input_view_from_json_def json_codec.field_read [OF point 3] json_codec.field_read [OF
    bytes 3] json_codec.field_read [OF stack 3] uint.field_read [OF 3] bool.field_read [OF 3] optional_field_read
    [OF uint.opt.json_codec_axioms 3])
qed simp

lemma output_view_codec:
  assumes "hex_laws X"
  shows "json_codec (output_view_to_json X) (output_view_from_json X)"
proof (rule struct_codec [OF output_view_to_json_def], goal_cases)
  note bytes = hex_bytes_codec [OF assms]
  case (2 r)
  show ?case by (simp add: json_codec.well_formed [OF bytes] uint.well_formed)
  case (3 r v)
  show ?case by (simp add: output_view_from_json_def json_codec.field_read [OF bytes 3] uint.field_read [OF 3])
qed simp

lemma tx_view_codec:
  assumes "hex_laws X"
  shows "json_codec (tx_view_to_json X) (tx_view_from_json X)"
proof (rule struct_codec [OF tx_view_to_json_def], goal_cases)
  note hash = hash_key_codecs(1) [OF assms] and ins = list_codec [OF input_view_codec [OF assms]] and outs =
    list_codec [OF output_view_codec [OF assms]]
  case (2 r)
  show ?case by (simp add: json_codec.well_formed [OF hash] json_codec.well_formed [OF ins] json_codec.well_formed
    [OF outs] uint.well_formed sint.well_formed)
  case (3 r v)
  show ?case by (simp add: tx_view_from_json_def json_codec.field_read [OF hash 3] json_codec.field_read [OF ins
    3] json_codec.field_read [OF outs 3] uint.field_read [OF 3] sint.field_read [OF 3])
qed simp

lemma block_view_codec:
  assumes "hex_laws X"
  shows "json_codec (block_view_to_json X) (block_view_from_json X)"
proof (rule struct_codec [OF block_view_to_json_def], goal_cases)
  note hash = hash_key_codecs(1) [OF assms] and txs = list_codec [OF tx_view_codec [OF assms]]
  case (2 r)
  show ?case by (simp add: json_codec.well_formed [OF hash] json_codec.well_formed [OF txs] uint.well_formed)
  case (3 r v)
  show ?case by (simp add: block_view_from_json_def json_codec.field_read [OF hash 3] json_codec.field_read [OF
    txs 3] uint.field_read [OF 3])
qed simp

lemma event_codec:
  assumes "hex_laws X"
  shows "json_codec (event_to_json X) (event_from_json X)"
proof (rule struct_codec [OF event_to_json_def], goal_cases)
  note hash = hash_key_codecs(1) [OF assms] and key = hash_key_codecs(2) [OF assms] and point = outpoint_codec [OF
    assms]
  case (2 r)
  show ?case by (simp add: json_codec.well_formed [OF hash] json_codec.well_formed [OF key] json_codec.well_formed
    [OF point] uint.well_formed event_type.well_formed validity_class.well_formed reason.well_formed)
  case (3 r v)
  show ?case by (simp add: event_from_json_def json_codec.field_read [OF hash 3] json_codec.field_read [OF key 3]
    json_codec.field_read [OF point 3] uint.field_read [OF 3] event_type.field_read [OF 3] validity_class.field_read
    [OF 3] reason.field_read [OF 3])
qed simp

lemma object_state_codec:
  assumes "hex_laws X"
  shows "json_codec (object_state_to_json X) (object_state_from_json X)"
proof (rule struct_codec [OF object_state_to_json_def], goal_cases)
  note hash = hash_key_codecs(1) [OF assms] and point = outpoint_codec [OF assms] and pair = key_pair_codec [OF
    assms]
  case (2 r)
  show ?case by (simp add: json_codec.well_formed [OF hash] json_codec.well_formed [OF point]
    json_codec.well_formed [OF pair] uint.well_formed bool.well_formed object_status.well_formed)
  case (3 r v)
  show ?case by (simp add: object_state_from_json_def json_codec.field_read [OF hash 3] json_codec.field_read [OF
    point 3] json_codec.field_read [OF pair 3] uint.field_read [OF 3] bool.field_read [OF 3]
    object_status.field_read [OF 3])
qed simp

lemma height_roots_codec:
  assumes "hex_laws X"
  shows "json_codec (height_roots_to_json X) (height_roots_from_json X)"
proof (rule struct_codec [OF height_roots_to_json_def], goal_cases)
  note hash = hash_key_codecs(1) [OF assms]
  case (2 r)
  show ?case by (simp add: json_codec.well_formed [OF hash] uint.well_formed counters.well_formed)
  case (3 r v)
  show ?case by (simp add: height_roots_from_json_def json_codec.field_read [OF hash 3] uint.field_read [OF 3]
    counters.field_read [OF 3])
qed simp

text \<open>The protocol status, by its tag.\<close>

interpretation protocol_status: json_codec protocol_status_to_json protocol_status_from_json
proof
  show "same_value (protocol_status_to_json st) (protocol_status_to_json st)" for st
    by (cases st) (auto intro!: object_well_formed simp: uint.well_formed reason.well_formed)
  show "protocol_status_from_json v = Some st" if s: "same_value (protocol_status_to_json st) v" for st v
  proof (cases st)
    case AwaitingInit
    note s' = s [unfolded this protocol_status_to_json.simps]
    show ?thesis by (simp add: AwaitingInit protocol_status_from_json_def text_codec.field_read [OF s'])
  next
    case (ProtocolActive ih ho hc)
    note s' = s [unfolded this protocol_status_to_json.simps]
    show ?thesis
      by (simp add: ProtocolActive protocol_status_from_json_def text_codec.field_read [OF s'] uint.field_read [OF s'])
  next
    case (FailedInit rsn ih)
    note s' = s [unfolded this protocol_status_to_json.simps]
    show ?thesis
      by (simp add: FailedInit protocol_status_from_json_def text_codec.field_read [OF s'] uint.field_read [OF s']
          reason.field_read [OF s'])
  qed
qed

text \<open>The objects: distinct keys have distinct names, so the order in which they are inserted does not matter.\<close>

lemma hex_inject:
  assumes "hex_laws X"
  shows "inj (hash32_to_hex X)"
  using hash_texts(1) [OF assms] by (metis injI res.inject(1))

lemma objects_codec:
  assumes "hex_laws X"
  shows "json_codec (objects_to_json X) (objects_from_json X)"
proof
  note ob = object_state_codec [OF assms] and inj = hex_inject [OF assms]
  show "same_value (objects_to_json X m) (objects_to_json X m)" for m
  proof -
    have "distinct (map (hash32_to_hex X \<circ> fst) (bt_entries m))"
      using bt.entries_distinct [of m] inj by (metis distinct_map inj_on_subset map_map subset_UNIV)
    then show ?thesis
      unfolding objects_to_json_def
      by (intro object_well_formed) (auto simp: json_codec.well_formed [OF ob] comp_def case_prod_unfold)
  qed
  show "objects_from_json X v = Some m" if s: "same_value (objects_to_json X m) v" for m v
  proof -
    obtain ns where v: "v = JObject ns" using s same_objectD unfolding objects_to_json_def by blast
    obtain es where es: "set es = set (bt_entries m)" "distinct (map fst es)"
        "list_all2 (\<lambda>(s, w) (k, x). s = hash32_to_hex X k \<and> same_value (object_state_to_json X x) w) ns es"
      using map_members [OF s [unfolded objects_to_json_def v] inj bt.entries_distinct] by blast
    from es(3) have "those (map (\<lambda>(s, v). do { k \<leftarrow> hash32_deserialize X (JString s); ob \<leftarrow> object_state_from_json X v; Some (k, ob) }) ns) = Some es"
      by (induction rule: list_all2_induct)
        (auto simp: hash32_deserialize_def hash_texts [OF assms] json_codec.read_back [OF ob])
    moreover have "bt_collect es = m"
    proof (rule bt.ext_map)
      have "map_of es = map_of (bt_entries m)"
        using map_of_inject_set [OF es(2) bt.entries_distinct [of m]] es(1) by simp
      then show "bt_get (bt_collect es) = bt_get m"
        unfolding bt_collect_get_distinct [OF es(2)] bt.entries_get [of m] .
    qed
    ultimately show ?thesis by (simp add: v)
  qed
qed

lemma pair_codec:
  assumes "hex_laws X"
  shows "json_codec (pair_to_json X) (pair_from_json X)"
proof
  note point = outpoint_codec [OF assms] and hash = hash_key_codecs(1) [OF assms]
  show "same_value (pair_to_json X p) (pair_to_json X p)" for p
    by (simp add: pair_to_json_def json_codec.well_formed [OF point] json_codec.well_formed [OF hash])
  show "pair_from_json X v = Some p" if "same_value (pair_to_json X p) v" for p v
    using that
    by (auto simp: pair_to_json_def list_all2_Cons1 json_codec.read_back [OF point] json_codec.read_back [OF hash])
qed

lemma outpoint_map_deserialize_serialize: "outpoint_map_deserialize (outpoint_map_serialize m) = Ok m"
  by (simp add: outpoint_map_deserialize_def outpoint_map_serialize_def bt_collect_entries bt_len_def)

lemma outpoint_map_codec:
  assumes "hex_laws X"
  shows "json_codec (outpoint_map_to_json X) (outpoint_map_from_json X)"
proof
  note pairs = list_codec [OF pair_codec [OF assms]]
  show "same_value (outpoint_map_to_json X m) (outpoint_map_to_json X m)" for m
    by (simp add: outpoint_map_to_json_def json_codec.well_formed [OF pairs])
  show "outpoint_map_from_json X v = Some m" if "same_value (outpoint_map_to_json X m) v" for m v
    using that json_codec.read_back [OF pairs]
    by (simp add: outpoint_map_to_json_def outpoint_map_from_json_def outpoint_map_deserialize_serialize)
qed

lemma chain_state_codec:
  assumes "hex_laws X"
  shows "json_codec (chain_state_to_json X) (chain_state_from_json X)"
proof (rule struct_codec [OF chain_state_to_json_def], goal_cases)
  note bind = binding_codec [OF assms] and hash = hash_key_codecs(1) [OF assms] and ohash = hash_key_codecs(3) [OF
    assms] and objs = objects_codec [OF assms] and act = outpoint_map_codec [OF assms]
  case (2 r)
  show ?case by (simp add: json_codec.well_formed [OF bind] json_codec.well_formed [OF hash]
    json_codec.well_formed [OF ohash] json_codec.well_formed [OF objs] json_codec.well_formed [OF act]
    protocol_status.well_formed uint.option_well_formed)
  case (3 r v)
  show ?case by (simp add: chain_state_from_json_def json_codec.field_read [OF bind 3] json_codec.field_read [OF
    hash 3] json_codec.field_read [OF objs 3] json_codec.field_read [OF act 3] protocol_status.field_read [OF 3]
    optional_field_read [OF uint.opt.json_codec_axioms 3] optional_field_read [OF ohash 3])
qed simp

lemma block_delta_codec:
  assumes "hex_laws X"
  shows "json_codec (block_delta_to_json X) (block_delta_from_json X)"
proof (rule struct_codec [OF block_delta_to_json_def], goal_cases)
  note state = chain_state_codec [OF assms] and hash = hash_key_codecs(1) [OF assms] and evs = list_codec [OF
    event_codec [OF assms]] and roots = height_roots_codec [OF assms]
  case (2 r)
  show ?case by (simp add: json_codec.well_formed [OF state] json_codec.well_formed [OF hash]
    json_codec.well_formed [OF evs] json_codec.well_formed [OF roots] uint.well_formed)
  case (3 r v)
  show ?case by (simp add: block_delta_from_json_def json_codec.field_read [OF state 3] json_codec.field_read [OF
    hash 3] json_codec.field_read [OF evs 3] json_codec.field_read [OF roots 3] uint.field_read [OF 3])
qed simp

end
