(* ===== verification/Codec_Properties.thy ===== *)
theory Codec_Properties
  imports Concrete_Chain Serde
begin

text \<open>
  Properties of the encodings: the scripts the marker parser accepts, what the hash preimages
  determine, what a root binds, and the textual and serialized forms of the data types.
\<close>

section \<open>Markers\<close>

text \<open>
  C25. A script is accepted as a marker exactly when it is the canonical push of a well-formed
  payload: the direct push up to 75 bytes and \<open>OP_PUSHDATA1\<close> above. The parsed fields are the bytes
  of that payload.
\<close>

theorem accepted_markers_are_canonical:
  "(\<exists>c. find_marker_candidate script vout = Some c \<and> parse c = Ok m) \<longleftrightarrow>
     payload_ok (pm_payload m) \<and> m = marker_of vout (pm_payload m) \<and>
     (marker_script (pm_payload m) :: (marker_error, bytes) res) = Ok script"
  using find_parse_iff [of script vout m] by (simp add: marker_script_def res_simps)

section \<open>Preimages\<close>

text \<open>The 371-byte preimage of an event leaf determines every field of the event.\<close>

theorem event_preimage_determines_event:
  "length (event_preimage e) = 371 \<and> (event_preimage e = event_preimage e' \<longleftrightarrow> e = e')"
  by (simp add: length_event_preimage event_preimage_inject)

text \<open>
  The preimage of an object leaf determines the snapshot of the object: every field except the
  genesis outpoint (which the key commits to), with the outpoint of an active object and the
  terminal transaction of a terminated one.
\<close>

theorem object_preimage_determines_snapshot:
  "length (object_state_preimage a) = 204 \<and>
   (object_state_preimage a = object_state_preimage b \<longleftrightarrow> snapshot_view a = snapshot_view b)"
  by (simp add: length_object_state_preimage object_state_preimage_inject)

text \<open>
  C26. Equal block roots under a digest that does not collide on the two preimages come from equal
  tuples: namespace, previous root, block hash, height, both roots and the counters.
\<close>

theorem block_root_binds_its_tuple:
  assumes "block_root X ns pr bh h er obr c = block_root X ns' pr' bh' h' er' obr' c'"
    and "inj_on (sha256_digest X)
      {block_root_preimage ns pr bh h er obr c, block_root_preimage ns' pr' bh' h' er' obr' c'}"
  shows "ns = ns' \<and> pr = pr' \<and> bh = bh' \<and> h = h' \<and> er = er' \<and> obr = obr' \<and> c = c'"
proof -
  have "block_root_preimage ns pr bh h er obr c = block_root_preimage ns' pr' bh' h' er' obr' c'"
    by (rule inj_onD [OF assms(2)]) (use assms(1) in \<open>simp_all add: block_root_def hash32_sha256_def\<close>)
  then show ?thesis by (simp add: block_root_preimage_inject)
qed

definition demo_counters :: counters where
  "demo_counters = \<lparr>founding_created = 1, all_objects = 1, active_objects = 0\<rparr>"

theorem block_root_binds_its_tuple_witness:
  "block_root demo_externals (demo_hash 1) (demo_hash 2) (demo_hash 3) (3 + 4) (demo_hash 4) (demo_hash 5) demo_counters =
     block_root demo_externals (demo_hash 1) (demo_hash 2) (demo_hash 3) 7 (demo_hash 4) (demo_hash 5) demo_counters \<and>
   (3 + 4 :: u64) = 7"
  using block_root_binds_its_tuple [of demo_externals "demo_hash 1" "demo_hash 2" "demo_hash 3" "3 + 4"
      "demo_hash 4" "demo_hash 5" demo_counters "demo_hash 1" "demo_hash 2" "demo_hash 3" 7
      "demo_hash 4" "demo_hash 5" demo_counters] by simp

text \<open>
  The hash domains are separated: preimages of different kinds never coincide, in particular a
  leaf is never the preimage of an inner node.
\<close>

theorem hash_domains_are_separated:
  "event_preimage e \<noteq> node_preimage (ascii ''TANDEM/EVENT-NODE'' @ [0]) a b \<and>
   event_preimage e \<noteq> object_state_preimage ob \<and>
   event_preimage e \<noteq> block_root_preimage ns pr bh h er obr c \<and>
   object_state_preimage ob \<noteq> node_preimage (ascii ''TANDEM/OBJECT-NODE'' @ [0]) a b \<and>
   object_state_preimage ob \<noteq> block_root_preimage ns pr bh h er obr c \<and>
   object_state_preimage ob \<noteq> object_key_preimage ns t \<and>
   node_preimage (ascii ''TANDEM/EVENT-NODE'' @ [0]) a b \<noteq> node_preimage (ascii ''TANDEM/OBJECT-NODE'' @ [0]) a' b' \<and>
   namespace_preimage bnd \<noteq> object_key_preimage ns t \<and>
   namespace_preimage bnd \<noteq> state_empty_preimage ns \<and>
   object_key_preimage ns t \<noteq> event_preimage e \<and>
   block_root_preimage ns pr bh h er obr c \<noteq> state_empty_preimage ns'"
  by (simp add: event_preimage_def node_preimage_def object_state_preimage_def block_root_preimage_def
      object_key_preimage_def namespace_preimage_def state_empty_preimage_def ascii_def)

section \<open>Merkle roots\<close>

text \<open>The byte strings hashed in the computation of an event root.\<close>

definition event_tree_preimages :: "externals \<Rightarrow> event list \<Rightarrow> bytes set" where
  "event_tree_preimages X es =
     set (map event_preimage es) \<union>
     set (merkle_preimages X (ascii ''TANDEM/EVENT-NODE'' @ [0]) (map (event_leaf X) (sort_key event_order es)))"

text \<open>
  C27. The event root binds the events: two lists of equally many events with the same root are the
  same list up to the canonical order, unless SHA-256 collides on one of the byte strings hashed in
  the two computations.
\<close>

theorem event_root_binds_events:
  assumes "event_root X ns es = (Ok r :: (reducer_error, hash32) res)"
    and "event_root X ns es' = (Ok r :: (reducer_error, hash32) res)"
    and "length es = length es'"
    and "inj_on (sha256_digest X) (event_tree_preimages X es \<union> event_tree_preimages X es')"
  shows "sort_key event_order es = sort_key event_order es'"
proof (cases "es = []")
  case False
  with assms(3) have ne: "es' \<noteq> []" by auto
  let ?d = "ascii ''TANDEM/EVENT-NODE'' @ [0]"
  let ?l = "map (event_leaf X) (sort_key event_order es)" and ?l' = "map (event_leaf X) (sort_key event_order es')"
  have leaves: "?l = ?l'"
  proof (rule merkle_inject)
    show "merkle X ?l ?d = (Ok r :: (reducer_error, hash32) res)"
      and "merkle X ?l' ?d = (Ok r :: (reducer_error, hash32) res)"
      using assms(1,2) False ne by (simp_all add: event_root_def)
    show "inj_on (sha256_digest X) (set (merkle_preimages X ?d ?l) \<union> set (merkle_preimages X ?d ?l'))"
      by (rule inj_on_subset [OF assms(4)]) (auto simp: event_tree_preimages_def)
  qed (simp add: assms(3))
  have "inj_on (event_leaf X) (set es \<union> set es')"
  proof (rule inj_onI)
    fix a b
    assume "a \<in> set es \<union> set es'" "b \<in> set es \<union> set es'" "event_leaf X a = event_leaf X b"
    then have "event_preimage a = event_preimage b"
      using inj_onD [OF assms(4), of "event_preimage a" "event_preimage b"]
      by (auto simp: event_tree_preimages_def event_leaf_def hash32_sha256_def)
    then show "a = b" by (simp add: event_preimage_inject)
  qed
  then show ?thesis using map_inj_on [OF leaves] by simp
qed (use assms(3) in simp)

text \<open>
  Three events of one block in two orders, under a digest that samples three bytes of the string and
  so keeps the three leaves and the three inner nodes apart.
\<close>

definition sampled :: "nat \<Rightarrow> bytes \<Rightarrow> u8" where
  "sampled n bs = hd (drop n bs @ [0])"

definition sampling_externals :: externals where
  "sampling_externals =
     demo_externals\<lparr>sha256_digest := (\<lambda>bs. array_of [sampled 85 bs, sampled 18 bs, sampled 50 bs])\<rparr>"

definition demo_event :: "u32 \<Rightarrow> event" where
  "demo_event i = bare_invalid_event (demo_block 1108 []) demo_create i 0 EvInvalid MultipleMarkers hash32_ZERO"

definition event_tree_list :: "externals \<Rightarrow> event list \<Rightarrow> bytes list" where
  "event_tree_list X es =
     map event_preimage es @
     merkle_preimages X (ascii ''TANDEM/EVENT-NODE'' @ [0]) (map (event_leaf X) (sort_key event_order es))"

lemma demo_tree_distinct:
  "distinct (map (sha256_digest sampling_externals)
     (event_tree_list sampling_externals [demo_event 3, demo_event 1, demo_event 2]))"
  by code_simp

lemma demo_tree_orders:
  "set (event_tree_list sampling_externals [demo_event 2, demo_event 3, demo_event 1]) =
     set (event_tree_list sampling_externals [demo_event 3, demo_event 1, demo_event 2])"
  by code_simp

theorem event_root_binds_events_witness:
  "event_root sampling_externals (demo_hash 2) [demo_event 3, demo_event 1, demo_event 2] =
     (event_root sampling_externals (demo_hash 2) [demo_event 2, demo_event 3, demo_event 1]
        :: (reducer_error, hash32) res) \<and>
   length (event_tree_list sampling_externals [demo_event 3, demo_event 1, demo_event 2]) = 6 \<and>
   sort_key event_order [demo_event 3, demo_event 1, demo_event 2] =
     sort_key event_order [demo_event 2, demo_event 3, demo_event 1]"
proof -
  let ?X = sampling_externals
  let ?es = "[demo_event 3, demo_event 1, demo_event 2]" and ?es' = "[demo_event 2, demo_event 3, demo_event 1]"
  have tree: "event_tree_preimages X es = set (event_tree_list X es)" for X es
    by (simp add: event_tree_preimages_def event_tree_list_def)
  obtain r where r: "event_root ?X (demo_hash 2) ?es = (Ok r :: (reducer_error, hash32) res)"
    using event_root_total by blast
  have eq: "event_root ?X (demo_hash 2) ?es = (event_root ?X (demo_hash 2) ?es' :: (reducer_error, hash32) res)"
    by code_simp
  have inj: "inj_on (sha256_digest ?X) (event_tree_preimages ?X ?es \<union> event_tree_preimages ?X ?es')"
    using demo_tree_distinct by (simp only: tree demo_tree_orders Un_absorb distinct_map)
  have "sort_key event_order ?es = sort_key event_order ?es'"
    by (rule event_root_binds_events [OF r _ _ inj]) (use r eq in simp_all)
  moreover have "length (event_tree_list ?X ?es) = 6" by code_simp
  ultimately show ?thesis using eq by blast
qed

text \<open>
  An odd level repeats its last node, so a list of leaves and the list with its last leaf
  repeated have the same root: the number of leaves is not committed to by the root alone.
\<close>

theorem odd_level_repeats_its_last_leaf:
  assumes "odd (length xs)" and "1 < length xs"
  shows "merkle X (xs @ [last xs]) d = (merkle X xs d :: (reducer_error, hash32) res)"
proof -
  have "xs \<noteq> []" using assms(2) by auto
  with assms show ?thesis
    by (simp add: merkle_def merkle_loop.simps [of X d xs] merkle_loop.simps [of X d "xs @ _"]
        pad_level_def odd_iff_mod_2_eq_one)
qed

theorem odd_level_repeats_its_last_leaf_witness:
  "merkle demo_externals [demo_hash 1, demo_hash 2, demo_hash 3, demo_hash 3] [7] =
     (merkle demo_externals [demo_hash 1, demo_hash 2, demo_hash 3] [7] :: (reducer_error, hash32) res)"
  using odd_level_repeats_its_last_leaf [of "[demo_hash 1, demo_hash 2, demo_hash 3]" demo_externals "[7]"] by simp

section \<open>Keys and scripts\<close>

text \<open>
  The carrier decoder inverts the carrier encoder: an input with the two-signature witness of a
  key pair that spends that pair's carrier script yields exactly that pair if it is ordered and
  valid, and nothing otherwise.
\<close>

theorem carrier_keys_inverts_carrier_script:
  assumes "script_sig i = []" and "witness i = [[], sig0, sig1, witness_script ks]"
    and "prevout_script i = carrier_script X ks"
  shows "carrier_keys X i = checked X (key0 ks) (key1 ks)"
  using assms by (rule carrier_keys_encoded)

theorem carrier_keys_inverts_carrier_script_witness:
  "carrier_keys demo_externals (carrier_input demo_externals demo_keys created_point 7 0) = Some demo_keys"
proof -
  have "checked demo_externals (key0 demo_keys) (key1 demo_keys) = Some demo_keys" by code_simp
  moreover have "carrier_keys demo_externals (carrier_input demo_externals demo_keys created_point 7 0) =
      checked demo_externals (key0 demo_keys) (key1 demo_keys)"
    by (rule carrier_keys_inverts_carrier_script [where ?sig0.0 = "[0x30, 0x01]" and ?sig1.0 = "[0x30, 0x01]"])
      (simp_all add: carrier_input_def)
  ultimately show ?thesis by simp
qed

section \<open>Text and serialized forms\<close>

text \<open>
  A digest is recovered from its display form (reversed hexadecimal) and from its plain
  hexadecimal form.
\<close>

theorem hash_text_round_trip:
  assumes "hex_laws X"
  shows "wire_hash X (display_hash X h) = Ok h \<and> hash32_from_hex X (hash32_to_hex X h) = Ok h \<and>
    key33_from_hex X (key33_to_hex X k) = Ok k"
  by (simp add: hash_texts [OF assms])

theorem hash_text_round_trip_witness:
  "wire_hash demo_externals (display_hash demo_externals (demo_hash 20)) = Ok (demo_hash 20)"
  using hash_text_round_trip [OF demo_hex_laws] by blast

text \<open>
  The active index survives serialization, and a list of pairs is accepted exactly when no
  outpoint occurs twice; the index then holds exactly the pairs of the list.
\<close>

theorem outpoint_map_round_trip:
  "outpoint_map_deserialize (outpoint_map_serialize m) = Ok m \<and>
   (outpoint_map_deserialize pairs = Ok m' \<longleftrightarrow> distinct (map fst pairs) \<and> bt_get m' = map_of pairs)"
proof
  show "outpoint_map_deserialize (outpoint_map_serialize m) = Ok m" by (rule outpoint_map_deserialize_serialize)
  have "bt_len (bt_collect pairs) = length pairs \<longleftrightarrow> distinct (map fst pairs)"
    unfolding bt_len_collect using card_distinct [of "map fst pairs"] distinct_card [of "map fst pairs"]
    by auto
  moreover have "bt_get (bt_collect pairs) = map_of pairs" if "distinct (map fst pairs)"
    using bt_collect_get_distinct [OF that] .
  ultimately show "outpoint_map_deserialize pairs = Ok m' \<longleftrightarrow> distinct (map fst pairs) \<and> bt_get m' = map_of pairs"
    by (auto simp: outpoint_map_deserialize_def intro: bt.ext_map)
qed

text \<open>The witness stack and every byte string survive their hexadecimal serialization.\<close>

theorem hex_serialization_round_trip:
  assumes "hex_laws X"
  shows "hex_bytes_deserialize X (hex_bytes_serialize X bs) = Ok bs \<and>
    hex_vec_deserialize X (hex_vec_serialize X xs) = Ok xs"
  using assms hex_vec_deserialize_serialize [OF assms]
  by (simp add: hex_laws_def hex_bytes_deserialize_def hex_bytes_serialize_def)

theorem hex_serialization_round_trip_witness:
  "hex_vec_deserialize demo_externals (hex_vec_serialize demo_externals [[1, 255], []]) = Ok [[1, 255], []]"
  using hex_serialization_round_trip [OF demo_hex_laws] by blast

text \<open>A network name is accepted exactly when it is the label of that network.\<close>

theorem network_names_are_exact:
  "network_from_str s = Ok n \<longleftrightarrow> s = network_label n"
  by (cases n) (auto simp: network_from_str_def)

end
