(* ===== verification/Store.thy ===== *)
theory Store
  imports Chain_Runs
begin

text \<open>
  The canonical store, \<open>crates/tandem-verifier/src/store.rs\<close>, on the tables of
  \<open>migrations/\<close>. A table is the list of its rows, in the order of insertion; primary keys, unique
  columns, checks and the cascade of the migration are conditions of the statements. A transaction
  is a function on the database that is committed as a whole or not at all. What the server decides
  is an argument: whether the connection is lost and on which side of the commit (\<open>outage\<close>), and
  the sequence number and time it gives a journal row (\<open>stamp\<close>).

  JSON values are abstract: \<open>serde\<close> has the conversions that \<open>serde_json\<close> derives, and
  \<open>serde_laws\<close> says that what was written can be read back. A \<open>bigint\<close> is an \<open>int\<close>, a
  \<open>numeric\<close> a \<open>nat\<close>, a \<open>bytea\<close> a list of bytes.
\<close>

section \<open>Values\<close>

record release_identity =
  parser_commit :: string
  indexer_commit :: string
  parser_binary_sha256 :: hash32
  indexer_binary_sha256 :: hash32

record 'j serde =
  binding_to_value :: "binding \<Rightarrow> 'j option"
  binding_from_value :: "'j \<Rightarrow> binding option"
  state_to_value :: "chain_state \<Rightarrow> 'j option"
  state_from_value :: "'j \<Rightarrow> chain_state option"
  delta_to_value :: "block_delta \<Rightarrow> 'j option"
  delta_from_value :: "'j \<Rightarrow> block_delta option"
  event_to_value :: "event \<Rightarrow> 'j option"
  object_to_value :: "object_state \<Rightarrow> 'j option"
  tx_to_value :: "tx_view \<Rightarrow> 'j option"

definition serde_laws :: "'j serde \<Rightarrow> bool" where
  "serde_laws D \<longleftrightarrow>
     (\<forall>b. \<exists>v. binding_to_value D b = Some v \<and> binding_from_value D v = Some b) \<and>
     (\<forall>s. \<exists>v. state_to_value D s = Some v \<and> state_from_value D v = Some s) \<and>
     (\<forall>d. \<exists>v. delta_to_value D d = Some v \<and> delta_from_value D v = Some d) \<and>
     (\<forall>e. event_to_value D e \<noteq> None) \<and> (\<forall>ob. object_to_value D ob \<noteq> None) \<and> (\<forall>t. tx_to_value D t \<noteq> None)"

datatype store_error =
    Unavailable | RowNotFound | NotSerializable | BindingCorrupt | OtherDeployment | StateCorrupt
  | PostHeightMismatch | PostHashMismatch | StateChanged | HeightExceedsBigint
  | CheckViolated | UniqueViolated | ForeignKeyViolated
  | NoInverseJournal | DeltaCorrupt | JournalMismatch | HashLength | InvalidCounter

section \<open>Tables\<close>

record 'j state_row =
  sr_binding :: 'j
  sr_state :: 'j

record 'j block_row =
  br_height :: int
  br_block_hash :: bytes
  br_previous_hash :: bytes
  br_event_root :: bytes
  br_object_state_root :: bytes
  br_chained_root :: bytes
  br_founding_created :: nat
  br_all_objects :: nat
  br_active_objects :: nat
  br_parser_commit :: string
  br_indexer_commit :: string
  br_parser_binary_sha256 :: bytes
  br_indexer_binary_sha256 :: bytes
  br_inverse_delta :: 'j

record 'j event_row =
  er_height :: int
  er_tx_index :: int
  er_event_index :: int
  er_sub_index :: int
  er_txid :: bytes
  er_object_key :: bytes
  er_event_type :: int
  er_validity_class :: int
  er_reason :: int
  er_payload :: 'j

record 'j object_row =
  or_object_key :: bytes
  or_current_txid :: bytes
  or_current_vout :: int
  or_status :: int
  or_create_height :: int
  or_state_seq :: int
  or_payload :: 'j

record 'j mempool_row =
  mr_txid :: bytes
  mr_payload :: 'j

record reorg_row =
  rr_id :: int
  rr_disconnected_height :: int
  rr_disconnected_hash :: bytes
  rr_restored_height :: "int option"
  rr_restored_hash :: "bytes option"
  rr_observed_at :: string

record 'j database =
  protocol_state :: "'j state_row option"
  canonical_blocks :: "'j block_row list"
  canonical_events :: "'j event_row list"
  canonical_objects :: "'j object_row list"
  mempool_overlay :: "'j mempool_row list"
  reorg_journal :: "reorg_row list"

definition empty_database :: "'j database" where
  "empty_database =
     \<lparr>protocol_state = None, canonical_blocks = [], canonical_events = [], canonical_objects = [],
      mempool_overlay = [], reorg_journal = []\<rparr>"

text \<open>The \<open>CHECK\<close> constraints of the migration.\<close>

definition octets32 :: "bytes \<Rightarrow> bool" where
  "octets32 bs \<longleftrightarrow> length bs = 32"

text \<open>The pattern of the two commit columns: forty lower-case hexadecimal digits.\<close>

definition commit_text :: "string \<Rightarrow> bool" where
  "commit_text s \<longleftrightarrow> length s = 40 \<and> list_all (\<lambda>c. c \<in> set ''0123456789abcdef'') s"

definition block_row_ok :: "'j block_row \<Rightarrow> bool" where
  "block_row_ok r \<longleftrightarrow>
     0 \<le> br_height r \<and> octets32 (br_block_hash r) \<and> octets32 (br_previous_hash r) \<and>
     octets32 (br_event_root r) \<and> octets32 (br_object_state_root r) \<and> octets32 (br_chained_root r) \<and>
     br_founding_created r < 10 ^ 20 \<and> br_all_objects r < 10 ^ 20 \<and> br_active_objects r < 10 ^ 20 \<and>
     commit_text (br_parser_commit r) \<and> commit_text (br_indexer_commit r) \<and>
     octets32 (br_parser_binary_sha256 r) \<and> octets32 (br_indexer_binary_sha256 r)"

definition event_row_ok :: "'j event_row \<Rightarrow> bool" where
  "event_row_ok r \<longleftrightarrow> octets32 (er_txid r) \<and> octets32 (er_object_key r)"

definition object_row_ok :: "'j object_row \<Rightarrow> bool" where
  "object_row_ok r \<longleftrightarrow> octets32 (or_object_key r) \<and> octets32 (or_current_txid r)"

text \<open>The primary key of \<open>canonical_events\<close>.\<close>

definition event_row_key :: "'j event_row \<Rightarrow> int \<times> int \<times> int \<times> int" where
  "event_row_key r = (er_height r, er_tx_index r, er_event_index r, er_sub_index r)"

section \<open>Conversions\<close>

definition to_i64 :: "u64 \<Rightarrow> (store_error, int) res" where
  "to_i64 v = (if uint v < 2 ^ 63 then Ok (uint v) else Err HeightExceedsBigint)"

text \<open>\<open>map(to_i64).transpose()\<close>\<close>

definition transpose_i64 :: "u64 option \<Rightarrow> (store_error, int option) res" where
  "transpose_i64 v = (case v of None \<Rightarrow> Ok None | Some x \<Rightarrow> res_bind (to_i64 x) (\<lambda>i. Ok (Some i)))"

definition hash_from_bytes :: "bytes \<Rightarrow> (store_error, hash32) res" where
  "hash_from_bytes bs = ok_or HashLength (array_try_from bs)"

text \<open>The decimal text of a \<open>numeric\<close> column, read as a \<open>u64\<close>.\<close>

definition parse_counter :: "nat \<Rightarrow> (store_error, u64) res" where
  "parse_counter n = (if n < 2 ^ 64 then Ok (word_of_nat n) else Err InvalidCounter)"

definition block_row_of :: "'j serde \<Rightarrow> block_delta \<Rightarrow> release_identity \<Rightarrow> (store_error, 'j block_row) res" where
  "block_row_of D delta release =
     res_bind (to_i64 (bd_height delta)) (\<lambda>height.
     res_bind (ok_or NotSerializable (delta_to_value D delta)) (\<lambda>v.
     let roots = bd_roots delta; cnt = hr_counters roots in
     Ok \<lparr>br_height = height,
         br_block_hash = bytes_of (bd_block_hash delta),
         br_previous_hash = bytes_of (bd_previous_hash delta),
         br_event_root = bytes_of (hr_event_root roots),
         br_object_state_root = bytes_of (hr_object_state_root roots),
         br_chained_root = bytes_of (hr_chained_root roots),
         br_founding_created = unat (founding_created cnt),
         br_all_objects = unat (all_objects cnt),
         br_active_objects = unat (active_objects cnt),
         br_parser_commit = parser_commit release,
         br_indexer_commit = indexer_commit release,
         br_parser_binary_sha256 = bytes_of (parser_binary_sha256 release),
         br_indexer_binary_sha256 = bytes_of (indexer_binary_sha256 release),
         br_inverse_delta = v\<rparr>))"

definition event_row_of :: "'j serde \<Rightarrow> event \<Rightarrow> (store_error, 'j event_row) res" where
  "event_row_of D e =
     res_bind (to_i64 (ev_height e)) (\<lambda>height.
     res_bind (ok_or NotSerializable (event_to_value D e)) (\<lambda>v.
     Ok \<lparr>er_height = height,
         er_tx_index = uint (ev_tx_index e),
         er_event_index = uint (ev_event_index e),
         er_sub_index = uint (ev_sub_index e),
         er_txid = bytes_of (ev_txid e),
         er_object_key = bytes_of (ev_object_key e),
         er_event_type = uint (event_type_code (ev_event_type e)),
         er_validity_class = uint (validity_class_code (ev_validity_class e)),
         er_reason = uint (reason_code (ev_reason e)),
         er_payload = v\<rparr>))"

definition object_row_of :: "'j serde \<Rightarrow> object_state \<Rightarrow> (store_error, 'j object_row) res" where
  "object_row_of D ob =
     res_bind (to_i64 (ob_create_height ob)) (\<lambda>height.
     res_bind (ok_or NotSerializable (object_to_value D ob)) (\<lambda>v.
     Ok \<lparr>or_object_key = bytes_of (ob_object_key ob),
         or_current_txid = bytes_of (op_txid (ob_current_outpoint ob)),
         or_current_vout = uint (op_vout (ob_current_outpoint ob)),
         or_status = uint (object_status_code (ob_status ob)),
         or_create_height = height,
         or_state_seq = uint (ob_state_seq ob),
         or_payload = v\<rparr>))"

section \<open>Statements\<close>

definition insert_block :: "'j block_row \<Rightarrow> 'j database \<Rightarrow> (store_error, 'j database) res" where
  "insert_block r db =
     (if \<not> block_row_ok r then Err CheckViolated
      else if list_ex (\<lambda>q. br_height q = br_height r \<or> br_block_hash q = br_block_hash r) (canonical_blocks db)
      then Err UniqueViolated
      else Ok (db\<lparr>canonical_blocks := canonical_blocks db @ [r]\<rparr>))"

definition insert_event :: "'j event_row \<Rightarrow> 'j database \<Rightarrow> (store_error, 'j database) res" where
  "insert_event r db =
     (if \<not> event_row_ok r then Err CheckViolated
      else if list_ex (\<lambda>q. event_row_key q = event_row_key r) (canonical_events db) then Err UniqueViolated
      else if \<not> list_ex (\<lambda>q. br_height q = er_height r) (canonical_blocks db) then Err ForeignKeyViolated
      else Ok (db\<lparr>canonical_events := canonical_events db @ [r]\<rparr>))"

definition insert_object :: "'j object_row \<Rightarrow> 'j database \<Rightarrow> (store_error, 'j database) res" where
  "insert_object r db =
     (if \<not> object_row_ok r then Err CheckViolated
      else if list_ex (\<lambda>q. or_object_key q = or_object_key r) (canonical_objects db) then Err UniqueViolated
      else Ok (db\<lparr>canonical_objects := canonical_objects db @ [r]\<rparr>))"

definition insert_mempool :: "'j mempool_row \<Rightarrow> 'j database \<Rightarrow> (store_error, 'j database) res" where
  "insert_mempool r db =
     (if \<not> octets32 (mr_txid r) then Err CheckViolated
      else if list_ex (\<lambda>q. mr_txid q = mr_txid r) (mempool_overlay db) then Err UniqueViolated
      else Ok (db\<lparr>mempool_overlay := mempool_overlay db @ [r]\<rparr>))"

text \<open>\<open>DELETE FROM canonical_blocks WHERE height = h\<close>, which cascades to the events.\<close>

definition delete_block :: "int \<Rightarrow> 'j database \<Rightarrow> 'j database" where
  "delete_block h db =
     db\<lparr>canonical_blocks := filter (\<lambda>r. br_height r \<noteq> h) (canonical_blocks db),
        canonical_events := filter (\<lambda>r. er_height r \<noteq> h) (canonical_events db)\<rparr>"

fun insert_events :: "'j serde \<Rightarrow> event list \<Rightarrow> 'j database \<Rightarrow> (store_error, 'j database) res" where
  "insert_events D [] db = Ok db"
| "insert_events D (e # es) db =
     res_bind (event_row_of D e) (\<lambda>r. res_bind (insert_event r db) (insert_events D es))"

fun insert_objects :: "'j serde \<Rightarrow> object_state list \<Rightarrow> 'j database \<Rightarrow> (store_error, 'j database) res" where
  "insert_objects D [] db = Ok db"
| "insert_objects D (ob # obs) db =
     res_bind (object_row_of D ob) (\<lambda>r. res_bind (insert_object r db) (insert_objects D obs))"

definition sync_objects :: "'j serde \<Rightarrow> chain_state \<Rightarrow> 'j database \<Rightarrow> (store_error, 'j database) res" where
  "sync_objects D s db = insert_objects D (bt_values (objects s)) (db\<lparr>canonical_objects := []\<rparr>)"

definition save_state :: "'j serde \<Rightarrow> chain_state \<Rightarrow> 'j database \<Rightarrow> (store_error, 'j database) res" where
  "save_state D s db =
     res_bind (ok_or NotSerializable (state_to_value D s)) (\<lambda>v.
     Ok (db\<lparr>protocol_state := map_option (\<lambda>r. r\<lparr>sr_state := v\<rparr>) (protocol_state db)\<rparr>))"

definition load_state_for_update :: "'j serde \<Rightarrow> 'j database \<Rightarrow> (store_error, chain_state) res" where
  "load_state_for_update D db =
     res_bind (ok_or RowNotFound (protocol_state db)) (\<lambda>r.
     ok_or StateCorrupt (state_from_value D (sr_state r)))"

section \<open>Transactions\<close>

datatype outage = Reachable | Lost_before_commit | Lost_after_commit

text \<open>
  A transaction whose connection is lost before the commit leaves the database as it was; one whose
  acknowledgement is lost has happened. In both cases the caller sees an error.
\<close>

definition transact ::
    "outage \<Rightarrow> 'j database \<Rightarrow> ('j database \<Rightarrow> (store_error, 'j database \<times> 'r) res)
      \<Rightarrow> 'j database \<times> (store_error, 'r) res" where
  "transact f db body =
     (if f = Lost_before_commit then (db, Err Unavailable)
      else
        case body db of
          Ok (db', r) \<Rightarrow> (db', if f = Reachable then Ok r else Err Unavailable)
        | Err e \<Rightarrow> (db, Err e)
        | Panic \<Rightarrow> (db, Panic))"

definition bind_or_load ::
    "externals \<Rightarrow> 'j serde \<Rightarrow> outage \<Rightarrow> binding \<Rightarrow> 'j database \<Rightarrow> 'j database \<times> (store_error, chain_state) res" where
  "bind_or_load X D f b db = transact f db (\<lambda>db.
     case protocol_state db of
       Some r \<Rightarrow>
         res_bind (ok_or BindingCorrupt (binding_from_value D (sr_binding r))) (\<lambda>stored.
         if stored \<noteq> b then Err OtherDeployment
         else res_bind (ok_or StateCorrupt (state_from_value D (sr_state r))) (\<lambda>s. Ok (db, s)))
     | None \<Rightarrow>
         let s = chain_state_new X b in
         res_bind (ok_or NotSerializable (binding_to_value D b)) (\<lambda>bv.
         res_bind (ok_or NotSerializable (state_to_value D s)) (\<lambda>sv.
         Ok (db\<lparr>protocol_state := Some \<lparr>sr_binding = bv, sr_state = sv\<rparr>\<rparr>, s))))"

definition load_state :: "'j serde \<Rightarrow> outage \<Rightarrow> 'j database \<Rightarrow> (store_error, chain_state) res" where
  "load_state D f db = (if f \<noteq> Reachable then Err Unavailable else load_state_for_update D db)"

definition store_apply_block ::
    "'j serde \<Rightarrow> outage \<Rightarrow> chain_state \<Rightarrow> block_delta \<Rightarrow> release_identity \<Rightarrow> 'j database
      \<Rightarrow> 'j database \<times> (store_error, unit) res" where
  "store_apply_block D f post_state delta release db =
     (if tip_height post_state \<noteq> Some (bd_height delta) then (db, Err PostHeightMismatch)
      else if tip_hash post_state \<noteq> Some (bd_block_hash delta) then (db, Err PostHashMismatch)
      else transact f db (\<lambda>db.
        res_bind (load_state_for_update D db) (\<lambda>stored.
        if stored \<noteq> bd_before delta then Err StateChanged
        else
          res_bind (block_row_of D delta release) (\<lambda>r.
          res_bind (insert_block r db) (\<lambda>db1.
          res_bind (insert_events D (bd_events delta) db1) (\<lambda>db2.
          res_bind (sync_objects D post_state db2) (\<lambda>db3.
          res_bind (save_state D post_state db3) (\<lambda>db4.
          Ok (db4, ())))))))))"

text \<open>\<open>rollback_tip\<close> from the journal row it found; the row of the disconnected block goes.\<close>

definition rollback_block ::
    "'j serde \<Rightarrow> int \<times> string \<Rightarrow> chain_state \<Rightarrow> int \<Rightarrow> 'j block_row \<Rightarrow> 'j database
      \<Rightarrow> (store_error, 'j database \<times> chain_state option) res" where
  "rollback_block D stamp s h r db =
     res_bind (ok_or DeltaCorrupt (delta_from_value D (br_inverse_delta r))) (\<lambda>delta.
     let (s', disconnected) = disconnect_block s delta in
     res_bind (map_err (\<lambda>_. JournalMismatch) disconnected) (\<lambda>_.
     res_bind (sync_objects D s' (delete_block h db)) (\<lambda>db1.
     res_bind (save_state D s' db1) (\<lambda>db2.
     res_bind (transpose_i64 (tip_height s')) (\<lambda>restored.
     Ok (db2\<lparr>reorg_journal := reorg_journal db2 @
           [\<lparr>rr_id = fst stamp,
             rr_disconnected_height = h,
             rr_disconnected_hash = bytes_of (bd_block_hash delta),
             rr_restored_height = restored,
             rr_restored_hash = map_option bytes_of (tip_hash s'),
             rr_observed_at = snd stamp\<rparr>]\<rparr>,
         Some s'))))))"

definition rollback_tip ::
    "'j serde \<Rightarrow> outage \<Rightarrow> int \<times> string \<Rightarrow> 'j database \<Rightarrow> 'j database \<times> (store_error, chain_state option) res" where
  "rollback_tip D f stamp db = transact f db (\<lambda>db.
     res_bind (load_state_for_update D db) (\<lambda>s.
     case tip_height s of
       None \<Rightarrow> Ok (db, None)
     | Some tip \<Rightarrow>
         res_bind (to_i64 tip) (\<lambda>h.
         res_bind (ok_or NoInverseJournal (find (\<lambda>r. br_height r = h) (canonical_blocks db))) (\<lambda>r.
         rollback_block D stamp s h r db))))"

fun insert_mempool_rows :: "'j serde \<Rightarrow> tx_view list \<Rightarrow> 'j database \<Rightarrow> (store_error, 'j database) res" where
  "insert_mempool_rows D [] db = Ok db"
| "insert_mempool_rows D (tx # txs) db =
     res_bind (ok_or NotSerializable (tx_to_value D tx)) (\<lambda>v.
     res_bind (insert_mempool \<lparr>mr_txid = bytes_of (tx_txid tx), mr_payload = v\<rparr> db) (insert_mempool_rows D txs))"

definition replace_mempool ::
    "'j serde \<Rightarrow> outage \<Rightarrow> tx_view list \<Rightarrow> 'j database \<Rightarrow> 'j database \<times> (store_error, unit) res" where
  "replace_mempool D f txs db = transact f db (\<lambda>db.
     res_bind (insert_mempool_rows D txs (db\<lparr>mempool_overlay := []\<rparr>)) (\<lambda>db'. Ok (db', ())))"

section \<open>Queries\<close>

record persisted_height =
  ph_roots :: height_roots
  ph_release :: release_identity

definition roots_from_row :: "u64 \<Rightarrow> 'j block_row \<Rightarrow> (store_error, persisted_height) res" where
  "roots_from_row height r =
     res_bind (hash_from_bytes (br_block_hash r)) (\<lambda>bh.
     res_bind (hash_from_bytes (br_event_root r)) (\<lambda>er.
     res_bind (hash_from_bytes (br_object_state_root r)) (\<lambda>obr.
     res_bind (hash_from_bytes (br_chained_root r)) (\<lambda>cr.
     res_bind (parse_counter (br_founding_created r)) (\<lambda>fc.
     res_bind (parse_counter (br_all_objects r)) (\<lambda>ao.
     res_bind (parse_counter (br_active_objects r)) (\<lambda>ac.
     res_bind (hash_from_bytes (br_parser_binary_sha256 r)) (\<lambda>pb.
     res_bind (hash_from_bytes (br_indexer_binary_sha256 r)) (\<lambda>ib.
     Ok \<lparr>ph_roots =
           \<lparr>hr_height = height, hr_block_hash = bh, hr_event_root = er, hr_object_state_root = obr,
            hr_chained_root = cr,
            hr_counters = \<lparr>founding_created = fc, all_objects = ao, active_objects = ac\<rparr>\<rparr>,
         ph_release =
           \<lparr>parser_commit = br_parser_commit r, indexer_commit = br_indexer_commit r,
            parser_binary_sha256 = pb, indexer_binary_sha256 = ib\<rparr>\<rparr>)))))))))"

definition roots_at :: "outage \<Rightarrow> u64 \<Rightarrow> 'j database \<Rightarrow> (store_error, persisted_height option) res" where
  "roots_at f height db =
     res_bind (to_i64 height) (\<lambda>h.
     if f \<noteq> Reachable then Err Unavailable
     else
       case find (\<lambda>r. br_height r = h) (canonical_blocks db) of
         None \<Rightarrow> Ok None
       | Some r \<Rightarrow> res_bind (roots_from_row height r) (\<lambda>p. Ok (Some p)))"

definition object_query :: "outage \<Rightarrow> hash32 \<Rightarrow> 'j database \<Rightarrow> (store_error, 'j option) res" where
  "object_query f key db =
     (if f \<noteq> Reachable then Err Unavailable
      else Ok (map_option or_payload (find (\<lambda>r. or_object_key r = bytes_of key) (canonical_objects db))))"

definition carrier_query :: "outage \<Rightarrow> hash32 \<Rightarrow> u32 \<Rightarrow> 'j database \<Rightarrow> (store_error, 'j option) res" where
  "carrier_query f txid vout db =
     (if f \<noteq> Reachable then Err Unavailable
      else Ok (map_option or_payload
        (find (\<lambda>r. or_current_txid r = bytes_of txid \<and> or_current_vout r = uint vout \<and> or_status r = 0)
          (canonical_objects db))))"

text \<open>\<open>ORDER BY height DESC, tx_index, event_index, sub_index LIMIT 500\<close>\<close>

definition order_events :: "'j event_row list \<Rightarrow> 'j event_row list" where
  "order_events rs =
     take 500 (sort_key (\<lambda>r. [- er_height r, er_tx_index r, er_event_index r, er_sub_index r]) rs)"

definition events_query ::
    "outage \<Rightarrow> u64 option \<Rightarrow> hash32 option \<Rightarrow> 'j database \<Rightarrow> (store_error, 'j list) res" where
  "events_query f height key db =
     res_bind (transpose_i64 height) (\<lambda>h.
     if f \<noteq> Reachable then Err Unavailable
     else Ok (map er_payload (order_events (filter
            (\<lambda>r. (case h of None \<Rightarrow> True | Some i \<Rightarrow> er_height r = i) \<and>
                 (case key of None \<Rightarrow> True | Some k \<Rightarrow> er_object_key r = bytes_of k))
            (canonical_events db)))))"

definition invalid_events_query :: "outage \<Rightarrow> 'j database \<Rightarrow> (store_error, 'j list) res" where
  "invalid_events_query f db =
     (if f \<noteq> Reachable then Err Unavailable
      else Ok (map er_payload (order_events (filter (\<lambda>r. er_validity_class r \<noteq> 1) (canonical_events db)))))"

text \<open>
  \<open>ORDER BY observed_at DESC LIMIT 1000\<close>. The rows of the overlay are written by one transaction and
  \<open>now()\<close> is the time of its start, so they all tie and the order is the server's.
\<close>

definition mempool_query ::
    "outage \<Rightarrow> ('j mempool_row list \<Rightarrow> 'j mempool_row list) \<Rightarrow> 'j database \<Rightarrow> (store_error, 'j list) res" where
  "mempool_query f order db =
     (if f \<noteq> Reachable then Err Unavailable else Ok (map mr_payload (take 1000 (order (mempool_overlay db)))))"

text \<open>Newest reorganisation first; \<open>LIMIT 200\<close>.\<close>

record reorg_record =
  rg_id :: int
  rg_disconnected_height :: int
  rg_disconnected_hash :: hash32
  rg_restored_height :: "int option"
  rg_restored_hash :: "hash32 option"
  rg_observed_at :: string

definition reorg_from_row :: "reorg_row \<Rightarrow> (store_error, reorg_record) res" where
  "reorg_from_row r =
     res_bind (hash_from_bytes (rr_disconnected_hash r)) (\<lambda>disconnected.
     res_bind (case rr_restored_hash r of
                 None \<Rightarrow> Ok None
               | Some bs \<Rightarrow> res_bind (hash_from_bytes bs) (\<lambda>h. Ok (Some h))) (\<lambda>restored.
     Ok \<lparr>rg_id = rr_id r, rg_disconnected_height = rr_disconnected_height r,
         rg_disconnected_hash = disconnected, rg_restored_height = rr_restored_height r,
         rg_restored_hash = restored, rg_observed_at = rr_observed_at r\<rparr>))"

definition reorgs_query :: "outage \<Rightarrow> 'j database \<Rightarrow> (store_error, reorg_record list) res" where
  "reorgs_query f db =
     (if f \<noteq> Reachable then Err Unavailable
      else res_collect (map reorg_from_row (take 200 (sort_key (\<lambda>r. - rr_id r) (reorg_journal db)))))"

text \<open>
  The statistics are three reads outside a transaction: the state and the two counts may come from
  different moments.
\<close>

record stats =
  st_protocol_id :: string
  st_protocol_status :: protocol_status
  st_tip_height :: "u64 option"
  st_tip_hash :: "hash32 option"
  st_chained_root :: hash32
  st_counters :: counters
  st_invalid_events :: nat
  st_mempool_transactions :: nat

definition stats_query ::
    "externals \<Rightarrow> 'j serde \<Rightarrow> (nat \<Rightarrow> outage) \<Rightarrow> (nat \<Rightarrow> 'j database) \<Rightarrow> nat \<Rightarrow> (store_error, stats) res" where
  "stats_query X D f db t =
     res_bind (load_state D (f t) (db t)) (\<lambda>s.
     if f (Suc t) \<noteq> Reachable then Err Unavailable
     else
       let invalid = length (filter (\<lambda>r. er_validity_class r \<noteq> 1) (canonical_events (db (Suc t)))) in
       if f (Suc (Suc t)) \<noteq> Reachable then Err Unavailable
       else
         Ok \<lparr>st_protocol_id = protocol_id X (binding_of s),
             st_protocol_status = protocol_status s,
             st_tip_height = tip_height s,
             st_tip_hash = tip_hash s,
             st_chained_root = cs_chained_root s,
             st_counters = state_counters s,
             st_invalid_events = invalid,
             st_mempool_transactions = length (mempool_overlay (db (Suc (Suc t))))\<rparr>)"

end
