(* ===== verification/Store_Invariant.thy ===== *)
theory Store_Invariant
  imports Store
begin

text \<open>
  What the tables mean. \<open>store_ok\<close> relates a database to the abstract store it implements, a
  chain state with the journal of the blocks that led to it: the state row, one row per block with
  its inverse delta, the events of the blocks in order, and the object table of the state. The
  lemmas show that \<open>store_apply_block\<close> pushes an entry on the journal and \<open>rollback_tip\<close> pops
  one, or nothing happens.
\<close>

section \<open>Statements in bulk\<close>

abbreviation event_rows :: "'j serde \<Rightarrow> event list \<Rightarrow> 'j event_row list \<Rightarrow> bool" where
  "event_rows D \<equiv> list_all2 (\<lambda>e r. event_row_of D e = Ok r)"

abbreviation object_rows :: "'j serde \<Rightarrow> object_state list \<Rightarrow> 'j object_row list \<Rightarrow> bool" where
  "object_rows D \<equiv> list_all2 (\<lambda>ob r. object_row_of D ob = Ok r)"

lemma to_i64_iffs [res_simps]:
  "to_i64 v = Ok i \<longleftrightarrow> unat v < 2 ^ 63 \<and> i = uint v"
  "to_i64 v = Err e \<longleftrightarrow> \<not> unat v < 2 ^ 63 \<and> e = HeightExceedsBigint"
  "to_i64 v \<noteq> Panic"
proof -
  have v: "uint v = int (unat v)" by simp
  have "uint v < 2 ^ 63 \<longleftrightarrow> unat v < 2 ^ 63" by (simp only: v of_nat_less_numeral_power_cancel_iff)
  then show "to_i64 v = Ok i \<longleftrightarrow> unat v < 2 ^ 63 \<and> i = uint v"
    and "to_i64 v = Err e \<longleftrightarrow> \<not> unat v < 2 ^ 63 \<and> e = HeightExceedsBigint"
    and "to_i64 v \<noteq> Panic" by (auto simp: to_i64_def)
qed

lemma to_i64_eq: "unat v < 2 ^ 63 \<Longrightarrow> to_i64 v = Ok (uint v)"
  by (simp add: to_i64_iffs)

lemma event_row_of_Ok:
  assumes "event_row_of D e = Ok r"
  shows "er_height r = uint (ev_height e)" and "event_row_ok r" and "unat (ev_height e) < 2 ^ 63"
    and "event_row_key r = (uint (ev_height e), uint (ev_tx_index e), uint (ev_event_index e), uint (ev_sub_index e))"
  using assms by (auto simp: event_row_of_def res_simps event_row_ok_def octets32_def event_row_key_def)

lemma object_row_of_Ok:
  assumes "object_row_of D ob = Ok r"
  shows "or_object_key r = bytes_of (ob_object_key ob)" and "object_row_ok r"
  using assms by (auto simp: object_row_of_def res_simps object_row_ok_def octets32_def)

lemma list_ex_key_iff: "list_ex (\<lambda>q. f q = k) xs \<longleftrightarrow> k \<in> f ` set xs"
  by (auto simp: list_ex_iff)

lemma find_append_absent: "\<forall>x\<in>set xs. \<not> P x \<Longrightarrow> find P (xs @ ys) = find P ys"
  by (induction xs) auto

lemma list_ex_or_iff: "list_ex (\<lambda>x. P x \<or> Q x) xs \<longleftrightarrow> list_ex P xs \<or> list_ex Q xs"
  by (auto simp: list_ex_iff)

lemma list_all2_in_set2: "list_all2 P xs ys \<Longrightarrow> y \<in> set ys \<Longrightarrow> \<exists>x\<in>set xs. P x y"
  by (induction rule: list_all2_induct) auto

lemma insert_event_iff:
  "event_row_ok r \<Longrightarrow> insert_event r db = Ok db' \<longleftrightarrow>
     event_row_key r \<notin> event_row_key ` set (canonical_events db) \<and>
     er_height r \<in> br_height ` set (canonical_blocks db) \<and>
     db' = db\<lparr>canonical_events := canonical_events db @ [r]\<rparr>"
  by (auto simp: insert_event_def list_ex_key_iff)

lemma insert_object_iff:
  "object_row_ok r \<Longrightarrow> insert_object r db = Ok db' \<longleftrightarrow>
     or_object_key r \<notin> or_object_key ` set (canonical_objects db) \<and>
     db' = db\<lparr>canonical_objects := canonical_objects db @ [r]\<rparr>"
  by (auto simp: insert_object_def list_ex_key_iff)

lemma insert_events_iff:
  "insert_events D es db = Ok db' \<longleftrightarrow>
     (\<exists>rs. event_rows D es rs \<and> distinct (map event_row_key rs) \<and>
        event_row_key ` set rs \<inter> event_row_key ` set (canonical_events db) = {} \<and>
        er_height ` set rs \<subseteq> br_height ` set (canonical_blocks db) \<and>
        db' = db\<lparr>canonical_events := canonical_events db @ rs\<rparr>)"
proof (induction es arbitrary: db)
  case Nil
  show ?case by auto
next
  case (Cons e es)
  let ?next = "\<lambda>r. db\<lparr>canonical_events := canonical_events db @ [r]\<rparr>"
  have "insert_events D (e # es) db = Ok db' \<longleftrightarrow>
      (\<exists>r. event_row_of D e = Ok r \<and> event_row_key r \<notin> event_row_key ` set (canonical_events db) \<and>
        er_height r \<in> br_height ` set (canonical_blocks db) \<and> insert_events D es (?next r) = Ok db')"
    by (auto simp: res_simps insert_event_iff [OF event_row_of_Ok(2)])
  also have "\<dots> \<longleftrightarrow> (\<exists>r rs. event_row_of D e = Ok r \<and> event_rows D es rs \<and> distinct (map event_row_key (r # rs)) \<and>
        event_row_key ` set (r # rs) \<inter> event_row_key ` set (canonical_events db) = {} \<and>
        er_height ` set (r # rs) \<subseteq> br_height ` set (canonical_blocks db) \<and>
        db' = db\<lparr>canonical_events := canonical_events db @ (r # rs)\<rparr>)"
    unfolding Cons.IH by (intro ex_cong1) auto
  finally show ?case unfolding list_all2_Cons1 by blast
qed

lemma insert_objects_iff:
  "insert_objects D obs db = Ok db' \<longleftrightarrow>
     (\<exists>rs. object_rows D obs rs \<and> distinct (map or_object_key rs) \<and>
        or_object_key ` set rs \<inter> or_object_key ` set (canonical_objects db) = {} \<and>
        db' = db\<lparr>canonical_objects := canonical_objects db @ rs\<rparr>)"
proof (induction obs arbitrary: db)
  case Nil
  show ?case by auto
next
  case (Cons ob obs)
  let ?next = "\<lambda>r. db\<lparr>canonical_objects := canonical_objects db @ [r]\<rparr>"
  have "insert_objects D (ob # obs) db = Ok db' \<longleftrightarrow>
      (\<exists>r. object_row_of D ob = Ok r \<and> or_object_key r \<notin> or_object_key ` set (canonical_objects db) \<and>
        insert_objects D obs (?next r) = Ok db')"
    by (auto simp: res_simps insert_object_iff [OF object_row_of_Ok(2)])
  also have "\<dots> \<longleftrightarrow> (\<exists>r rs. object_row_of D ob = Ok r \<and> object_rows D obs rs \<and>
        distinct (map or_object_key (r # rs)) \<and>
        or_object_key ` set (r # rs) \<inter> or_object_key ` set (canonical_objects db) = {} \<and>
        db' = db\<lparr>canonical_objects := canonical_objects db @ (r # rs)\<rparr>)"
    unfolding Cons.IH by (intro ex_cong1) auto
  finally show ?case unfolding list_all2_Cons1 by blast
qed

text \<open>No statement panics: the conversions are all checked.\<close>

lemma row_no_panic:
  "block_row_of D d release \<noteq> Panic" "event_row_of D e \<noteq> Panic" "object_row_of D ob \<noteq> Panic"
  "insert_block r db \<noteq> Panic" "insert_event er db \<noteq> Panic" "insert_object obr db \<noteq> Panic"
  by (auto simp: block_row_of_def event_row_of_def object_row_of_def res_simps Let_def
      insert_block_def insert_event_def insert_object_def)

lemma statement_no_panic:
  "insert_events D es db \<noteq> Panic" "insert_objects D obs db \<noteq> Panic" "sync_objects D s db \<noteq> Panic"
  "save_state D s db \<noteq> Panic" "load_state_for_update D db \<noteq> Panic"
proof -
  show "insert_events D es db \<noteq> Panic" by (induction es arbitrary: db) (auto simp: res_simps row_no_panic)
  have "insert_objects D obs db \<noteq> Panic" for obs db
    by (induction obs arbitrary: db) (auto simp: res_simps row_no_panic)
  then show "insert_objects D obs db \<noteq> Panic" "sync_objects D s db \<noteq> Panic" by (simp_all add: sync_objects_def)
qed (auto simp: save_state_def load_state_for_update_def res_simps)

text \<open>The object table of a state, when the state can be written to it.\<close>

definition object_table :: "'j serde \<Rightarrow> chain_state \<Rightarrow> 'j object_row list \<Rightarrow> bool" where
  "object_table D s rs \<longleftrightarrow> object_rows D (bt_values (objects s)) rs \<and> distinct (map or_object_key rs)"

lemma sync_objects_iff:
  "sync_objects D s db = Ok db' \<longleftrightarrow> (\<exists>rs. object_table D s rs \<and> db' = db\<lparr>canonical_objects := rs\<rparr>)"
  by (auto simp: sync_objects_def insert_objects_iff object_table_def)

lemma save_state_laws:
  assumes "serde_laws D"
  obtains v where "save_state D s db = Ok (db\<lparr>protocol_state := map_option (\<lambda>r. r\<lparr>sr_state := v\<rparr>) (protocol_state db)\<rparr>)"
    and "state_from_value D v = Some s"
proof -
  obtain v where "state_to_value D s = Some v" "state_from_value D v = Some s"
    using assms unfolding serde_laws_def by blast
  then show thesis by (intro that [of v]) (simp_all add: save_state_def ok_or_def)
qed

section \<open>The journal and its heights\<close>

lemma block_loop_heights: "block_loop X b skip n txs s = (s', Ok es) \<Longrightarrow> e \<in> set es \<Longrightarrow> ev_height e = bv_height b"
proof (induction X b skip n txs s arbitrary: s' es rule: block_loop.induct)
  case (2 X b skip n tx txs s)
  have init: "ev_height (valid_init_event X s b tx i) = bv_height b" for i
    by (simp add: valid_init_event_def)
  obtain i s1 es1 es2 where *: "u32_of_usize n = Some i"
      "(if skip \<and> tx_txid tx = init_txid (binding_of s) then Ok (s, [valid_init_event X s b tx i])
        else process_transaction X s b tx i) = (Ok (s1, es1) :: (reducer_error, chain_state \<times> event list) res)"
      "block_loop X b skip (Suc n) txs s1 = (s', Ok es2)" "es = es1 @ es2"
    using "2.prems"(1) by (auto simp: res_simps split: option.splits res.splits prod.splits)
  have "ev_height e = bv_height b" if "e \<in> set es1"
    using that *(2) process_transaction_events(2) [of X s b tx i s1 es1] init
    by (auto simp: attributed_def split: if_splits)
  moreover have "ev_height e = bv_height b" if "e \<in> set es2"
    using "2.IH" [OF *(1) *(2) refl] *(3) that by blast
  ultimately show ?case using "2.prems"(2) *(4) by auto
qed simp

lemma apply_block_heights:
  assumes "apply_block X s b = (s', Ok d)" and "e \<in> set (bd_events d)"
  shows "ev_height e = bd_height d"
proof -
  obtain s1 where e: "block_events X s b = (s1, Ok (bd_events d))" and h: "bd_height d = bv_height b"
    by (rule apply_block_Ok [OF assms(1)])
  from e show ?thesis
  proof (cases rule: block_events_Ok)
    case (fails n i tx rsn)
    then show ?thesis using assms(2) base_attributed(5) h by (auto simp: attributed_def)
  qed (use assms(2) h block_loop_heights in auto)
qed

lemma apply_block_tip:
  assumes "apply_block X s b = (s', Ok d)"
  shows "tip_height s' = Some (bd_height d)" and "tip_hash s' = Some (bd_block_hash d)"
    and "bd_before d = s" and "tip_height s = Some h \<Longrightarrow> unat (bd_height d) = Suc (unat h)"
proof -
  have "tip_height s' = Some (bd_height d) \<and> tip_hash s' = Some (bd_block_hash d) \<and> bd_before d = s \<and>
      (\<forall>h. tip_height s = Some h \<longrightarrow> unat (bd_height d) = Suc (unat h))"
    by (rule apply_block_Ok [OF assms])
      (auto simp: validate_linkage_def res_simps chk_simps split: if_splits)
  then show "tip_height s' = Some (bd_height d)" and "tip_hash s' = Some (bd_block_hash d)"
    and "bd_before d = s" and "tip_height s = Some h \<Longrightarrow> unat (bd_height d) = Suc (unat h)" by auto
qed

abbreviation chain_journal :: "externals \<Rightarrow> binding \<Rightarrow> (block_view \<times> block_delta) list \<Rightarrow> chain_state \<Rightarrow> bool" where
  "chain_journal X bnd \<equiv> journal_of (connect_block X) (chain_state_new X bnd)"

lemma chain_journal_Cons:
  "chain_journal X bnd ((b, d) # js) s \<longleftrightarrow>
     chain_journal X bnd js (bd_before d) \<and> apply_block X (bd_before d) b = (s, Ok d)"
  by (auto simp: connect_block_iff dest: apply_block_tip(3))

lemma chain_journal_tip:
  assumes "chain_journal X bnd js s"
  shows "tip_height s = (case js of [] \<Rightarrow> None | (b, d) # _ \<Rightarrow> Some (bd_height d))"
    and "tip_hash s = (case js of [] \<Rightarrow> None | (b, d) # _ \<Rightarrow> Some (bd_block_hash d))"
  using assms apply_block_tip(1,2)
  by (cases js; fastforce simp: chain_state_new_def connect_block_iff)+

text \<open>Every older entry of a journal has a smaller height, so heights identify entries.\<close>

lemma chain_journal_heights:
  assumes "chain_journal X bnd js s" and "(b, d) \<in> set js"
  shows "\<exists>h. tip_height s = Some h \<and> unat (bd_height d) \<le> unat h"
  using assms
proof (induction js arbitrary: s)
  case (Cons j js)
  obtain b' d' where j: "j = (b', d')" by (cases j)
  then have *: "chain_journal X bnd js (bd_before d')" "apply_block X (bd_before d') b' = (s, Ok d')"
    using Cons.prems(1) by (auto simp: chain_journal_Cons simp del: journal_of.simps)
  show ?case
  proof (cases "(b, d) = j")
    case True
    then show ?thesis using apply_block_tip(1) [OF *(2)] j by auto
  next
    case False
    then obtain h where "tip_height (bd_before d') = Some h" "unat (bd_height d) \<le> unat h"
      using Cons.IH [OF *(1)] Cons.prems(2) by auto
    then show ?thesis using apply_block_tip(1,4) [OF *(2)] by auto
  qed
qed simp

lemma chain_journal_older:
  assumes "chain_journal X bnd ((b, d) # js) s" and "(b', d') \<in> set js"
  shows "bd_height d' \<noteq> bd_height d"
proof -
  have *: "chain_journal X bnd js (bd_before d)" "apply_block X (bd_before d) b = (s, Ok d)"
    using assms(1) by (auto simp: chain_journal_Cons simp del: journal_of.simps)
  obtain h where "tip_height (bd_before d) = Some h" "unat (bd_height d') \<le> unat h"
    using chain_journal_heights [OF *(1) assms(2)] by blast
  then show ?thesis using apply_block_tip(4) [OF *(2)] by fastforce
qed

lemma journal_event_height:
  assumes "chain_journal X bnd js s" and "(b, d) \<in> set js" and "e \<in> set (bd_events d)"
  shows "ev_height e = bd_height d"
  using assms(1,2)
proof (induction js arbitrary: s)
  case (Cons j js)
  obtain b' d' where j: "j = (b', d')" by (cases j)
  then have "chain_journal X bnd js (bd_before d')" "apply_block X (bd_before d') b' = (s, Ok d')"
    using Cons.prems(1) by (auto simp: chain_journal_Cons simp del: journal_of.simps)
  then show ?case using Cons.IH Cons.prems(2) apply_block_heights assms(3) j by auto
qed simp

section \<open>The store invariant\<close>

definition stored_block :: "'j serde \<Rightarrow> block_delta \<Rightarrow> 'j block_row \<Rightarrow> bool" where
  "stored_block D d r \<longleftrightarrow> (\<exists>release. block_row_of D d release = Ok r)"

definition stored_state :: "'j serde \<Rightarrow> binding \<Rightarrow> 'j database \<Rightarrow> chain_state \<Rightarrow> bool" where
  "stored_state D bnd db s \<longleftrightarrow>
     (\<exists>r. protocol_state db = Some r \<and> binding_from_value D (sr_binding r) = Some bnd \<and>
          state_from_value D (sr_state r) = Some s)"

definition store_ok ::
    "externals \<Rightarrow> 'j serde \<Rightarrow> binding \<Rightarrow> (block_view \<times> block_delta) list \<Rightarrow> chain_state \<Rightarrow> 'j database \<Rightarrow> bool" where
  "store_ok X D bnd js s db \<longleftrightarrow>
     stored_state D bnd db s \<and>
     chain_journal X bnd js s \<and>
     list_all2 (stored_block D) (map snd (rev js)) (canonical_blocks db) \<and>
     event_rows D (concat (map (\<lambda>(b, d). bd_events d) (rev js))) (canonical_events db) \<and>
     object_table D s (canonical_objects db) \<and>
     (\<forall>(b, d)\<in>set js. \<exists>rs. object_table D (bd_before d) rs)"

lemma store_okD:
  assumes "store_ok X D bnd js s db"
  shows "stored_state D bnd db s" and "chain_journal X bnd js s"
    and "list_all2 (stored_block D) (map snd (rev js)) (canonical_blocks db)"
    and "event_rows D (concat (map (\<lambda>(b, d). bd_events d) (rev js))) (canonical_events db)"
    and "object_table D s (canonical_objects db)"
    and "(b, d) \<in> set js \<Longrightarrow> \<exists>rs. object_table D (bd_before d) rs"
  using assms by (auto simp: store_ok_def)

lemma stored_block_facts:
  assumes "stored_block D d r" and "serde_laws D"
  shows "br_height r = uint (bd_height d)" and "unat (bd_height d) < 2 ^ 63"
    and "delta_from_value D (br_inverse_delta r) = Some d" and "br_block_hash r = bytes_of (bd_block_hash d)"
proof -
  obtain v where "delta_to_value D d = Some v" "delta_from_value D v = Some d"
    using assms(2) unfolding serde_laws_def by blast
  then show "br_height r = uint (bd_height d)" and "unat (bd_height d) < 2 ^ 63"
    and "delta_from_value D (br_inverse_delta r) = Some d" and "br_block_hash r = bytes_of (bd_block_hash d)"
    using assms(1) by (auto simp: stored_block_def block_row_of_def res_simps Let_def)
qed

lemma stored_state_load: "stored_state D bnd db s \<Longrightarrow> load_state_for_update D db = Ok s"
  by (auto simp: stored_state_def load_state_for_update_def ok_or_def)

lemma store_ok_block_rows:
  assumes "store_ok X D bnd js s db" and "serde_laws D"
  shows "set (map br_height (canonical_blocks db)) = (\<lambda>(b, d). uint (bd_height d)) ` set js"
    and "set (map br_block_hash (canonical_blocks db)) = (\<lambda>(b, d). bytes_of (bd_block_hash d)) ` set js"
proof -
  have "list_all2 (\<lambda>j r. stored_block D (snd j) r) (rev js) (canonical_blocks db)"
    using store_okD(3) [OF assms(1)] by (simp add: list_all2_map1)
  then have "map br_height (canonical_blocks db) = map (\<lambda>(b, d). uint (bd_height d)) (rev js)"
    and "map br_block_hash (canonical_blocks db) = map (\<lambda>(b, d). bytes_of (bd_block_hash d)) (rev js)"
    by (induction rule: list_all2_induct) (auto simp: stored_block_facts [OF _ assms(2)])
  then show "set (map br_height (canonical_blocks db)) = (\<lambda>(b, d). uint (bd_height d)) ` set js"
    and "set (map br_block_hash (canonical_blocks db)) = (\<lambda>(b, d). bytes_of (bd_block_hash d)) ` set js"
    by auto
qed

section \<open>Applying a block\<close>

text \<open>The body of the transaction, past the comparison of the stored state.\<close>

lemma store_apply_block_eq:
  assumes "apply_block X t b = (t', Ok d)" and "stored_state D bnd db s"
  shows "store_apply_block D f t' d release db = transact f db (\<lambda>db.
     if s \<noteq> t then Err StateChanged
     else res_bind (block_row_of D d release) (\<lambda>r.
          res_bind (insert_block r db) (\<lambda>db1.
          res_bind (insert_events D (bd_events d) db1) (\<lambda>db2.
          res_bind (sync_objects D t' db2) (\<lambda>db3.
          res_bind (save_state D t' db3) (\<lambda>db4. Ok (db4, ())))))))"
  using apply_block_tip(1-3) [OF assms(1)] stored_state_load [OF assms(2)]
  by (simp add: store_apply_block_def transact_def)

lemma insert_block_iff:
  "insert_block r db = Ok db' \<longleftrightarrow>
     block_row_ok r \<and> br_height r \<notin> br_height ` set (canonical_blocks db) \<and>
     br_block_hash r \<notin> br_block_hash ` set (canonical_blocks db) \<and>
     db' = db\<lparr>canonical_blocks := canonical_blocks db @ [r]\<rparr>"
  by (auto simp: insert_block_def list_ex_or_iff list_ex_key_iff)

lemma store_ok_push:
  assumes "serde_laws D" and "store_ok X D bnd js s db" and "apply_block X s b = (s', Ok d)"
    and "block_row_of D d release = Ok r" and "insert_block r db = Ok db1"
    and "insert_events D (bd_events d) db1 = Ok db2" and "sync_objects D s' db2 = Ok db3"
    and "save_state D s' db3 = Ok db4"
  shows "store_ok X D bnd ((b, d) # js) s' db4"
proof -
  obtain es obs where es: "event_rows D (bd_events d) es" "db2 = db1\<lparr>canonical_events := canonical_events db1 @ es\<rparr>"
    and obs: "object_table D s' obs" "db3 = db2\<lparr>canonical_objects := obs\<rparr>"
    using assms(6,7) by (auto simp: insert_events_iff sync_objects_iff)
  obtain v where v: "db4 = db3\<lparr>protocol_state := map_option (\<lambda>r. r\<lparr>sr_state := v\<rparr>) (protocol_state db3)\<rparr>"
      "state_from_value D v = Some s'"
    by (rule save_state_laws [OF assms(1), of s' db3]) (use assms(8) in auto)
  have db1: "db1 = db\<lparr>canonical_blocks := canonical_blocks db @ [r]\<rparr>" using assms(5) by (simp add: insert_block_iff)
  note ok = store_okD [OF assms(2)]
  have "stored_block D d r" using assms(4) by (auto simp: stored_block_def)
  moreover have "bd_before d = s" by (rule apply_block_tip(3) [OF assms(3)])
  moreover have "stored_state D bnd db4 s'"
    using ok(1) by (auto simp: stored_state_def v obs(2) es(2) db1)
  ultimately show ?thesis
    unfolding store_ok_def using ok(2-6) obs(1) es(1) assms(3)
    by (auto simp: v(1) obs(2) es(2) db1 connect_block_iff intro!: list_all2_appendI)
qed

text \<open>
  Whatever state the caller computed the block from and wherever the connection is lost, the
  transaction happens on the stored state or not at all.
\<close>

lemma store_apply_block_cases:
  assumes "serde_laws D" and "store_ok X D bnd js s db" and "apply_block X t b = (t', Ok d)"
    and "store_apply_block D f t' d release db = (db', r)"
  obtains (refused) e where "db' = db" and "r = Err e"
  | (applied) "t = s" and "store_ok X D bnd ((b, d) # js) t' db'" and "r = Ok ()" and "f = Reachable"
  | (unacknowledged) "t = s" and "store_ok X D bnd ((b, d) # js) t' db'" and "r = Err Unavailable"
      and "f = Lost_after_commit"
proof -
  let ?body = "if s \<noteq> t then Err StateChanged
     else res_bind (block_row_of D d release) (\<lambda>r.
          res_bind (insert_block r db) (\<lambda>db1.
          res_bind (insert_events D (bd_events d) db1) (\<lambda>db2.
          res_bind (sync_objects D t' db2) (\<lambda>db3.
          res_bind (save_state D t' db3) (\<lambda>db4. Ok (db4, ()))))))"
  have tr: "(db', r) = transact f db (\<lambda>_. ?body)"
    using assms(4) store_apply_block_eq [OF assms(3) store_okD(1) [OF assms(2)]] by (simp add: transact_def)
  have body: "t = s \<and> store_ok X D bnd ((b, d) # js) t' db4" if "?body = Ok (db4, u)" for db4 u
    using that assms(3) store_ok_push [OF assms(1,2)] by (auto simp: res_simps split: if_splits)
  have "?body \<noteq> Panic"
    by (auto simp: res_simps row_no_panic statement_no_panic)
  then show thesis
    using tr body refused applied unacknowledged
    by (cases f; cases ?body) (auto simp: transact_def)
qed

section \<open>Rolling back\<close>

lemma store_ok_tip_row:
  assumes "serde_laws D" and "store_ok X D bnd ((b, d) # js) s db"
  obtains rs r es es' where "canonical_blocks db = rs @ [r]" and "stored_block D d r"
    and "list_all2 (stored_block D) (map snd (rev js)) rs"
    and "canonical_events db = es @ es'" and "event_rows D (bd_events d) es'"
    and "event_rows D (concat (map (\<lambda>(b, d). bd_events d) (rev js))) es"
  using store_okD(3,4) [OF assms(2)] that
  by (auto simp: list_all2_append1 list_all2_Cons1)

text \<open>Deleting the tip row deletes that row and the events of its block, and nothing else.\<close>

lemma delete_tip_block:
  assumes "serde_laws D" and "store_ok X D bnd ((b, d) # js) s db"
  obtains rs r es where "delete_block (uint (bd_height d)) db = db\<lparr>canonical_blocks := rs, canonical_events := es\<rparr>"
    and "list_all2 (stored_block D) (map snd (rev js)) rs"
    and "event_rows D (concat (map (\<lambda>(b, d). bd_events d) (rev js))) es"
    and "find (\<lambda>r. br_height r = uint (bd_height d)) (canonical_blocks db) = Some r"
    and "stored_block D d r"
proof -
  obtain rs r es es' where *: "canonical_blocks db = rs @ [r]" "stored_block D d r"
      "list_all2 (stored_block D) (map snd (rev js)) rs" "canonical_events db = es @ es'"
      "event_rows D (bd_events d) es'" "event_rows D (concat (map (\<lambda>(b, d). bd_events d) (rev js))) es"
    by (rule store_ok_tip_row [OF assms])
  note j = store_okD(2) [OF assms(2)]
  have r: "br_height r = uint (bd_height d)" by (rule stored_block_facts(1) [OF *(2) assms(1)])
  have rs: "br_height q \<noteq> uint (bd_height d)" if q: "q \<in> set rs" for q
  proof -
    obtain b' d' where d': "(b', d') \<in> set js" "stored_block D d' q"
      using list_all2_in_set2 [OF *(3) q] by auto
    show ?thesis
      using chain_journal_older [OF j d'(1)] by (simp add: stored_block_facts(1) [OF d'(2) assms(1)] word_uint_eq_iff)
  qed
  have es: "er_height q \<noteq> uint (bd_height d)" if q: "q \<in> set es" for q
  proof -
    obtain b' d' e where e: "(b', d') \<in> set js" "e \<in> set (bd_events d')" "er_height q = uint (ev_height e)"
      using list_all2_in_set2 [OF *(6) q] event_row_of_Ok(1) by fastforce
    show ?thesis
      using chain_journal_older [OF j e(1)] journal_event_height [OF j _ e(2), of b'] e(1)
      by (simp add: e(3) word_uint_eq_iff)
  qed
  have es': "er_height q = uint (bd_height d)" if q: "q \<in> set es'" for q
    using list_all2_in_set2 [OF *(5) q] event_row_of_Ok(1) journal_event_height [OF j, of b d] by fastforce
  have "delete_block (uint (bd_height d)) db = db\<lparr>canonical_blocks := rs, canonical_events := es\<rparr>"
    using rs es es' r by (simp add: delete_block_def *(1,4) filter_id_conv filter_empty_conv)
  moreover have "find (\<lambda>r. br_height r = uint (bd_height d)) (canonical_blocks db) = Some r"
    using rs r by (simp add: *(1) find_append_absent)
  ultimately show thesis using *(2,3,6) that by blast
qed

text \<open>
  On the stored state a rollback always finds its journal entry, and it restores the state before
  the tip.
\<close>

lemma rollback_tip_cases:
  assumes "serde_laws D" and "store_ok X D bnd js s db" and "rollback_tip D f stamp db = (db', r)"
  obtains (lost) "db' = db" and "f = Lost_before_commit" and "r = Err Unavailable"
  | (no_tip) "js = []" and "db' = db" and "r = (if f = Reachable then Ok None else Err Unavailable)"
  | (popped) b d js' where "js = (b, d) # js'" and "store_ok X D bnd js' (bd_before d) db'"
      and "r = (if f = Reachable then Ok (Some (bd_before d)) else Err Unavailable)" and "f \<noteq> Lost_before_commit"
proof (cases "f = Lost_before_commit")
  case True
  then show thesis using assms(3) lost by (simp add: rollback_tip_def transact_def)
next
  case False
  note load = stored_state_load [OF store_okD(1) [OF assms(2)]]
  note tip = chain_journal_tip [OF store_okD(2) [OF assms(2)]]
  show thesis
  proof (cases js)
    case Nil
    then have "(db', r) = (db, if f = Reachable then Ok None else Err Unavailable)"
      using assms(3) False tip(1) by (simp add: rollback_tip_def transact_def load)
    then show thesis using Nil no_tip by blast
  next
    case (Cons j js')
    obtain b d where js: "js = (b, d) # js'" using Cons by (cases j) simp
    note ok = store_okD [OF assms(2), unfolded js]
    have j: "chain_journal X bnd js' (bd_before d)" "apply_block X (bd_before d) b = (s, Ok d)"
      using ok(2) by (auto simp: chain_journal_Cons simp del: journal_of.simps)
    obtain rs row es where del: "delete_block (uint (bd_height d)) db = db\<lparr>canonical_blocks := rs, canonical_events := es\<rparr>"
        "list_all2 (stored_block D) (map snd (rev js')) rs"
        "event_rows D (concat (map (\<lambda>(b, d). bd_events d) (rev js'))) es"
        "find (\<lambda>r. br_height r = uint (bd_height d)) (canonical_blocks db) = Some row" "stored_block D d row"
      using assms(2) unfolding js by (rule delete_tip_block [OF assms(1)])
    note row = stored_block_facts [OF del(5) assms(1)]
    obtain obs where obs: "object_table D (bd_before d) obs" using ok(6) [of b d] by auto
    then have sync: "sync_objects D (bd_before d) db0 = Ok (db0\<lparr>canonical_objects := obs\<rparr>)" for db0 :: "'a database"
      by (auto simp: sync_objects_iff)
    obtain v where v: "\<And>db0. save_state D (bd_before d) db0 =
          Ok (db0\<lparr>protocol_state := map_option (\<lambda>r. r\<lparr>sr_state := v\<rparr>) (protocol_state db0)\<rparr>)"
        "state_from_value D v = Some (bd_before d)"
      using assms(1) unfolding serde_laws_def save_state_def by (metis ok_or_iffs(1) res_bind.simps(1))
    have restored: "\<exists>i. to_i64 h = Ok i" if "tip_height (bd_before d) = Some h" for h
      using apply_block_tip(4) [OF j(2) that] row(2) by (auto simp: res_simps)
    have "tip_height s = Some (bd_height d)" using tip(1) by (simp add: js)
    then obtain journal where r: "(db', r) =
       (db\<lparr>canonical_blocks := rs, canonical_events := es, canonical_objects := obs,
           protocol_state := map_option (\<lambda>r. r\<lparr>sr_state := v\<rparr>) (protocol_state db), reorg_journal := journal\<rparr>,
        if f = Reachable then Ok (Some (bd_before d)) else Err Unavailable)"
      using assms(3) False restored row(2)
      by (cases "tip_height (bd_before d)")
        (auto simp: rollback_tip_def rollback_block_def transpose_i64_def transact_def load to_i64_eq
          del(1,4) row(3) ok_or_def disconnect_apply [OF j(2)] sync v(1))
    then have "store_ok X D bnd js' (bd_before d) db'"
      unfolding store_ok_def using ok(1,6) del(2,3) j(1) obs v(2) by (auto simp: stored_state_def)
    then show thesis using popped [OF js] r False by blast
  qed
qed

section \<open>Other writes\<close>

lemma transact_Ok_iff: "transact f db body = (db', Ok x) \<longleftrightarrow> f = Reachable \<and> body db = Ok (db', x)"
  by (cases f) (auto simp: transact_def split: res.splits)

lemma transact_database: "transact f db body = (db', r) \<Longrightarrow> db' = db \<or> (\<exists>x. body db = Ok (db', x))"
  by (auto simp: transact_def split: res.splits if_splits)

lemma insert_mempool_rows_database:
  "insert_mempool_rows D txs db = Ok db' \<Longrightarrow> \<exists>rs. db' = db\<lparr>mempool_overlay := rs\<rparr>"
proof (induction txs arbitrary: db)
  case (Cons tx txs)
  then obtain r where "insert_mempool_rows D txs (db\<lparr>mempool_overlay := mempool_overlay db @ [r]\<rparr>) = Ok db'"
    by (auto simp: res_simps insert_mempool_def split: if_splits)
  from Cons.IH [OF this] show ?case by auto
qed (auto intro: exI [of _ "mempool_overlay db'"])

lemma replace_mempool_database:
  assumes "replace_mempool D f txs db = (db', r)"
  shows "\<exists>rs. db' = db\<lparr>mempool_overlay := rs\<rparr>"
  using transact_database [OF assms [unfolded replace_mempool_def]]
proof
  assume "db' = db"
  then show ?thesis by (intro exI [of _ "mempool_overlay db"]) simp
next
  assume "\<exists>x. res_bind (insert_mempool_rows D txs (db\<lparr>mempool_overlay := []\<rparr>)) (\<lambda>db'. Ok (db', ())) = Ok (db', x)"
  then have "insert_mempool_rows D txs (db\<lparr>mempool_overlay := []\<rparr>) = Ok db'" by (auto simp: res_simps)
  from insert_mempool_rows_database [OF this] show ?thesis by auto
qed

lemma insert_mempool_rows_no_panic: "insert_mempool_rows D txs db \<noteq> Panic"
  by (induction txs arbitrary: db) (auto simp: res_simps insert_mempool_def split: if_splits)

lemma replace_mempool_no_panic: "replace_mempool D f txs db \<noteq> (db', Panic)"
  by (auto simp: replace_mempool_def transact_def res_simps insert_mempool_rows_no_panic split: res.splits)

lemma store_ok_mempool [simp]: "store_ok X D bnd js s (db\<lparr>mempool_overlay := rs\<rparr>) = store_ok X D bnd js s db"
  by (simp add: store_ok_def stored_state_def)

lemma bind_or_load_bound:
  assumes "stored_state D bnd db s"
  shows "bind_or_load X D f b db =
    (db, if f = Lost_before_commit then Err Unavailable
         else if b \<noteq> bnd then Err OtherDeployment
         else if f = Reachable then Ok s else Err Unavailable)"
  using assms by (auto simp: bind_or_load_def transact_def stored_state_def ok_or_def)

text \<open>A fresh database is bound to the deployment that connects first, with the empty journal.\<close>

lemma bind_or_load_fresh:
  assumes "serde_laws D"
  shows "\<exists>db. bind_or_load X D Reachable bnd empty_database = (db, Ok (chain_state_new X bnd)) \<and>
    store_ok X D bnd [] (chain_state_new X bnd) db"
proof -
  obtain bv sv where "binding_to_value D bnd = Some bv" "binding_from_value D bv = Some bnd"
      "state_to_value D (chain_state_new X bnd) = Some sv" "state_from_value D sv = Some (chain_state_new X bnd)"
    using assms unfolding serde_laws_def by metis
  then show ?thesis
    by (simp add: bind_or_load_def transact_def empty_database_def ok_or_def Let_def store_ok_def
        stored_state_def object_table_def chain_state_new_def bt_values_def bt_entries_new)
qed

section \<open>The store as a journal in a database\<close>

definition store_holds ::
    "externals \<Rightarrow> 'j serde \<Rightarrow> binding \<Rightarrow> (block_view \<times> block_delta) list \<Rightarrow> chain_state \<Rightarrow> 'j database \<Rightarrow> bool" where
  "store_holds X D bnd js s db \<longleftrightarrow> serde_laws D \<and> store_ok X D bnd js s db"

definition store_persists :: "'j serde \<Rightarrow> chain_state \<Rightarrow> block_delta \<Rightarrow> 'j database \<Rightarrow> 'j database \<Rightarrow> bool" where
  "store_persists D t d db db' \<longleftrightarrow> (\<exists>f release. db' = fst (store_apply_block D f t d release db))"

definition store_undoes :: "'j serde \<Rightarrow> 'j database \<Rightarrow> 'j database \<Rightarrow> bool" where
  "store_undoes D db db' \<longleftrightarrow> (\<exists>f stamp. db' = fst (rollback_tip D f stamp db))"

definition store_touches :: "externals \<Rightarrow> 'j serde \<Rightarrow> 'j database \<Rightarrow> 'j database \<Rightarrow> bool" where
  "store_touches X D db db' \<longleftrightarrow>
     (\<exists>f txs. db' = fst (replace_mempool D f txs db)) \<or> (\<exists>f b. db' = fst (bind_or_load X D f b db))"

interpretation store: durable_journal "connect_block X" undo_block "chain_state_new X bnd"
  "store_holds X D bnd" "store_persists D" "store_undoes D" "store_touches X D" for X D bnd
proof
  fix js s and db db' :: "'a database"
  assume h: "store_holds X D bnd js s db"
  then show "chain_journal X bnd js s" using store_okD(2) by (auto simp: store_holds_def)
  note laws = h [unfolded store_holds_def]
  show "store_holds X D bnd js s db' \<or> t = s \<and> store_holds X D bnd ((b, d) # js) t' db'"
    if c: "connect_block X t b = Some (t', d)" and p: "store_persists D t' d db db'" for t b t' d
  proof -
    obtain f release r where "store_apply_block D f t' d release db = (db', r)"
      using p by (auto simp: store_persists_def) (metis surjective_pairing)
    then show ?thesis
      using c laws by (auto simp: store_holds_def connect_block_iff elim: store_apply_block_cases)
  qed
  show "store_holds X D bnd js s db' \<or>
      (\<exists>b d js' s'. js = (b, d) # js' \<and> undo_block s d = Some s' \<and> store_holds X D bnd js' s' db')"
    if u: "store_undoes D db db'"
  proof -
    obtain f stamp r where "rollback_tip D f stamp db = (db', r)"
      using u by (auto simp: store_undoes_def) (metis surjective_pairing)
    with laws [THEN conjunct1] laws [THEN conjunct2] show ?thesis
    proof (cases rule: rollback_tip_cases)
      case (popped b d js')
      have "apply_block X (bd_before d) b = (s, Ok d)"
        using store_okD(2) [OF laws [THEN conjunct2]] unfolding popped(1) chain_journal_Cons by blast
      then have "undo_block s d = Some (bd_before d)" by (simp add: undo_block_def disconnect_apply)
      then show ?thesis using popped laws by (auto simp: store_holds_def)
    qed (use h in auto)
  qed
  show "store_holds X D bnd js s db'" if "store_touches X D db db'"
  proof -
    have "fst (bind_or_load X D f b db) = db" for f b
      by (simp add: bind_or_load_bound [OF store_okD(1) [OF laws [THEN conjunct2]]])
    moreover have "store_ok X D bnd js s (fst (replace_mempool D f txs db))" for f txs
    proof -
      obtain rs where "fst (replace_mempool D f txs db) = db\<lparr>mempool_overlay := rs\<rparr>"
        using replace_mempool_database by (metis surjective_pairing)
      then show ?thesis using laws by simp
    qed
    ultimately show ?thesis using that laws by (auto simp: store_touches_def store_holds_def)
  qed
qed

end
