(* ===== verification/Store_Progress.thy ===== *)
theory Store_Progress
  imports Store_Invariant
begin

text \<open>
  When the store accepts a block, and what its queries return. A block the reducer applied to the
  stored state is refused only by a lost connection, a commit text the schema rejects, a height
  beyond \<open>bigint\<close> or a repeated block hash: in particular the primary keys of the event and
  object tables are never violated. The queries return what was applied.
\<close>

section \<open>Rows exist\<close>

lemma bt_values_iff: "v \<in> set (bt_values m) \<longleftrightarrow> (\<exists>k. bt_get m k = Some v)"
  by (force simp: bt_values_def bt.get_iff_entries)

lemma rows_exist:
  assumes "\<And>x. x \<in> set xs \<Longrightarrow> \<exists>r. f x = Ok r"
  obtains rs where "list_all2 (\<lambda>x r. f x = Ok r) xs rs"
  using assms by (induction xs arbitrary: thesis) (auto simp: list_all2_Cons1, metis)

lemma event_row_exists:
  assumes "serde_laws D" and "unat (ev_height e) < 2 ^ 63"
  shows "\<exists>r. event_row_of D e = Ok r"
proof -
  obtain v where "event_to_value D e = Some v" using assms(1) unfolding serde_laws_def by blast
  then show ?thesis using assms(2) by (simp add: event_row_of_def to_i64_eq ok_or_def)
qed

lemma object_row_exists:
  assumes "serde_laws D"
  shows "(\<exists>r. object_row_of D ob = Ok r) \<longleftrightarrow> unat (ob_create_height ob) < 2 ^ 63"
proof -
  obtain v where "object_to_value D ob = Some v" using assms unfolding serde_laws_def by blast
  then show ?thesis by (auto simp: object_row_of_def res_simps)
qed

lemma block_row_exists:
  assumes "serde_laws D" and "unat (bd_height d) < 2 ^ 63"
    and "commit_text (parser_commit release)" and "commit_text (indexer_commit release)"
  obtains r where "block_row_of D d release = Ok r" and "block_row_ok r"
    and "br_height r = uint (bd_height d)" and "br_block_hash r = bytes_of (bd_block_hash d)"
proof -
  obtain v where "delta_to_value D d = Some v" using assms(1) unfolding serde_laws_def by blast
  then show thesis
    using assms(2-4) that u64_bound
    by (simp add: block_row_of_def to_i64_eq ok_or_def Let_def block_row_ok_def octets32_def
        order_less_trans [OF u64_bound])
qed

section \<open>The event and object tables of a block\<close>

lemma event_rows_keys:
  assumes "event_rows D es rs" and "sorted_wrt (<) (map event_order es)"
  shows "distinct (map event_row_key rs)"
proof -
  have "map event_row_key rs = map (\<lambda>e. (uint (ev_height e), uint (ev_tx_index e), uint (ev_event_index e), uint (ev_sub_index e))) es"
    using assms(1) by (induction rule: list_all2_induct) (auto simp: event_row_of_Ok)
  moreover have "distinct (map event_order es)" using assms(2) by (simp add: strict_sorted_iff)
  ultimately show ?thesis
    by (auto simp: distinct_map inj_on_def event_order_def word_uint_eq_iff)
qed

lemma object_rows_keys:
  assumes "object_rows D obs rs"
  shows "map or_object_key rs = map (\<lambda>ob. bytes_of (ob_object_key ob)) obs"
  using assms by (induction rule: list_all2_induct) (auto simp: object_row_of_Ok)

lemma chain_ok_object_keys:
  assumes "chain_ok X s"
  shows "map ob_object_key (bt_values (objects s)) = map fst (bt_entries (objects s))"
proof -
  have "ob_object_key ob = k" if "(k, ob) \<in> set (bt_entries (objects s))" for k ob
    using that chain_ok_key [OF assms] by (simp flip: bt.get_iff_entries)
  then show ?thesis by (auto simp: bt_values_def)
qed

lemma object_table_exists:
  assumes "serde_laws D" and "chain_ok X s"
  shows "(\<exists>rs. object_table D s rs) \<longleftrightarrow> (\<forall>k ob. bt_get (objects s) k = Some ob \<longrightarrow> unat (ob_create_height ob) < 2 ^ 63)"
proof
  assume "\<exists>rs. object_table D s rs"
  then obtain rs where "object_rows D (bt_values (objects s)) rs" by (auto simp: object_table_def)
  then have "\<exists>r. object_row_of D ob = Ok r" if "ob \<in> set (bt_values (objects s))" for ob
    using that by (induction rule: list_all2_induct) auto
  then show "\<forall>k ob. bt_get (objects s) k = Some ob \<longrightarrow> unat (ob_create_height ob) < 2 ^ 63"
    unfolding object_row_exists [OF assms(1)] bt_values_iff by blast
next
  assume *: "\<forall>k ob. bt_get (objects s) k = Some ob \<longrightarrow> unat (ob_create_height ob) < 2 ^ 63"
  obtain rs where rs: "object_rows D (bt_values (objects s)) rs"
    by (rule rows_exist [of "bt_values (objects s)" "object_row_of D"])
      (use * in \<open>auto simp: bt_values_iff object_row_exists [OF assms(1)]\<close>)
  have "map or_object_key rs = map bytes_of (map fst (bt_entries (objects s)))"
    unfolding object_rows_keys [OF rs] chain_ok_object_keys [OF assms(2), symmetric] by simp
  then have "distinct (map or_object_key rs)"
    using bt.entries_distinct [of "objects s"] by (simp add: distinct_map inj_on_def)
  with rs show "\<exists>rs. object_table D s rs" by (auto simp: object_table_def)
qed

lemma apply_block_create_heights:
  assumes "admissible X hs s b" and "apply_block X s b = (s', Ok d)" and "bt_get (objects s') k = Some ob'"
  shows "ob_create_height ob' = bd_height d \<or>
    (\<exists>ob. bt_get (objects s) k = Some ob \<and> ob_create_height ob' = ob_create_height ob)"
proof -
  obtain s1 where e: "block_events X s b = (s1, Ok (bd_events d))" and s': "objects s' = objects s1"
    by (rule apply_block_maps [OF assms(2)])
  have h: "bd_height d = bv_height b" by (rule apply_block_Ok [OF assms(2)])
  have evolve: "objects_evolve X b (transactions b) s s1" by (rule block_events_objects [OF assms(1) e])
  show ?thesis
  proof (cases "bt_get (objects s) k")
    case None
    then obtain tx ho hc ks where "obj_step\<^sup>*\<^sup>* (created_object X s b tx ho hc ks) ob'"
      using evolve assms(3) unfolding objects_evolve_def s' by blast
    then have "same_identity (created_object X s b tx ho hc ks) ob'" by (rule obj_steps_facts)
    then show ?thesis by (simp add: h same_identity_def created_object_def)
  next
    case (Some ob)
    then obtain ob1 where "bt_get (objects s1) k = Some ob1" "obj_step\<^sup>*\<^sup>* ob ob1"
      using evolve unfolding objects_evolve_def by blast
    then have "same_identity ob ob'" using assms(3) s' obj_steps_facts(1) by simp
    then show ?thesis using Some by (simp add: same_identity_def)
  qed
qed

section \<open>A block the reducer applied is stored\<close>

lemma store_ok_event_heights:
  assumes "store_ok X D bnd js s db" and "chain_journal X bnd ((b, d) # js) s'" and "q \<in> set (canonical_events db)"
  shows "er_height q \<noteq> uint (bd_height d)"
proof -
  obtain b' d' e where e: "(b', d') \<in> set js" "e \<in> set (bd_events d')" "er_height q = uint (ev_height e)"
    using list_all2_in_set2 [OF store_okD(4) [OF assms(1)] assms(3)] event_row_of_Ok(1) by fastforce
  show ?thesis
    using chain_journal_older [OF assms(2) e(1)] journal_event_height [OF store_okD(2) [OF assms(1)] e(1,2)]
    by (simp add: e(3) word_uint_eq_iff)
qed

lemma insert_events_succeeds:
  assumes "serde_laws D" and "store_ok X D bnd js s db" and "chain_journal X bnd ((b, d) # js) s'"
    and "unat (bd_height d) < 2 ^ 63" and "sorted_wrt (<) (map event_order (bd_events d))"
    and "br_height r = uint (bd_height d)"
  shows "\<exists>db'. insert_events D (bd_events d) (db\<lparr>canonical_blocks := canonical_blocks db @ [r]\<rparr>) = Ok db'"
proof -
  have heights: "ev_height e = bd_height d" if "e \<in> set (bd_events d)" for e
    using journal_event_height [OF assms(3) _ that, of b] by simp
  obtain es where es: "event_rows D (bd_events d) es"
    by (rule rows_exist [of "bd_events d" "event_row_of D"])
      (use heights assms(4) in \<open>auto intro: event_row_exists [OF assms(1)]\<close>)
  have here: "\<forall>q\<in>set es. er_height q = uint (bd_height d)"
    using list_all2_in_set2 [OF es] heights event_row_of_Ok(1) by fastforce
  have "\<forall>q\<in>set (canonical_events db). er_height q \<noteq> uint (bd_height d)"
    using store_ok_event_heights [OF assms(2,3)] by blast
  with here have "er_height ` set es \<subseteq> {uint (bd_height d)}"
    and "event_row_key ` set es \<inter> event_row_key ` set (canonical_events db) = {}"
    by (auto simp: event_row_key_def)
  then show ?thesis
    unfolding insert_events_iff using es event_rows_keys [OF es assms(5)] assms(6)
    by (intro exI [of _ es] exI conjI) auto
qed

lemma store_apply_block_succeeds:
  assumes "serde_laws D" and "store_ok X D bnd js s db" and "admissible X hs s b"
    and "apply_block X s b = (s', Ok d)" and "unat (bd_height d) < 2 ^ 63"
    and "commit_text (parser_commit release)" and "commit_text (indexer_commit release)"
    and "\<forall>(b', d')\<in>set js. bd_block_hash d' \<noteq> bd_block_hash d"
  shows "\<exists>db'. store_apply_block D Reachable s' d release db = (db', Ok ()) \<and>
    store_ok X D bnd ((b, d) # js) s' db'"
proof -
  have j: "chain_journal X bnd ((b, d) # js) s'"
    using store_okD(2) [OF assms(2)] assms(4) apply_block_tip(3) [OF assms(4)] by (auto simp: connect_block_iff)
  obtain r where r: "block_row_of D d release = Ok r" "block_row_ok r"
      "br_height r = uint (bd_height d)" "br_block_hash r = bytes_of (bd_block_hash d)"
    by (rule block_row_exists [OF assms(1,5-7)])
  note rows = store_ok_block_rows [OF assms(2,1)]
  have "br_height r \<notin> br_height ` set (canonical_blocks db)"
    using rows(1) chain_journal_older [OF j] by (force simp: r(3) word_uint_eq_iff)
  moreover have "br_block_hash r \<notin> br_block_hash ` set (canonical_blocks db)"
    using rows(2) assms(8) by (force simp: r(4))
  ultimately have db1: "insert_block r db = Ok (db\<lparr>canonical_blocks := canonical_blocks db @ [r]\<rparr>)"
    using r(2) by (simp add: insert_block_iff)
  have "events_from b 0 (transactions b) (bd_events d)"
    by (rule apply_block_maps [OF assms(4)]) (simp add: block_events_from [OF assms(3)])
  then obtain db2 where db2: "insert_events D (bd_events d) (db\<lparr>canonical_blocks := canonical_blocks db @ [r]\<rparr>) = Ok db2"
    using insert_events_succeeds [OF assms(1,2) j assms(5) _ r(3)] by (auto simp: events_from_def)
  have "\<exists>rs. object_table D s' rs"
    using store_okD(5) [OF assms(2)] object_table_exists [OF assms(1) admissibleD(1) [OF assms(3)]]
      apply_block_create_heights [OF assms(3,4)] assms(5)
    unfolding object_table_exists [OF assms(1) apply_block_chain_ok(1) [OF assms(3,4)]] by metis
  then obtain db3 where db3: "sync_objects D s' db2 = Ok db3" by (auto simp: sync_objects_iff)
  obtain db4 where db4: "save_state D s' db3 = Ok db4" by (rule save_state_laws [OF assms(1)])
  have "store_apply_block D Reachable s' d release db = (db4, Ok ())"
    unfolding store_apply_block_eq [OF assms(4) store_okD(1) [OF assms(2)]]
    by (simp add: transact_def r(1) db1 db2 db3 db4)
  then show ?thesis using store_ok_push [OF assms(1,2,4) r(1) db1 db2 db3 db4] by blast
qed

section \<open>Queries\<close>

lemma finish_block_roots:
  "finish_block X prior b s es = (s', Ok d) \<Longrightarrow>
     hr_height (bd_roots d) = bd_height d \<and> hr_block_hash (bd_roots d) = bd_block_hash d"
  by (auto simp: finish_block_def Let_def split: res.splits)

lemma apply_block_roots:
  assumes "apply_block X s b = (s', Ok d)"
  shows "hr_height (bd_roots d) = bd_height d" and "hr_block_hash (bd_roots d) = bd_block_hash d"
proof -
  obtain s1 where "finish_block X s b s1 (bd_events d) = (s', Ok d)" by (rule apply_block_Ok [OF assms])
  from finish_block_roots [OF this] show "hr_height (bd_roots d) = bd_height d" and "hr_block_hash (bd_roots d) = bd_block_hash d" by blast+
qed

lemma journal_entry:
  assumes "chain_journal X bnd js s" and "(b, d) \<in> set js"
  shows "\<exists>t t'. apply_block X t b = (t', Ok d)"
  using assms
proof (induction js arbitrary: s)
  case (Cons j js)
  obtain b' d' where j: "j = (b', d')" by (cases j)
  then have "chain_journal X bnd js (bd_before d')" "apply_block X (bd_before d') b' = (s, Ok d')"
    using Cons.prems(1) by (auto simp: chain_journal_Cons simp del: journal_of.simps)
  then show ?case using Cons.IH Cons.prems(2) j by auto
qed simp

lemma hash_from_bytes_of [simp]: "hash_from_bytes (bytes_of h) = Ok h"
  by (simp add: hash_from_bytes_def ok_or_def array_try_from_def)

lemma parse_counter_unat [simp]: "parse_counter (unat c) = Ok c"
  using unsigned_less [of c] by (simp add: parse_counter_def)

lemma roots_from_row_of:
  assumes "block_row_of D d release = Ok r" and "hr_height (bd_roots d) = bd_height d"
    and "hr_block_hash (bd_roots d) = bd_block_hash d"
  shows "roots_from_row (bd_height d) r = Ok \<lparr>ph_roots = bd_roots d, ph_release = release\<rparr>"
  using assms by (auto simp: block_row_of_def res_simps Let_def roots_from_row_def)

lemma find_unique:
  assumes "find P xs = Some y" and "\<And>z. z \<in> set xs \<Longrightarrow> P z \<Longrightarrow> Q z"
  shows "Q y"
  using assms by (auto simp: find_Some_iff)

lemma journal_heights_unique:
  assumes "chain_journal X bnd js s" and "(b, d) \<in> set js" and "(b', d') \<in> set js" and "bd_height d = bd_height d'"
  shows "d = d'"
  using assms(1-3)
proof (induction js arbitrary: s)
  case (Cons j js)
  obtain c e where j: "j = (c, e)" by (cases j)
  then have t: "chain_journal X bnd js (bd_before e)"
    using Cons.prems(1) by (auto simp: chain_journal_Cons simp del: journal_of.simps)
  note older = chain_journal_older [OF Cons.prems(1) [unfolded j]]
  show ?case
  proof (cases "(b, d) = j \<or> (b', d') = j")
    case True
    then show ?thesis using older [of b d] older [of b' d'] Cons.prems(2,3) assms(4) j by auto
  next
    case False
    then show ?thesis using Cons.IH [OF t] Cons.prems(2,3) by simp
  qed
qed simp

lemma roots_at_stored:
  assumes "serde_laws D" and "store_ok X D bnd js s db" and "(b, d) \<in> set js"
  shows "\<exists>release. roots_at Reachable (bd_height d) db = Ok (Some \<lparr>ph_roots = bd_roots d, ph_release = release\<rparr>)"
proof -
  note j = store_okD(2) [OF assms(2)]
  have rows: "\<exists>b' d'. (b', d') \<in> set js \<and> stored_block D d' q" if "q \<in> set (canonical_blocks db)" for q
    using list_all2_in_set2 [OF store_okD(3) [OF assms(2)] that] by force
  have "uint (bd_height d) \<in> set (map br_height (canonical_blocks db))"
    using assms(3) unfolding store_ok_block_rows(1) [OF assms(2,1)] by force
  then obtain r where r: "find (\<lambda>r. br_height r = uint (bd_height d)) (canonical_blocks db) = Some r"
    by (cases "find (\<lambda>r. br_height r = uint (bd_height d)) (canonical_blocks db)")
      (auto simp: find_None_iff)
  then have rd: "stored_block D d r \<and> unat (bd_height d) < 2 ^ 63"
  proof (rule find_unique)
    fix q
    assume q: "q \<in> set (canonical_blocks db)" "br_height q = uint (bd_height d)"
    obtain b' d' where d': "(b', d') \<in> set js" "stored_block D d' q" using rows [OF q(1)] by blast
    then have "bd_height d' = bd_height d"
      using q(2) stored_block_facts(1) [OF d'(2) assms(1)] by (simp add: word_uint_eq_iff)
    then have "d' = d" by (rule journal_heights_unique [OF j d'(1) assms(3)])
    with d'(2) show "stored_block D d q \<and> unat (bd_height d) < 2 ^ 63"
      using stored_block_facts(2) [OF d'(2) assms(1)] by simp
  qed
  obtain release where release: "block_row_of D d release = Ok r" using rd by (auto simp: stored_block_def)
  obtain t t' where t: "apply_block X t b = (t', Ok d)" using journal_entry [OF j assms(3)] by blast
  show ?thesis
    using rd by (simp add: roots_at_def to_i64_eq r roots_from_row_of [OF release apply_block_roots [OF t]])
qed

text \<open>A query on the object table is a lookup in the state.\<close>

lemma find_rows:
  assumes "list_all2 R xs rs" and "\<And>x r. R x r \<Longrightarrow> P r \<longleftrightarrow> Q x"
  shows "rel_option R (find Q xs) (find P rs)"
  using assms(1) by (induction rule: list_all2_induct) (auto simp: assms(2))

lemma find_values:
  assumes "\<And>k v. bt_get m k = Some v \<Longrightarrow> Q v \<longleftrightarrow> k = k0"
  shows "find Q (bt_values m) = bt_get m k0"
proof (cases "find Q (bt_values m)")
  case None
  then have "\<not> Q v" if "bt_get m k = Some v" for k v using that by (auto simp: find_None_iff bt_values_iff)
  then show ?thesis using None assms by (cases "bt_get m k0") auto
next
  case (Some v)
  then have "Q v" "v \<in> set (bt_values m)" by (auto simp: find_Some_iff)
  then show ?thesis using Some assms by (auto simp: bt_values_iff)
qed

lemma payload_of_row:
  "rel_option (\<lambda>ob r. object_row_of D ob = Ok r) x y \<Longrightarrow>
     map_option or_payload y = (case x of None \<Rightarrow> None | Some ob \<Rightarrow> object_to_value D ob)"
  by (cases x; cases y) (auto simp: object_row_of_def res_simps)

lemma object_query_lookup:
  assumes "store_ok X D bnd js s db" and "chain_ok X s"
  shows "object_query Reachable key db =
    Ok (case bt_get (objects s) key of None \<Rightarrow> None | Some ob \<Rightarrow> object_to_value D ob)"
proof -
  have "rel_option (\<lambda>ob r. object_row_of D ob = Ok r) (find (\<lambda>ob. ob_object_key ob = key) (bt_values (objects s)))
      (find (\<lambda>r. or_object_key r = bytes_of key) (canonical_objects db))"
    using store_okD(5) [OF assms(1)]
    by (intro find_rows [of "\<lambda>ob r. object_row_of D ob = Ok r"]) (auto simp: object_table_def object_row_of_Ok)
  moreover have "find (\<lambda>ob. ob_object_key ob = key) (bt_values (objects s)) = bt_get (objects s) key"
    by (rule find_values) (auto dest: chain_ok_key [OF assms(2)])
  ultimately show ?thesis using payload_of_row by (simp add: object_query_def)
qed

lemma object_row_outpoint:
  assumes "object_row_of D ob = Ok r"
  shows "(or_current_txid r = bytes_of t \<and> or_current_vout r = uint v \<and> or_status r = 0) \<longleftrightarrow>
    (ob_current_outpoint ob = OutPointRef t v \<and> ob_status ob = StActive)"
  using assms
  by (cases "ob_status ob"; cases "ob_current_outpoint ob") (auto simp: object_row_of_def res_simps word_uint_eq_iff)

lemma carrier_query_lookup:
  assumes "store_ok X D bnd js s db" and "chain_ok X s"
  shows "carrier_query Reachable t v db =
    Ok (case bt_get (active s) (OutPointRef t v) of
          None \<Rightarrow> None
        | Some k \<Rightarrow> (case bt_get (objects s) k of None \<Rightarrow> None | Some ob \<Rightarrow> object_to_value D ob))"
proof -
  let ?Q = "\<lambda>ob. ob_current_outpoint ob = OutPointRef t v \<and> ob_status ob = StActive"
  have rel: "rel_option (\<lambda>ob r. object_row_of D ob = Ok r) (find ?Q (bt_values (objects s)))
      (find (\<lambda>r. or_current_txid r = bytes_of t \<and> or_current_vout r = uint v \<and> or_status r = 0) (canonical_objects db))"
    using store_okD(5) [OF assms(1)]
    by (intro find_rows [of "\<lambda>ob r. object_row_of D ob = Ok r"]) (auto simp: object_table_def object_row_outpoint)
  have found: "find ?Q (bt_values (objects s)) =
      (case bt_get (active s) (OutPointRef t v) of None \<Rightarrow> None | Some k \<Rightarrow> bt_get (objects s) k)"
  proof (cases "bt_get (active s) (OutPointRef t v)")
    case None
    then have "\<not> ?Q ob" if "bt_get (objects s) k = Some ob" for k ob
      using chain_ok_indexed [OF assms(2) that] by auto
    then show ?thesis using None by (auto simp: find_None_iff bt_values_iff)
  next
    case (Some k0)
    obtain ob0 where "bt_get (objects s) k0 = Some ob0" "?Q ob0" using chain_ok_active [OF assms(2) Some] by blast
    then have "?Q ob \<longleftrightarrow> k = k0" if "bt_get (objects s) k = Some ob" for k ob
      using chain_ok_indexed [OF assms(2) that] that Some by auto
    then show ?thesis using Some by (simp add: find_values)
  qed
  show ?thesis
    using payload_of_row [OF rel] unfolding found
    by (cases "bt_get (active s) (OutPointRef t v)") (simp_all add: carrier_query_def)
qed

end
