(* ===== verification/Ingest.thy ===== *)
theory Ingest
  imports Store_Progress
begin

text \<open>
  The ingestion worker, \<open>crates/tandem-verifier/src/ingest.rs\<close>, between a block source (the trait
  of \<open>rpc.rs\<close>) and the store. The source and the database server answer as they like: every call
  is numbered by a clock, and what the source returns, whether the connection to the database is
  lost, and the numbers the server assigns are functions of the clock. So the best block may change
  between two calls of one pass, and any call may fail.

  A pass returns the node it leaves (worker state, database, clock) beside its result.
\<close>

section \<open>The block source\<close>

record core_status =
  chain_label :: string
  blocks :: u64
  headers :: u64
  initial_block_download :: bool
  txindex_synced :: bool

fun core_label :: "network \<Rightarrow> string" where
  "core_label Mainnet = ''main''"
| "core_label Signet = ''signet''"
| "core_label Testnet4 = ''testnet4''"
| "core_label Regtest = ''regtest''"

definition ready_for :: "core_status \<Rightarrow> network \<Rightarrow> bool" where
  "ready_for st network \<longleftrightarrow>
     chain_label st = core_label network \<and> blocks st = headers st \<and>
     \<not> initial_block_download st \<and> txindex_synced st"

record block_source =
  src_status :: "nat \<Rightarrow> core_status option"
  src_best_height :: "nat \<Rightarrow> u64 option"
  src_block_hash :: "nat \<Rightarrow> u64 \<Rightarrow> hash32 option"
  src_block :: "nat \<Rightarrow> u64 \<Rightarrow> block_view option"
  src_transaction_height :: "nat \<Rightarrow> hash32 \<Rightarrow> u64 option option"
  src_mempool :: "nat \<Rightarrow> tx_view list option"

record world = block_source +
  db_outage :: "nat \<Rightarrow> outage"
  db_stamp :: "nat \<Rightarrow> int \<times> string"

section \<open>Actions\<close>

datatype ingest_error =
    SourceFailed | NotReady core_status | StoreFailed store_error | HeightOverflow
  | ReductionFailed reducer_error | NoRollbackJournal

record 'j node =
  nd_state :: chain_state
  nd_db :: "'j database"
  nd_clock :: nat

type_synonym ('j, 'a) outcome = "'j node \<times> (ingest_error, 'a) res"

fun act_bind :: "('j, 'a) outcome \<Rightarrow> ('a \<Rightarrow> 'j node \<Rightarrow> ('j, 'b) outcome) \<Rightarrow> ('j, 'b) outcome" where
  "act_bind (nd, Ok x) f = f x nd"
| "act_bind (nd, Err e) f = (nd, Err e)"
| "act_bind (nd, Panic) f = (nd, Panic)"

lemma act_bind_cong [fundef_cong]:
  "m = m' \<Longrightarrow> (\<And>nd x. m' = (nd, Ok x) \<Longrightarrow> f x nd = f' x nd) \<Longrightarrow> act_bind m f = act_bind m' f'"
  by (cases "(m', f')" rule: act_bind.cases) auto

definition ask :: "(nat \<Rightarrow> 'a option) \<Rightarrow> 'j node \<Rightarrow> ('j, 'a) outcome" where
  "ask q nd = (nd\<lparr>nd_clock := Suc (nd_clock nd)\<rparr>, ok_or SourceFailed (q (nd_clock nd)))"

definition on_store ::
    "(nat \<Rightarrow> 'j database \<Rightarrow> 'j database \<times> (store_error, 'a) res) \<Rightarrow> 'j node \<Rightarrow> ('j, 'a) outcome" where
  "on_store q nd =
     (case q (nd_clock nd) (nd_db nd) of
        (db, r) \<Rightarrow> (nd\<lparr>nd_db := db, nd_clock := Suc (nd_clock nd)\<rparr>, map_err StoreFailed r))"

section \<open>One pass\<close>

definition tip_matches :: "'w world_scheme \<Rightarrow> u64 \<Rightarrow> u64 \<Rightarrow> 'j node \<Rightarrow> ('j, bool) outcome" where
  "tip_matches W best tip nd =
     (if best < tip then (nd, Ok False)
      else
        act_bind (ask (\<lambda>t. src_block_hash W t tip) nd) (\<lambda>h nd.
        (nd, case tip_hash (nd_state nd) of None \<Rightarrow> Panic | Some th \<Rightarrow> Ok (h = th))))"

definition roll_back :: "'j serde \<Rightarrow> 'w world_scheme \<Rightarrow> 'j node \<Rightarrow> ('j, unit) outcome" where
  "roll_back D W nd =
     act_bind (on_store (\<lambda>t. rollback_tip D (db_outage W t) (db_stamp W t)) nd) (\<lambda>restored nd.
     case restored of
       None \<Rightarrow> (nd, Err NoRollbackJournal)
     | Some s \<Rightarrow> (nd\<lparr>nd_state := s\<rparr>, Ok ()))"

text \<open>A rollback that succeeds removes at least one block row.\<close>

lemma sync_objects_blocks: "sync_objects D s db = Ok db' \<Longrightarrow> canonical_blocks db' = canonical_blocks db"
  by (auto simp: sync_objects_iff)

lemma save_state_blocks: "save_state D s db = Ok db' \<Longrightarrow> canonical_blocks db' = canonical_blocks db"
  by (auto simp: save_state_def res_simps)

lemma delete_block_shrinks:
  "find (\<lambda>r. br_height r = h) (canonical_blocks db) = Some r \<Longrightarrow>
     length (canonical_blocks (delete_block h db)) < length (canonical_blocks db)"
  by (auto simp: find_Some_iff delete_block_def intro: length_filter_less [of r])

lemma rollback_block_rows:
  "rollback_block D stamp s h r db = Ok (db', s') \<Longrightarrow> canonical_blocks db' = canonical_blocks (delete_block h db)"
  by (auto simp: rollback_block_def res_simps Let_def case_prod_beta
      dest!: sync_objects_blocks save_state_blocks)

lemma rollback_tip_shrinks:
  assumes "rollback_tip D f stamp db = (db', Ok (Some s))"
  shows "length (canonical_blocks db') < length (canonical_blocks db)"
  using assms
  by (auto simp: rollback_tip_def transact_def res_simps delete_block_shrinks
      dest!: rollback_block_rows split: if_splits res.splits option.splits)

lemma act_bind_Ok_iff [res_simps]:
  "act_bind m f = (nd', Ok y) \<longleftrightarrow> (\<exists>nd x. m = (nd, Ok x) \<and> f x nd = (nd', Ok y))"
  by (cases "(m, f)" rule: act_bind.cases) auto

lemma ask_node: "ask q nd = (nd', r) \<Longrightarrow> nd' = nd\<lparr>nd_clock := Suc (nd_clock nd)\<rparr>"
  by (simp add: ask_def)

lemma tip_matches_node:
  "tip_matches W best tip nd = (nd', r) \<Longrightarrow> nd_db nd' = nd_db nd \<and> nd_state nd' = nd_state nd"
  by (auto simp: tip_matches_def ask_def ok_or_def split: if_splits option.splits)

lemma roll_back_shrinks:
  assumes "roll_back D W nd = (nd', Ok u)"
  shows "length (canonical_blocks (nd_db nd')) < length (canonical_blocks (nd_db nd))"
  using assms rollback_tip_shrinks
  by (fastforce simp: roll_back_def on_store_def res_simps split: prod.splits option.splits)

function reconcile_reorg :: "'j serde \<Rightarrow> 'w world_scheme \<Rightarrow> u64 \<Rightarrow> 'j node \<Rightarrow> ('j, unit) outcome" where
  "reconcile_reorg D W best nd =
     (case tip_height (nd_state nd) of
        None \<Rightarrow> (nd, Ok ())
      | Some tip \<Rightarrow>
          act_bind (tip_matches W best tip nd) (\<lambda>matches nd.
          if matches then (nd, Ok ())
          else
            (case tip_hash (nd_state nd) of
               None \<Rightarrow> (nd, Panic)
             | Some disconnected \<Rightarrow>
                 act_bind (roll_back D W nd) (\<lambda>_ nd.
                 if protocol_status (nd_state nd) = AwaitingInit then (nd, Ok ())
                 else reconcile_reorg D W best nd))))"
  by pat_completeness auto

termination
  by (relation "measure (\<lambda>(D, W, best, nd). length (canonical_blocks (nd_db nd)))")
    (auto dest!: tip_matches_node roll_back_shrinks)

declare reconcile_reorg.simps [simp del]

text \<open>The inclusive range of heights a pass applies.\<close>

definition height_range :: "u64 \<Rightarrow> u64 \<Rightarrow> u64 list" where
  "height_range first best = map word_of_nat [unat first ..< Suc (unat best)]"

text \<open>
  The body of the loop over that range. A refused or unacknowledged commit makes the worker reload
  the stored state, or fall back on the state before the block. A panic of the reducer ends the
  task and its state with it.
\<close>

definition apply_one ::
    "externals \<Rightarrow> 'j serde \<Rightarrow> 'w world_scheme \<Rightarrow> release_identity \<Rightarrow> block_view \<Rightarrow> 'j node \<Rightarrow> ('j, unit) outcome" where
  "apply_one X D W release b nd =
     (case apply_block X (nd_state nd) b of
        (s, Err e) \<Rightarrow> (nd\<lparr>nd_state := s\<rparr>, Err (ReductionFailed e))
      | (s, Panic) \<Rightarrow> (nd, Panic)
      | (s, Ok delta) \<Rightarrow>
          (case on_store (\<lambda>t. store_apply_block D (db_outage W t) s delta release) (nd\<lparr>nd_state := s\<rparr>) of
             (nd, Err e) \<Rightarrow>
               (case on_store (\<lambda>t db. (db, load_state D (db_outage W t) db)) nd of
                  (nd, Ok stored) \<Rightarrow> (nd\<lparr>nd_state := stored\<rparr>, Err e)
                | (nd, Err _) \<Rightarrow> (nd\<lparr>nd_state := bd_before delta\<rparr>, Err e)
                | (nd, Panic) \<Rightarrow> (nd, Panic))
           | finished \<Rightarrow> finished))"

fun apply_range ::
    "externals \<Rightarrow> 'j serde \<Rightarrow> 'w world_scheme \<Rightarrow> release_identity \<Rightarrow> u64 list \<Rightarrow> 'j node \<Rightarrow> ('j, unit) outcome" where
  "apply_range X D W release [] nd = (nd, Ok ())"
| "apply_range X D W release (h # hs) nd =
     act_bind (ask (\<lambda>t. src_block W t h) nd) (\<lambda>b nd.
     act_bind (apply_one X D W release b nd) (\<lambda>_. apply_range X D W release hs))"

definition refresh_mempool :: "'j serde \<Rightarrow> 'w world_scheme \<Rightarrow> 'j node \<Rightarrow> ('j, unit) outcome" where
  "refresh_mempool D W nd =
     act_bind (ask (src_mempool W) nd) (\<lambda>txs.
     on_store (\<lambda>t. replace_mempool D (db_outage W t) txs))"

text \<open>Where the pass starts: above the tip, or at the configured INIT if it is confirmed.\<close>

definition first_height :: "'w world_scheme \<Rightarrow> 'j node \<Rightarrow> ('j, u64 option) outcome" where
  "first_height W nd =
     (case tip_height (nd_state nd) of
        Some tip \<Rightarrow> (nd, res_bind (ok_or HeightOverflow (checked_add tip 1)) (\<lambda>h. Ok (Some h)))
      | None \<Rightarrow> ask (\<lambda>t. src_transaction_height W t (init_txid (binding_of (nd_state nd)))) nd)"

definition run_once ::
    "externals \<Rightarrow> 'j serde \<Rightarrow> 'w world_scheme \<Rightarrow> release_identity \<Rightarrow> 'j node \<Rightarrow> ('j, unit) outcome" where
  "run_once X D W release nd =
     act_bind (ask (src_status W) nd) (\<lambda>status nd.
     if \<not> ready_for status (bnd_network (binding_of (nd_state nd))) then (nd, Err (NotReady status))
     else
       act_bind (ask (src_best_height W) nd) (\<lambda>best nd.
       act_bind (reconcile_reorg D W best nd) (\<lambda>_ nd.
       act_bind (first_height W nd) (\<lambda>first nd.
       case first of
         None \<Rightarrow> refresh_mempool D W nd
       | Some first \<Rightarrow>
           act_bind (if first \<le> best then apply_range X D W release (height_range first best) nd else (nd, Ok ()))
             (\<lambda>_. refresh_mempool D W)))))"

section \<open>The worker loop\<close>

record worker_health =
  last_successful_height :: "u64 option"
  last_error :: "ingest_error option"
  catching_up :: bool

text \<open>
  One round of \<open>run\<close>: a pass, then the health record. A panic ends the task (\<open>None\<close>). The wait for
  the next wake-up has no effect on the state.
\<close>

definition run_round ::
    "externals \<Rightarrow> 'j serde \<Rightarrow> 'w world_scheme \<Rightarrow> release_identity \<Rightarrow> 'j node \<times> worker_health
      \<Rightarrow> ('j node \<times> worker_health) option" where
  "run_round X D W release = (\<lambda>(nd, health).
     case run_once X D W release nd of
       (nd', Ok _) \<Rightarrow>
         Some (nd', health\<lparr>last_successful_height := tip_height (nd_state nd'), last_error := None, catching_up := False\<rparr>)
     | (nd', Err e) \<Rightarrow> Some (nd', health\<lparr>last_error := Some e, catching_up := False\<rparr>)
     | (nd', Panic) \<Rightarrow> None)"

fun run_rounds ::
    "externals \<Rightarrow> 'j serde \<Rightarrow> 'w world_scheme \<Rightarrow> release_identity \<Rightarrow> nat \<Rightarrow> 'j node \<times> worker_health
      \<Rightarrow> ('j node \<times> worker_health) option" where
  "run_rounds X D W release 0 w = Some w"
| "run_rounds X D W release (Suc n) w =
     (case run_round X D W release w of None \<Rightarrow> None | Some w' \<Rightarrow> run_rounds X D W release n w')"

lemma run_rounds_last:
  "run_rounds X D W release n w = Some w' \<Longrightarrow> run_rounds X D W release (Suc n) w = run_round X D W release w'"
proof (induction n arbitrary: w)
  case 0
  then show ?case by (simp split: option.splits)
next
  case (Suc n)
  then obtain w1 where w1: "run_round X D W release w = Some w1" "run_rounds X D W release n w1 = Some w'"
    by (auto split: option.splits)
  show ?case using Suc.IH [OF w1(2)] by (subst run_rounds.simps(2)) (simp only: w1(1) option.case)
qed

end
