(* ===== verification/Ingest_Safety.thy ===== *)
theory Ingest_Safety
  imports Ingest
begin

text \<open>
  What a pass of the worker does to the database and to the worker's own state, whatever the source
  and the database server answer. Every write of a pass is a commit of the \<open>durable_journal\<close>
  interface, so its facts apply; the worker's state agrees with the stored one as long as no
  acknowledgement of a commit is lost; and a successful pass over a source that does not move ends
  at its best block, with a journal that consists of its blocks.
\<close>

abbreviation store_step :: "externals \<Rightarrow> 'j serde \<Rightarrow> 'j database \<Rightarrow> 'j database \<Rightarrow> bool" where
  "store_step X D \<equiv> commit_step (connect_block X) (store_persists D) (store_undoes D) (store_touches X D)"

section \<open>What every step of a pass keeps\<close>

lemma act_bind_rule:
  assumes "\<And>nd x. m = (nd, Ok x) \<Longrightarrow> P (f x nd)" and "\<And>nd e. m = (nd, Err e) \<Longrightarrow> P (nd, Err e)"
    and "\<And>nd. m = (nd, Panic) \<Longrightarrow> P (nd, Panic)"
  shows "P (act_bind m f)"
  using assms by (cases "(m, f)" rule: act_bind.cases) auto

text \<open>The blocks a source serves, at any time and height.\<close>

definition served :: "'w world_scheme \<Rightarrow> block_view \<Rightarrow> bool" where
  "served W b \<longleftrightarrow> (\<exists>t h. src_block W t h = Some b)"

lemma ask_served: "ask (\<lambda>t. src_block W t h) nd = (nd', Ok b) \<Longrightarrow> served W b"
  by (auto simp: ask_def ok_or_def served_def split: option.splits)

text \<open>
  A relation between the node before and after that holds of every elementary action holds of a
  whole pass.
\<close>

locale pass_relation =
  fixes X :: externals and D :: "'j serde" and W :: "'w world_scheme" and release :: release_identity
    and R :: "'j node \<Rightarrow> 'j node \<Rightarrow> bool"
  assumes R_refl: "R nd nd"
    and R_trans: "R nd nd1 \<Longrightarrow> R nd1 nd2 \<Longrightarrow> R nd nd2"
    and R_clock: "R nd (nd\<lparr>nd_clock := Suc (nd_clock nd)\<rparr>)"
    and R_roll_back: "R nd (fst (roll_back D W nd))"
    and R_apply_one: "served W b \<Longrightarrow> R nd (fst (apply_one X D W release b nd))"
    and R_mempool: "R nd (fst (on_store (\<lambda>t. replace_mempool D (db_outage W t) txs) nd))"
begin

lemma R_bind:
  assumes "R nd (fst m)" and "\<And>nd' x. m = (nd', Ok x) \<Longrightarrow> R nd' (fst (f x nd'))"
  shows "R nd (fst (act_bind m f))"
  by (rule act_bind_rule) (use assms R_trans in fastforce)+

lemma R_ask: "R nd (fst (ask q nd))"
  by (simp add: ask_def R_clock)

lemma R_tip_matches: "R nd (fst (tip_matches W best tip nd))"
  unfolding tip_matches_def by (auto simp: R_refl intro: R_bind [OF R_ask])

lemma R_reconcile: "R nd (fst (reconcile_reorg D W best nd))"
proof (induction "length (canonical_blocks (nd_db nd))" arbitrary: nd rule: less_induct)
  case less
  have again: "R nd1 (fst (act_bind (roll_back D W nd1)
      (\<lambda>_ nd. if protocol_status (nd_state nd) = AwaitingInit then (nd, Ok ()) else reconcile_reorg D W best nd)))"
    if "nd_db nd1 = nd_db nd" for nd1
    using that less by (intro R_bind [OF R_roll_back]) (auto simp: R_refl dest: roll_back_shrinks)
  show ?case
    unfolding reconcile_reorg.simps [of D W best nd]
    by (auto simp: R_refl again split: option.split dest!: tip_matches_node intro!: R_bind [OF R_tip_matches])
qed

lemma R_apply_range: "R nd (fst (apply_range X D W release hs nd))"
  by (induction hs arbitrary: nd) (auto simp: R_refl intro!: R_bind [OF R_ask] R_bind [OF R_apply_one] dest: ask_served)

lemma R_refresh: "R nd (fst (refresh_mempool D W nd))"
  unfolding refresh_mempool_def by (rule R_bind [OF R_ask]) (rule R_mempool)

lemma R_first_height: "R nd (fst (first_height W nd))"
  by (auto simp: first_height_def R_refl R_ask split: option.split)

lemma R_run_once: "R nd (fst (run_once X D W release nd))"
  unfolding run_once_def
  by (auto simp: R_refl R_refresh split: option.split
      intro!: R_bind [OF R_ask] R_bind [OF R_reconcile] R_bind [OF R_first_height] R_bind [OF R_apply_range])

lemma R_run_round: "run_round X D W release (nd, health) = Some w \<Longrightarrow> R nd (fst w)"
  using R_run_once [of nd] by (auto simp: run_round_def split: prod.splits res.splits)

lemma R_run_rounds: "run_rounds X D W release n (nd, health) = Some w \<Longrightarrow> R nd (fst w)"
proof (induction n arbitrary: nd health)
  case 0
  then show ?case by (auto simp: R_refl)
next
  case (Suc n)
  then obtain nd1 health1 where "run_round X D W release (nd, health) = Some (nd1, health1)"
      "run_rounds X D W release n (nd1, health1) = Some w"
    by (auto split: option.splits)
  then show ?case using R_run_round [of nd health "(nd1, health1)"] Suc.IH R_trans by fastforce
qed

end

section \<open>Every write is a commit\<close>

definition commits :: "externals \<Rightarrow> 'j serde \<Rightarrow> 'j node \<Rightarrow> 'j node \<Rightarrow> bool" where
  "commits X D nd nd' \<longleftrightarrow> (store_step X D)\<^sup>*\<^sup>* (nd_db nd) (nd_db nd')"

lemma on_store_db: "nd_db (fst (on_store q nd)) = fst (q (nd_clock nd) (nd_db nd))"
  by (simp add: on_store_def split: prod.splits)

lemma on_store_state: "nd_state (fst (on_store q nd)) = nd_state nd"
  by (simp add: on_store_def split: prod.splits)

lemma roll_back_db: "nd_db (fst (roll_back D W nd)) =
    fst (rollback_tip D (db_outage W (nd_clock nd)) (db_stamp W (nd_clock nd)) (nd_db nd))"
  unfolding roll_back_def
  by (rule act_bind_rule) (auto simp: on_store_def split: prod.splits option.splits)

lemma apply_one_db:
  assumes "apply_block X (nd_state nd) b = (s, Ok d)"
  shows "nd_db (fst (apply_one X D W release b nd)) =
    fst (store_apply_block D (db_outage W (nd_clock nd)) s d release (nd_db nd))"
  by (simp add: apply_one_def assms on_store_def split: prod.splits res.splits)

lemma apply_one_refused:
  "(\<nexists>s d. apply_block X (nd_state nd) b = (s, Ok d)) \<Longrightarrow> nd_db (fst (apply_one X D W release b nd)) = nd_db nd"
  by (auto simp: apply_one_def split: prod.splits res.splits)

interpretation writes: pass_relation X D W release "commits X D" for X D W release
proof
  fix nd :: "'a node"
  show "commits X D nd (fst (roll_back D W nd))"
    unfolding commits_def roll_back_db
    by (rule r_into_rtranclp, rule commit_undo) (unfold store_undoes_def, blast)
  show "commits X D nd (fst (apply_one X D W release b nd))" for b
  proof (cases "\<exists>s d. apply_block X (nd_state nd) b = (s, Ok d)")
    case True
    then obtain s d where a: "apply_block X (nd_state nd) b = (s, Ok d)" by blast
    then have "connect_block X (nd_state nd) b = Some (s, d)" by (simp add: connect_block_iff)
    then show ?thesis
      unfolding commits_def apply_one_db [OF a]
      by (intro r_into_rtranclp commit_persist) (auto simp: store_persists_def)
  qed (simp add: commits_def apply_one_refused)
  show "commits X D nd (fst (on_store (\<lambda>t. replace_mempool D (db_outage W t) txs) nd))" for txs
    unfolding commits_def on_store_db
    by (rule r_into_rtranclp, rule commit_touch) (unfold store_touches_def, blast)
qed (auto simp: commits_def)

section \<open>The worker agrees with the store\<close>

definition synced :: "externals \<Rightarrow> 'j serde \<Rightarrow> binding \<Rightarrow> 'j node \<Rightarrow> bool" where
  "synced X D bnd nd \<longleftrightarrow> (\<exists>js. store_holds X D bnd js (nd_state nd) (nd_db nd))"

text \<open>The same, with a property of the blocks of the journal.\<close>

definition synced_on :: "(block_view \<Rightarrow> bool) \<Rightarrow> externals \<Rightarrow> 'j serde \<Rightarrow> binding \<Rightarrow> 'j node \<Rightarrow> bool" where
  "synced_on P X D bnd nd \<longleftrightarrow>
     (\<exists>js. store_holds X D bnd js (nd_state nd) (nd_db nd) \<and> (\<forall>(b, d)\<in>set js. P b))"

lemma synced_on_True: "synced_on (\<lambda>_. True) = synced"
  by (simp add: fun_eq_iff synced_on_def synced_def)

definition acknowledged :: "'w world_scheme \<Rightarrow> bool" where
  "acknowledged W \<longleftrightarrow> (\<forall>t. db_outage W t \<noteq> Lost_after_commit)"

lemma roll_back_Ok:
  assumes "store_holds X D bnd js s (nd_db nd)" and "roll_back D W nd = (nd', Ok u)"
  obtains b d js' where "js = (b, d) # js'" and "store_holds X D bnd js' (nd_state nd') (nd_db nd')"
    and "nd_state nd' = bd_before d"
proof -
  have h: "serde_laws D" "store_ok X D bnd js s (nd_db nd)" using assms(1) by (simp_all add: store_holds_def)
  let ?f = "db_outage W (nd_clock nd)" and ?st = "db_stamp W (nd_clock nd)"
  obtain db r where r: "rollback_tip D ?f ?st (nd_db nd) = (db, r)" by force
  then have "r = Ok (Some (nd_state nd'))" and db: "nd_db nd' = db"
    using assms(2) by (auto simp: roll_back_def on_store_def res_simps split: option.splits)
  with h r show thesis
  proof (cases rule: rollback_tip_cases)
    case (popped b d js')
    then show thesis
      using that [OF popped(1)] \<open>r = Ok (Some (nd_state nd'))\<close> h(1) by (auto simp: store_holds_def db split: if_splits)
  qed (auto split: if_splits)
qed

lemma roll_back_Err:
  assumes "store_holds X D bnd js s (nd_db nd)" and "roll_back D W nd = (nd', r)" and "r \<noteq> Ok ()"
  shows "nd_state nd' = nd_state nd"
    and "nd_db nd' = nd_db nd \<or> db_outage W (nd_clock nd) = Lost_after_commit"
proof -
  have h: "serde_laws D" "store_ok X D bnd js s (nd_db nd)" using assms(1) by (simp_all add: store_holds_def)
  let ?f = "db_outage W (nd_clock nd)" and ?st = "db_stamp W (nd_clock nd)"
  obtain db q where q: "rollback_tip D ?f ?st (nd_db nd) = (db, q)" by force
  then have db: "nd_db nd' = db" using roll_back_db [of D W nd] assms(2) by simp
  show "nd_state nd' = nd_state nd"
    using assms(2,3) q by (cases q) (auto simp: roll_back_def on_store_def split: option.splits)
  from h q show "nd_db nd' = nd_db nd \<or> ?f = Lost_after_commit"
  proof (cases rule: rollback_tip_cases)
    case (popped b d js')
    then show ?thesis
      using assms(2,3) q by (cases ?f) (auto simp: roll_back_def on_store_def split: option.splits)
  qed (simp_all add: db)
qed

text \<open>
  Whatever state the worker had, a block the reducer applied leaves it synchronised: either the
  commit succeeded, or the stored state was reloaded, or it is the state before the block and
  nothing was committed.
\<close>

lemma apply_one_synced_on:
  assumes "store_holds X D bnd js s (nd_db nd)" and "apply_block X (nd_state nd) b = (t, Ok d)"
    and "db_outage W (nd_clock nd) \<noteq> Lost_after_commit"
    and "nd_state nd = s \<or> db_outage W (Suc (nd_clock nd)) = Reachable"
    and "\<forall>(b, d)\<in>set js. P b" and "P b"
  shows "synced_on P X D bnd (fst (apply_one X D W release b nd))"
proof -
  have h: "serde_laws D" "store_ok X D bnd js s (nd_db nd)" using assms(1) by (simp_all add: store_holds_def)
  let ?f = "db_outage W (nd_clock nd)"
  obtain db r where r: "store_apply_block D ?f t d release (nd_db nd) = (db, r)" by force
  from h assms(2) r show ?thesis
  proof (cases rule: store_apply_block_cases)
    case (refused e)
    obtain l where l: "load_state D (db_outage W (Suc (nd_clock nd))) (nd_db nd) = l"
      and "l = Ok s \<or> (\<exists>e. l = Err e) \<and> nd_state nd = s"
      using stored_state_load [OF store_okD(1) [OF h(2)]] assms(4) by (auto simp: load_state_def)
    then have "nd_state (fst (apply_one X D W release b nd)) = s"
      and "nd_db (fst (apply_one X D W release b nd)) = nd_db nd"
      using refused r l apply_block_tip(3) [OF assms(2)] by (auto simp: apply_one_def assms(2) on_store_def)
    then show ?thesis using assms(1,5) by (auto simp: synced_on_def)
  next
    case applied
    then show ?thesis
      using r h(1) assms(5,6)
      by (auto simp: apply_one_def assms(2) on_store_def synced_on_def store_holds_def intro!: exI [of _ "(b, d) # js"])
  qed (use assms(3) in simp)
qed

interpretation sync_on: pass_relation X D W release
  "\<lambda>nd nd'. acknowledged W \<and> (\<forall>b. served W b \<longrightarrow> P b) \<longrightarrow> synced_on P X D bnd nd \<longrightarrow> synced_on P X D bnd nd'"
  for X D W release bnd P
proof
  fix nd :: "'a node"
  show "acknowledged W \<and> (\<forall>b. served W b \<longrightarrow> P b) \<longrightarrow> synced_on P X D bnd nd \<longrightarrow>
      synced_on P X D bnd (fst (roll_back D W nd))"
  proof (intro impI)
    assume a: "acknowledged W \<and> (\<forall>b. served W b \<longrightarrow> P b)" and "synced_on P X D bnd nd"
    then obtain js where js: "store_holds X D bnd js (nd_state nd) (nd_db nd)" and P: "\<forall>(b, d)\<in>set js. P b"
      by (auto simp: synced_on_def)
    obtain nd' r where r: "roll_back D W nd = (nd', r)" by force
    show "synced_on P X D bnd (fst (roll_back D W nd))"
    proof (cases "r = Ok ()")
      case True
      then have ok: "roll_back D W nd = (nd', Ok ())" using r by simp
      obtain b d js' where "js = (b, d) # js'" "store_holds X D bnd js' (nd_state nd') (nd_db nd')"
        by (rule roll_back_Ok [OF js ok])
      then show ?thesis using P r by (auto simp: synced_on_def)
    next
      case False
      with roll_back_Err [OF js r] a js P show ?thesis by (auto simp: r synced_on_def acknowledged_def)
    qed
  qed
  show "acknowledged W \<and> (\<forall>b. served W b \<longrightarrow> P b) \<longrightarrow> synced_on P X D bnd nd \<longrightarrow>
      synced_on P X D bnd (fst (apply_one X D W release b nd))" if "served W b" for b
  proof (intro impI)
    assume a: "acknowledged W \<and> (\<forall>b. served W b \<longrightarrow> P b)" and "synced_on P X D bnd nd"
    then obtain js where js: "store_holds X D bnd js (nd_state nd) (nd_db nd)" and P: "\<forall>(b, d)\<in>set js. P b"
      by (auto simp: synced_on_def)
    obtain t r where r: "apply_block X (nd_state nd) b = (t, r)" by force
    show "synced_on P X D bnd (fst (apply_one X D W release b nd))"
    proof (cases r)
      case (Ok d)
      then show ?thesis
        using apply_one_synced_on [OF js, of b t d W P release] r a P that by (simp add: acknowledged_def)
    next
      case (Err e)
      then show ?thesis
        using r js P apply_block_Err [of X "nd_state nd" b t e] by (auto simp: apply_one_def synced_on_def)
    next
      case Panic
      then show ?thesis using r js P by (auto simp: apply_one_def synced_on_def)
    qed
  qed
  show "acknowledged W \<and> (\<forall>b. served W b \<longrightarrow> P b) \<longrightarrow> synced_on P X D bnd nd \<longrightarrow>
      synced_on P X D bnd (fst (on_store (\<lambda>t. replace_mempool D (db_outage W t) txs) nd))" for txs
  proof (intro impI)
    assume "synced_on P X D bnd nd"
    moreover obtain rs where "nd_db (fst (on_store (\<lambda>t. replace_mempool D (db_outage W t) txs) nd)) =
        nd_db nd\<lparr>mempool_overlay := rs\<rparr>"
      unfolding on_store_db using replace_mempool_database by (metis surjective_pairing)
    ultimately show "synced_on P X D bnd (fst (on_store (\<lambda>t. replace_mempool D (db_outage W t) txs) nd))"
      by (auto simp: synced_on_def store_holds_def on_store_state)
  qed
qed (auto simp: synced_on_def)

lemmas synced_run_once = sync_on.R_run_once [where P = "\<lambda>_. True", unfolded synced_on_True, simplified]
lemmas synced_run_rounds = sync_on.R_run_rounds [where P = "\<lambda>_. True", unfolded synced_on_True, simplified]

section \<open>Every stored block was served\<close>

definition journal_served :: "externals \<Rightarrow> 'j serde \<Rightarrow> binding \<Rightarrow> 'w world_scheme \<Rightarrow> 'j node \<Rightarrow> bool" where
  "journal_served X D bnd W nd \<longleftrightarrow>
     (\<exists>js s. store_holds X D bnd js s (nd_db nd) \<and> (\<forall>(b, d)\<in>set js. served W b))"

interpretation origin: pass_relation X D W release
  "\<lambda>nd nd'. journal_served X D bnd W nd \<longrightarrow> journal_served X D bnd W nd'" for X D W release bnd
proof
  fix nd :: "'a node"
  show "journal_served X D bnd W nd \<longrightarrow> journal_served X D bnd W (fst (roll_back D W nd))"
  proof
    assume "journal_served X D bnd W nd"
    then obtain js s where h: "serde_laws D" "store_ok X D bnd js s (nd_db nd)" "\<forall>(b, d)\<in>set js. served W b"
      by (auto simp: journal_served_def store_holds_def)
    let ?f = "db_outage W (nd_clock nd)" and ?st = "db_stamp W (nd_clock nd)"
    obtain db r where r: "rollback_tip D ?f ?st (nd_db nd) = (db, r)" by force
    have "\<exists>js s. store_ok X D bnd js s db \<and> (\<forall>(b, d)\<in>set js. served W b)"
      using h(1,2) r by (cases rule: rollback_tip_cases) (use h(2,3) in auto)
    then show "journal_served X D bnd W (fst (roll_back D W nd))"
      using h(1) by (simp add: journal_served_def store_holds_def roll_back_db r)
  qed
  show "journal_served X D bnd W nd \<longrightarrow> journal_served X D bnd W (fst (apply_one X D W release b nd))"
    if "served W b" for b
  proof
    assume js: "journal_served X D bnd W nd"
    then obtain js s where h: "serde_laws D" "store_ok X D bnd js s (nd_db nd)" "\<forall>(b, d)\<in>set js. served W b"
      by (auto simp: journal_served_def store_holds_def)
    show "journal_served X D bnd W (fst (apply_one X D W release b nd))"
    proof (cases "\<exists>s d. apply_block X (nd_state nd) b = (s, Ok d)")
      case True
      then obtain t d where a: "apply_block X (nd_state nd) b = (t, Ok d)" by blast
      obtain db r where r: "store_apply_block D (db_outage W (nd_clock nd)) t d release (nd_db nd) = (db, r)" by force
      have "\<exists>js s. store_ok X D bnd js s db \<and> (\<forall>(b, d)\<in>set js. served W b)"
        using h(1,2) a r
      proof (cases rule: store_apply_block_cases)
        case refused
        then show ?thesis using h(2,3) by auto
      qed (use h(3) that in \<open>auto intro!: exI [of _ "(b, d) # js"]\<close>)
      then show ?thesis using h(1) by (simp add: journal_served_def store_holds_def apply_one_db [OF a] r)
    qed (use js in \<open>simp add: journal_served_def apply_one_refused\<close>)
  qed
  show "journal_served X D bnd W nd \<longrightarrow>
      journal_served X D bnd W (fst (on_store (\<lambda>t. replace_mempool D (db_outage W t) txs) nd))" for txs
  proof -
    obtain rs where "nd_db (fst (on_store (\<lambda>t. replace_mempool D (db_outage W t) txs) nd)) =
        nd_db nd\<lparr>mempool_overlay := rs\<rparr>"
      unfolding on_store_db using replace_mempool_database by (metis surjective_pairing)
    then show ?thesis by (simp add: journal_served_def store_holds_def)
  qed
qed (auto simp: journal_served_def)

end
