(* ===== verification/Ingest_Progress.thy ===== *)
theory Ingest_Progress
  imports Ingest_Safety
begin

text \<open>
  Where a pass ends. Over a source that does not move, a successful pass leaves the worker at the
  best block of the source with a journal of the source's own blocks; the reorganisation loop makes
  at most as many rollbacks as there are block rows; and the one way in which the worker stays
  behind for good: a stored journal that is empty while the worker still has a tip.
\<close>

section \<open>The protocol leaves its first phase with the first block\<close>

lemma process_transaction_frame:
  fixes s' :: chain_state
  assumes "process_transaction X s b tx i = (Ok (s', es) :: ('e, chain_state \<times> event list) res)"
  shows "same_frame s s'"
  using assms
proof (cases rule: process_transaction_Ok)
  case (operation c m carrier op e)
  from operation(4,5) show ?thesis by (cases rule: operation_cases) simp_all
qed (auto elim!: terminate_carriers_Ok)

lemma block_loop_status:
  "block_loop X b skip n txs s = (s', Ok es) \<Longrightarrow>
     protocol_status s' = protocol_status s \<and> binding_of s' = binding_of s"
proof (induction X b skip n txs s arbitrary: s' es rule: block_loop.induct)
  case (2 X b skip n tx txs s)
  obtain i s1 es1 es2 where *: "u32_of_usize n = Some i"
      "(if skip \<and> tx_txid tx = init_txid (binding_of s) then Ok (s, [valid_init_event X s b tx i])
        else process_transaction X s b tx i) = (Ok (s1, es1) :: (reducer_error, chain_state \<times> event list) res)"
      "block_loop X b skip (Suc n) txs s1 = (s', Ok es2)"
    using "2.prems" by (auto simp: res_simps split: option.splits res.splits prod.splits)
  have "protocol_status s1 = protocol_status s \<and> binding_of s1 = binding_of s"
    using *(2) process_transaction_frame [of X s b tx i s1 es1] by (auto simp: same_frame_def split: if_splits)
  then show ?case using "2.IH" [OF *(1,2) refl *(3)] by simp
qed simp

lemma apply_block_starts:
  assumes "apply_block X s b = (s', Ok d)"
  shows "protocol_status s' \<noteq> AwaitingInit"
proof -
  obtain s1 where e: "block_events X s b = (s1, Ok (bd_events d))" and s': "protocol_status s' = protocol_status s1"
    by (rule apply_block_maps [OF assms])
  from e show ?thesis
    by (cases rule: block_events_Ok) (auto simp: s' activated_def dest: block_loop_status)
qed

lemma apply_block_binding:
  assumes "apply_block X s b = (s', Ok d)"
  shows "binding_of s' = binding_of s"
proof -
  obtain s1 where e: "block_events X s b = (s1, Ok (bd_events d))" and s': "binding_of s' = binding_of s1"
    by (rule apply_block_Ok [OF assms]) simp
  from e show ?thesis
    by (cases rule: block_events_Ok) (auto simp: s' activated_def dest: block_loop_status)
qed

lemma chain_journal_binding: "chain_journal X bnd js s \<Longrightarrow> binding_of s = bnd"
  by (induction js arbitrary: s) (auto simp: connect_block_iff apply_block_binding)

lemma chain_journal_awaiting:
  assumes "chain_journal X bnd js s" and "protocol_status s = AwaitingInit"
  shows "js = []" and "tip_height s = None"
proof -
  show "js = []"
    using assms by (cases js) (auto simp: connect_block_iff dest: apply_block_starts)
  then show "tip_height s = None" using chain_journal_tip(1) [OF assms(1)] by simp
qed

section \<open>Bounded rollbacks\<close>

lemma on_store_clock: "nd_clock (fst (on_store q nd)) = Suc (nd_clock nd)"
  by (simp add: on_store_def split: prod.splits)

lemma roll_back_clock: "nd_clock (fst (roll_back D W nd)) = Suc (nd_clock nd)"
  unfolding roll_back_def
  by (rule act_bind_rule) (auto simp: on_store_def split: prod.splits option.splits)

lemma tip_matches_clock: "tip_matches W best tip nd = (nd', r) \<Longrightarrow> nd_clock nd' \<le> Suc (nd_clock nd)"
  by (auto simp: tip_matches_def ask_def ok_or_def split: if_splits option.splits)

lemma reconcile_clock:
  "nd_clock (fst (reconcile_reorg D W best nd)) \<le> nd_clock nd + 2 * length (canonical_blocks (nd_db nd)) + 2"
proof (induction "length (canonical_blocks (nd_db nd))" arbitrary: nd rule: less_induct)
  case less
  show ?case
  proof (cases "tip_height (nd_state nd)")
    case (Some tip)
    obtain nd1 m where m: "tip_matches W best tip nd = (nd1, m)" by force
    note nd1 = tip_matches_node [OF m] tip_matches_clock [OF m]
    obtain nd2 r where r: "roll_back D W nd1 = (nd2, r)" by force
    have c2: "nd_clock nd2 = Suc (nd_clock nd1)" using roll_back_clock [of D W nd1] by (simp add: r)
    have "nd_clock (fst (reconcile_reorg D W best nd2)) \<le> nd_clock nd + 2 * length (canonical_blocks (nd_db nd)) + 2"
      if "r = Ok ()"
    proof -
      have "length (canonical_blocks (nd_db nd2)) < length (canonical_blocks (nd_db nd))"
        using roll_back_shrinks [of D W nd1 nd2] r that nd1 by simp
      with less [OF this] c2 nd1 show ?thesis by linarith
    qed
    then show ?thesis
      using nd1 c2 by (cases m; cases r) (auto simp: reconcile_reorg.simps [of D W best nd] Some m r split: option.split)
  qed (simp add: reconcile_reorg.simps [of D W best nd])
qed

section \<open>A successful pass ends at the best block\<close>

text \<open>A source that answers every question from one chain of blocks.\<close>

definition serves :: "'w world_scheme \<Rightarrow> (u64 \<Rightarrow> block_view) \<Rightarrow> u64 \<Rightarrow> bool" where
  "serves W chain best \<longleftrightarrow>
     (\<forall>t. src_best_height W t = Some best \<and>
        (\<forall>h\<le>best. src_block_hash W t h = Some (bv_hash (chain h)) \<and> src_block W t h = Some (chain h) \<and>
           bv_height (chain h) = h))"

definition at_block :: "(u64 \<Rightarrow> block_view) \<Rightarrow> u64 \<Rightarrow> chain_state \<Rightarrow> bool" where
  "at_block chain h s \<longleftrightarrow> tip_height s = Some h \<and> tip_hash s = Some (bv_hash (chain h))"

lemma reconcile_ends:
  assumes "serves W chain best" and "reconcile_reorg D W best nd = (nd', Ok u)"
    and "store_holds X D bnd js s (nd_db nd)"
  shows "tip_height (nd_state nd') = None \<or> (\<exists>h\<le>best. at_block chain h (nd_state nd'))"
  using assms(2,3)
proof (induction "length (canonical_blocks (nd_db nd))" arbitrary: nd js s rule: less_induct)
  case less
  note eq = less.prems(1) [unfolded reconcile_reorg.simps [of D W best nd]]
  show ?case
  proof (cases "tip_height (nd_state nd)")
    case (Some tip)
    then obtain nd1 m where m: "tip_matches W best tip nd = (nd1, Ok m)"
      using eq by (auto simp: res_simps)
    note nd1 = tip_matches_node [OF m]
    show ?thesis
    proof (cases m)
      case True
      then have "nd' = nd1" using eq by (simp add: Some m)
      moreover have "tip \<le> best" "tip_hash (nd_state nd1) = Some (bv_hash (chain tip))"
        using m True assms(1)
        by (auto simp: tip_matches_def ask_def serves_def ok_or_def not_less split: if_splits option.splits)
      ultimately show ?thesis using Some nd1 by (auto simp: at_block_def)
    next
      case False
      then obtain nd2 where r: "roll_back D W nd1 = (nd2, Ok ())"
        and rest: "(if protocol_status (nd_state nd2) = AwaitingInit then (nd2, Ok ()) else reconcile_reorg D W best nd2) = (nd', Ok u)"
        using eq by (auto simp: Some m res_simps split: option.splits)
      obtain b d js' where js': "store_holds X D bnd js' (nd_state nd2) (nd_db nd2)"
        by (rule roll_back_Ok [of X D bnd js s nd1 W nd2 "()"]) (use less.prems(2) r nd1 in auto)
      show ?thesis
      proof (cases "protocol_status (nd_state nd2) = AwaitingInit")
        case True
        have "chain_journal X bnd js' (nd_state nd2)" using js' store_okD(2) by (auto simp: store_holds_def)
        from chain_journal_awaiting(2) [OF this True] show ?thesis using rest True by simp
      next
        case False
        then show ?thesis
          using less.hyps [OF _ _ js'] roll_back_shrinks [OF r] rest nd1 by simp
      qed
    qed
  qed (use eq in auto)
qed

lemma apply_one_Ok:
  assumes "apply_one X D W release b nd = (nd', Ok u)"
  shows "\<exists>d. apply_block X (nd_state nd) b = (nd_state nd', Ok d)"
  using assms on_store_state [of "\<lambda>t. store_apply_block D (db_outage W t) _ _ release" "nd\<lparr>nd_state := _\<rparr>"]
  by (auto simp: apply_one_def on_store_def split: prod.splits res.splits)

lemma apply_range_ends:
  assumes "serves W chain best" and "apply_range X D W release hs nd = (nd', Ok u)" and "\<forall>h\<in>set hs. h \<le> best"
    and "hs \<noteq> []"
  shows "at_block chain (last hs) (nd_state nd')"
  using assms(2-4)
proof (induction hs arbitrary: nd)
  case (Cons h hs)
  then obtain nd1 nd2 b where b: "ask (\<lambda>t. src_block W t h) nd = (nd1, Ok b)"
      and nd2: "apply_one X D W release b nd1 = (nd2, Ok ())" "apply_range X D W release hs nd2 = (nd', Ok u)"
    by (auto simp: res_simps)
  have b': "b = chain h" "bv_height b = h"
    using b assms(1) Cons.prems(2) by (auto simp: ask_def serves_def ok_or_def)
  obtain d where d: "apply_block X (nd_state nd1) b = (nd_state nd2, Ok d)" using apply_one_Ok [OF nd2(1)] by blast
  then have "at_block chain h (nd_state nd2)"
    using apply_block_tip(1,2) [OF d] b' by (auto simp: at_block_def elim: apply_block_Ok)
  then show ?case using Cons.IH [OF nd2(2)] Cons.prems(2) nd2(2) by (cases "hs = []") auto
qed simp

lemma height_range_facts:
  assumes "first \<le> best"
  shows "height_range first best \<noteq> []" and "last (height_range first best) = best"
    and "\<forall>h\<in>set (height_range first best). h \<le> best"
proof -
  have ub: "unat first \<le> unat best" using assms by (simp add: word_le_nat_alt)
  then show "height_range first best \<noteq> []" by (simp add: height_range_def)
  show "last (height_range first best) = best" using ub by (simp add: height_range_def last_map)
  have "(word_of_nat n :: u64) \<le> best" if "n \<le> unat best" for n
    using that unsigned_less [of best] by (simp add: word_le_nat_alt unat_of_nat take_bit_nat_eq_self_iff)
  then show "\<forall>h\<in>set (height_range first best). h \<le> best" by (auto simp: height_range_def)
qed

lemma refresh_mempool_state: "refresh_mempool D W nd = (nd', r) \<Longrightarrow> nd_state nd' = nd_state nd"
  by (auto simp: refresh_mempool_def ask_def on_store_def ok_or_def split: option.splits prod.splits)

lemma first_height_node: "first_height W nd = (nd', r) \<Longrightarrow> nd_db nd' = nd_db nd \<and> nd_state nd' = nd_state nd"
  by (auto simp: first_height_def ask_def split: option.splits)

lemma first_height_Ok:
  assumes "first_height W nd = (nd', Ok (Some first))" and "tip_height (nd_state nd) = Some h"
  shows "unat first = Suc (unat h)"
  using assms by (auto simp: first_height_def res_simps chk_simps)

lemma run_once_ends:
  assumes "serves W chain best" and "run_once X D W release nd = (nd', Ok u)"
    and "store_holds X D bnd js s (nd_db nd)"
  shows "tip_height (nd_state nd') = None \<or> at_block chain best (nd_state nd')"
proof -
  obtain nd1 nd2 nd3 first where rec: "reconcile_reorg D W best nd1 = (nd2, Ok ())" "nd_db nd1 = nd_db nd"
    and first: "first_height W nd2 = (nd3, Ok first)"
    and rest: "(case first of None \<Rightarrow> refresh_mempool D W nd3
       | Some first \<Rightarrow> act_bind (if first \<le> best then apply_range X D W release (height_range first best) nd3 else (nd3, Ok ()))
             (\<lambda>_. refresh_mempool D W)) = (nd', Ok u)"
  proof -
    obtain nda ndb status where "ask (src_status W) nd = (nda, Ok status)" "ask (src_best_height W) nda = (ndb, Ok best)"
      and *: "act_bind (reconcile_reorg D W best ndb) (\<lambda>_ nd. act_bind (first_height W nd) (\<lambda>first nd.
        case first of None \<Rightarrow> refresh_mempool D W nd
       | Some first \<Rightarrow> act_bind (if first \<le> best then apply_range X D W release (height_range first best) nd else (nd, Ok ()))
             (\<lambda>_. refresh_mempool D W))) = (nd', Ok u)"
      using assms(1,2) by (auto simp: run_once_def res_simps ask_def ok_or_def serves_def split: if_splits option.splits)
    then have "nd_db ndb = nd_db nd" by (auto dest!: ask_node)
    then show thesis using * by (auto simp: res_simps intro: that)
  qed
  have tip: "tip_height (nd_state nd2) = None \<or> (\<exists>h\<le>best. at_block chain h (nd_state nd2))"
    using reconcile_ends [OF assms(1) rec(1)] assms(3) rec(2) by auto
  note nd3 = first_height_node [OF first]
  show ?thesis
  proof (cases first)
    case None
    then have "tip_height (nd_state nd2) = None"
      using first by (auto simp: first_height_def res_simps split: option.splits)
    then show ?thesis using rest None nd3 refresh_mempool_state [of D W nd3 nd'] by simp
  next
    case (Some f)
    show ?thesis
    proof (cases "f \<le> best")
      case True
      then obtain nd4 where r: "apply_range X D W release (height_range f best) nd3 = (nd4, Ok ())"
          "refresh_mempool D W nd4 = (nd', Ok u)"
        using rest Some by (auto simp: res_simps)
      then show ?thesis
        using apply_range_ends [OF assms(1) r(1)] height_range_facts [OF True] refresh_mempool_state [OF r(2)]
        by (simp add: at_block_def)
    next
      case False
      then have "nd_state nd' = nd_state nd2"
        using rest Some nd3 refresh_mempool_state [of D W nd3 nd'] by simp
      moreover have "h = best" if "h \<le> best" "tip_height (nd_state nd2) = Some h" for h
        using first_height_Ok [of W nd2 nd3 f h] first Some that False
        by (simp add: word_le_nat_alt word_unat_eq_iff)
      ultimately show ?thesis using tip by (auto simp: at_block_def)
    qed
  qed
qed

text \<open>
  The journal under a tip of the chain consists of the chain's blocks, when equal block hashes mean
  equal blocks: each entry names its parent.
\<close>

definition chain_linked :: "(u64 \<Rightarrow> block_view) \<Rightarrow> u64 \<Rightarrow> bool" where
  "chain_linked chain best \<longleftrightarrow> (\<forall>h h'. h \<le> best \<longrightarrow> unat h = Suc (unat h') \<longrightarrow> bv_previous_hash (chain h) = bv_hash (chain h'))"

lemma journal_of_chain:
  assumes "chain_journal X bnd js s" and "at_block chain h s" and "h \<le> best" and "chain_linked chain best"
    and "\<forall>(b, d)\<in>set js. \<forall>h\<le>best. bv_hash b = bv_hash (chain h) \<longrightarrow> b = chain h"
  shows "\<forall>(b, d)\<in>set js. b = chain (bd_height d)"
  using assms(1,2,3,5)
proof (induction js arbitrary: s h)
  case (Cons j js)
  obtain b d where j: "j = (b, d)" by (cases j)
  then have t: "chain_journal X bnd js (bd_before d)" "apply_block X (bd_before d) b = (s, Ok d)"
    using Cons.prems(1) by (auto simp: chain_journal_Cons simp del: journal_of.simps)
  have link: "validate_linkage (bd_before d) b = Ok ()" "bd_block_hash d = bv_hash b"
    by (rule apply_block_Ok [OF t(2)], simp)+
  have d: "bd_height d = h" "bv_hash b = bv_hash (chain h)"
    using Cons.prems(2) apply_block_tip(1,2) [OF t(2)] link(2) by (auto simp: at_block_def)
  then have b: "b = chain h" using Cons.prems(3,4) j by auto
  show ?case
  proof (cases js)
    case Nil
    then show ?thesis using b d j by simp
  next
    case (Cons j' js')
    obtain h' where h': "tip_height (bd_before d) = Some h'"
      using chain_journal_tip(1) [OF t(1)] Cons by (cases j') auto
    then have u: "unat h = Suc (unat h')" and "tip_hash (bd_before d) = Some (bv_previous_hash b)"
      using link(1) apply_block_tip(4) [OF t(2) h'] d(1)
      by (auto simp: validate_linkage_def res_simps split: if_splits)
    then have "at_block chain h' (bd_before d)"
      using h' b assms(4) Cons.prems(3) by (simp add: at_block_def chain_linked_def)
    moreover have "h' \<le> best" using u Cons.prems(3) by (simp add: word_le_nat_alt)
    ultimately show ?thesis using Cons.IH [OF t(1)] Cons.prems(4) b d j by auto
  qed
qed simp

section \<open>A worker left behind\<close>

definition stranded :: "externals \<Rightarrow> 'j serde \<Rightarrow> binding \<Rightarrow> 'w world_scheme \<Rightarrow> 'j node \<Rightarrow> bool" where
  "stranded X D bnd W nd \<longleftrightarrow>
     (\<exists>s. store_holds X D bnd [] s (nd_db nd)) \<and>
     (\<exists>h th. tip_height (nd_state nd) = Some h \<and> tip_hash (nd_state nd) = Some th \<and>
        (\<forall>t. src_block_hash W t h \<noteq> Some th))"

lemma stranded_roll_back:
  assumes "store_holds X D bnd [] s (nd_db nd)"
  shows "\<exists>nd' e. roll_back D W nd = (nd', Err e) \<and> nd_state nd' = nd_state nd \<and> nd_db nd' = nd_db nd"
proof -
  let ?f = "db_outage W (nd_clock nd)" and ?st = "db_stamp W (nd_clock nd)"
  have h: "serde_laws D" "store_ok X D bnd [] s (nd_db nd)" using assms by (simp_all add: store_holds_def)
  obtain db r where r: "rollback_tip D ?f ?st (nd_db nd) = (db, r)" by force
  with h have "db = nd_db nd \<and> (r = Ok None \<or> (\<exists>e. r = Err e))"
    by (cases rule: rollback_tip_cases) auto
  then show ?thesis using r by (auto simp: roll_back_def on_store_def)
qed

lemma stranded_pass:
  assumes "stranded X D bnd W nd"
  shows "\<exists>nd' e. run_once X D W release nd = (nd', Err e) \<and> nd_state nd' = nd_state nd \<and> nd_db nd' = nd_db nd"
proof -
  obtain s h th where *: "store_holds X D bnd [] s (nd_db nd)" "tip_height (nd_state nd) = Some h"
      "tip_hash (nd_state nd) = Some th" "\<forall>t. src_block_hash W t h \<noteq> Some th"
    using assms by (auto simp: stranded_def)
  have "\<exists>nd' e. reconcile_reorg D W best nd1 = (nd', Err e) \<and> nd_state nd' = nd_state nd \<and> nd_db nd' = nd_db nd"
    if n: "nd_state nd1 = nd_state nd" "nd_db nd1 = nd_db nd" for nd1 best
  proof -
    obtain nd2 m where m: "tip_matches W best h nd1 = (nd2, m)" by force
    note nd2 = tip_matches_node [OF m]
    have "m = Ok False \<or> (\<exists>e. m = Err e)"
      using m * n by (auto simp: tip_matches_def ask_def ok_or_def split: if_splits option.splits)
    moreover obtain nd3 e where "roll_back D W nd2 = (nd3, Err e)" "nd_state nd3 = nd_state nd2" "nd_db nd3 = nd_db nd2"
      using stranded_roll_back [of X D bnd s nd2 W] * n nd2 by auto
    ultimately show ?thesis
      using * n nd2 by (auto simp: reconcile_reorg.simps [of D W best nd1] m)
  qed
  note rec = this
  obtain a where a: "ask (src_status W) nd = (nd\<lparr>nd_clock := Suc (nd_clock nd)\<rparr>, a)" "a \<noteq> Panic"
    by (auto simp: ask_def ok_or_def split: option.split)
  let ?nd1 = "nd\<lparr>nd_clock := Suc (nd_clock nd)\<rparr>" and ?nd2 = "nd\<lparr>nd_clock := Suc (Suc (nd_clock nd))\<rparr>"
  obtain c where c: "ask (src_best_height W) ?nd1 = (?nd2, c)" "c \<noteq> Panic"
    by (auto simp: ask_def ok_or_def split: option.split)
  show ?thesis
  proof (cases c)
    case (Ok best)
    obtain nd' e where "reconcile_reorg D W best ?nd2 = (nd', Err e)" "nd_state nd' = nd_state nd" "nd_db nd' = nd_db nd"
      using rec [of ?nd2 best] by auto
    then show ?thesis using a c Ok by (cases a) (auto simp: run_once_def)
  qed (use a c in \<open>cases a; auto simp: run_once_def\<close>)+
qed

end
