(* ===== verification/Concrete_Node.thy ===== *)
theory Concrete_Node
  imports Concrete_Chain Ingest_Progress
begin

text \<open>
  A concrete service on which the properties of the store and the worker are exercised: JSON values
  that keep what was serialized, a database that holds the demonstration chain up to its INIT, and
  sources that serve it or a competing block.
\<close>

section \<open>Database\<close>

datatype demo_value =
    DBinding binding | DState chain_state | DDelta block_delta | DEvent event | DObject object_state | DTx tx_view

definition demo_serde :: "demo_value serde" where
  "demo_serde =
     \<lparr>binding_to_value = (\<lambda>b. Some (DBinding b)),
      binding_from_value = (\<lambda>v. case v of DBinding b \<Rightarrow> Some b | _ \<Rightarrow> None),
      state_to_value = (\<lambda>s. Some (DState s)),
      state_from_value = (\<lambda>v. case v of DState s \<Rightarrow> Some s | _ \<Rightarrow> None),
      delta_to_value = (\<lambda>d. Some (DDelta d)),
      delta_from_value = (\<lambda>v. case v of DDelta d \<Rightarrow> Some d | _ \<Rightarrow> None),
      event_to_value = (\<lambda>e. Some (DEvent e)),
      object_to_value = (\<lambda>ob. Some (DObject ob)),
      tx_to_value = (\<lambda>tx. Some (DTx tx))\<rparr>"

lemma demo_serde_laws: "serde_laws demo_serde"
  by (simp add: serde_laws_def demo_serde_def)

definition demo_release :: release_identity where
  "demo_release =
     \<lparr>parser_commit = replicate 40 CHR ''a'', indexer_commit = replicate 40 CHR ''b'',
      parser_binary_sha256 = demo_hash 12, indexer_binary_sha256 = demo_hash 13\<rparr>"

definition fresh_db :: "demo_value database" where
  "fresh_db = fst (bind_or_load demo_externals demo_serde Reachable demo_binding empty_database)"

definition init_db :: "demo_value database" where
  "init_db = fst (store_apply_block demo_serde Reachable init_state (delta_of fresh_state init_block) demo_release fresh_db)"

abbreviation demo_store_ok :: "(block_view \<times> block_delta) list \<Rightarrow> chain_state \<Rightarrow> demo_value database \<Rightarrow> bool" where
  "demo_store_ok \<equiv> store_ok demo_externals demo_serde demo_binding"

abbreviation init_entry :: "block_view \<times> block_delta" where
  "init_entry \<equiv> (init_block, delta_of fresh_state init_block)"

lemma fresh_db_bound:
  "bind_or_load demo_externals demo_serde Reachable demo_binding empty_database = (fresh_db, Ok fresh_state)"
  and fresh_db_ok: "demo_store_ok [] fresh_state fresh_db"
  using bind_or_load_fresh [OF demo_serde_laws, of demo_externals demo_binding]
  by (auto simp: fresh_db_def fresh_state_def)

lemma init_delta_facts: "bd_height (delta_of fresh_state init_block) = 100"
  by (rule apply_block_Ok [OF applies_delta [OF init_applied]]) (simp add: init_block_def chain_block_def)

lemma demo_release_commits: "commit_text (parser_commit demo_release)" "commit_text (indexer_commit demo_release)"
  by code_simp+

lemma init_db_stored:
  "store_apply_block demo_serde Reachable init_state (delta_of fresh_state init_block) demo_release fresh_db =
     (init_db, Ok ())"
  and init_db_ok: "demo_store_ok [init_entry] init_state init_db"
  using store_apply_block_succeeds [OF demo_serde_laws fresh_db_ok fresh_admissible applies_delta [OF init_applied]
      _ demo_release_commits]
  by (auto simp: init_db_def init_delta_facts)

lemma init_db_step: "store_step demo_externals demo_serde fresh_db init_db"
proof (rule commit_persist)
  show "connect_block demo_externals fresh_state init_block = Some (init_state, delta_of fresh_state init_block)"
    by (simp add: connect_block_iff applies_delta [OF init_applied])
  show "store_persists demo_serde init_state (delta_of fresh_state init_block) fresh_db init_db"
    unfolding store_persists_def using init_db_stored by (metis fst_conv)
qed

section \<open>Sources\<close>

definition demo_chain :: "u64 \<Rightarrow> block_view" where
  "demo_chain h = (if h = 100 then init_block else demo_block h [])"

text \<open>A source that serves the demonstration chain up to its INIT.\<close>

definition demo_world :: world where
  "demo_world =
     \<lparr>src_status = (\<lambda>_. Some \<lparr>chain_label = ''regtest'', blocks = 100, headers = 100,
                            initial_block_download = False, txindex_synced = True\<rparr>),
      src_best_height = (\<lambda>_. Some 100),
      src_block_hash = (\<lambda>_ h. Some (bv_hash (demo_chain h))),
      src_block = (\<lambda>_ h. Some (demo_chain h)),
      src_transaction_height = (\<lambda>_ _. Some (Some 100)),
      src_mempool = (\<lambda>_. Some []),
      db_outage = (\<lambda>_. Reachable),
      db_stamp = (\<lambda>t. (int t, ''now''))\<rparr>"

text \<open>
  The same source after a reorganisation has replaced the block at height 100, with a connection to
  the database that is lost once, after the commit of a rollback.
\<close>

definition forked_world :: world where
  "forked_world = demo_world\<lparr>src_block_hash := (\<lambda>_ h. Some (demo_hash 77)),
     db_outage := (\<lambda>t. if t = 3 then Lost_after_commit else Reachable)\<rparr>"

definition demo_node :: "chain_state \<Rightarrow> demo_value database \<Rightarrow> demo_value node" where
  "demo_node s db = \<lparr>nd_state = s, nd_db = db, nd_clock = 0\<rparr>"

lemma demo_serves: "serves demo_world demo_chain 100"
  by (auto simp: serves_def demo_world_def demo_chain_def chain_block_def init_block_def)

lemma demo_chain_hashes: "bv_hash (demo_chain h) = height_hash h" "bv_previous_hash (demo_chain h) = height_hash (h - 1)"
  by (simp_all add: demo_chain_def chain_block_def init_block_def)

lemma demo_linked: "chain_linked demo_chain 100"
proof -
  have "h = h' + 1" if "unat h = Suc (unat h')" for h h' :: u64
    using that checked_add_Some_iff [of h' 1 h] by (auto simp: checked_add_def split: if_splits)
  then show ?thesis by (fastforce simp: chain_linked_def demo_chain_hashes)
qed

lemma demo_acknowledged: "acknowledged demo_world"
  by (simp add: acknowledged_def demo_world_def)

lemma fresh_synced: "synced demo_externals demo_serde demo_binding (demo_node fresh_state fresh_db)"
  using fresh_db_ok demo_serde_laws by (auto simp: synced_def store_holds_def demo_node_def)

lemma demo_apply: "apply_block demo_externals fresh_state init_block = (init_state, Ok (delta_of fresh_state init_block))"
  by (rule applies_delta [OF init_applied])

lemma demo_heights: "height_range 100 100 = [100]"
  by code_simp

lemma demo_tips:
  "tip_height fresh_state = None" "tip_height init_state = Some 100" "tip_hash init_state = Some (bv_hash init_block)"
  "binding_of fresh_state = demo_binding" "binding_of init_state = demo_binding" "bnd_network demo_binding = Regtest"
  by code_simp+

lemma init_block_hash: "demo_hash 77 \<noteq> bv_hash init_block"
  by code_simp

text \<open>The pass that finds the INIT and applies its block.\<close>

lemma demo_pass:
  "run_once demo_externals demo_serde demo_world demo_release (demo_node fresh_state fresh_db) =
     (\<lparr>nd_state = init_state, nd_db = init_db\<lparr>mempool_overlay := []\<rparr>, nd_clock = 7\<rparr>, Ok ())"
  by (simp add: run_once_def demo_node_def ask_def demo_world_def ok_or_def ready_for_def demo_tips
      reconcile_reorg.simps first_height_def demo_heights demo_chain_def apply_one_def demo_apply on_store_def
      init_db_stored refresh_mempool_def replace_mempool_def transact_def)

text \<open>
  The pass that finds the INIT block replaced. The rollback is committed but not acknowledged, so
  the worker keeps its state while the store has none.
\<close>

lemma forked_pass:
  "\<exists>nd. run_once demo_externals demo_serde forked_world demo_release (demo_node init_state init_db) =
       (nd, Err (StoreFailed Unavailable)) \<and>
     nd_state nd = init_state \<and> demo_store_ok [] fresh_state (nd_db nd)"
proof -
  obtain db r where r: "rollback_tip demo_serde Lost_after_commit (3, ''now'') init_db = (db, r)" by force
  with demo_serde_laws init_db_ok have "r = Err Unavailable \<and> demo_store_ok [] fresh_state db"
    by (cases rule: rollback_tip_cases) (auto simp: apply_block_tip(3) [OF demo_apply])
  then show ?thesis
    using r
    by (simp add: run_once_def demo_node_def ask_def forked_world_def demo_world_def ok_or_def ready_for_def demo_tips
        reconcile_reorg.simps tip_matches_def roll_back_def on_store_def init_block_hash)
qed

end
