(* ===== verification/Store_Types.thy ===== *)
theory Store_Types
  imports Store_Invariant
begin

text \<open>
  The columns of the migration as types: every operation of the store, whatever it is given and
  wherever its connection is lost, leaves rows that fit their columns, keys that are unique and
  events that refer to stored blocks; and on such tables the readers of the store never meet a
  value they cannot decode.
\<close>

section \<open>Well-typed tables\<close>

definition bigint :: "int \<Rightarrow> bool" where
  "bigint i \<longleftrightarrow> - (2 ^ 63) \<le> i \<and> i < 2 ^ 63"

definition integer32 :: "int \<Rightarrow> bool" where
  "integer32 i \<longleftrightarrow> - (2 ^ 31) \<le> i \<and> i < 2 ^ 31"

definition smallint :: "int \<Rightarrow> bool" where
  "smallint i \<longleftrightarrow> - (2 ^ 15) \<le> i \<and> i < 2 ^ 15"

definition block_typed :: "'j block_row \<Rightarrow> bool" where
  "block_typed r \<longleftrightarrow> block_row_ok r \<and> bigint (br_height r) \<and>
     br_founding_created r < 2 ^ 64 \<and> br_all_objects r < 2 ^ 64 \<and> br_active_objects r < 2 ^ 64"

definition event_typed :: "'j event_row \<Rightarrow> bool" where
  "event_typed r \<longleftrightarrow> event_row_ok r \<and> bigint (er_height r) \<and> bigint (er_tx_index r) \<and> bigint (er_event_index r) \<and>
     bigint (er_sub_index r) \<and> smallint (er_event_type r) \<and> smallint (er_validity_class r) \<and> integer32 (er_reason r)"

definition object_typed :: "'j object_row \<Rightarrow> bool" where
  "object_typed r \<longleftrightarrow> object_row_ok r \<and> bigint (or_current_vout r) \<and> smallint (or_status r) \<and>
     bigint (or_create_height r) \<and> bigint (or_state_seq r)"

definition reorg_typed :: "reorg_row \<Rightarrow> bool" where
  "reorg_typed r \<longleftrightarrow> bigint (rr_disconnected_height r) \<and> octets32 (rr_disconnected_hash r) \<and>
     pred_option bigint (rr_restored_height r) \<and> pred_option octets32 (rr_restored_hash r)"

definition block_table_typed :: "'j block_row list \<Rightarrow> bool" where
  "block_table_typed rs \<longleftrightarrow> list_all block_typed rs \<and> distinct (map br_height rs) \<and> distinct (map br_block_hash rs)"

definition event_table_typed :: "'j block_row list \<Rightarrow> 'j event_row list \<Rightarrow> bool" where
  "event_table_typed bs rs \<longleftrightarrow> list_all event_typed rs \<and> distinct (map event_row_key rs) \<and>
     list_all (\<lambda>r. er_height r \<in> br_height ` set bs) rs"

definition object_table_typed :: "'j object_row list \<Rightarrow> bool" where
  "object_table_typed rs \<longleftrightarrow> list_all object_typed rs \<and> distinct (map or_object_key rs)"

definition mempool_table_typed :: "'j mempool_row list \<Rightarrow> bool" where
  "mempool_table_typed rs \<longleftrightarrow> list_all (octets32 \<circ> mr_txid) rs \<and> distinct (map mr_txid rs)"

definition well_typed :: "'j database \<Rightarrow> bool" where
  "well_typed db \<longleftrightarrow> block_table_typed (canonical_blocks db) \<and> event_table_typed (canonical_blocks db) (canonical_events db) \<and>
     object_table_typed (canonical_objects db) \<and> mempool_table_typed (mempool_overlay db) \<and>
     list_all reorg_typed (reorg_journal db)"

lemma well_typed_empty: "well_typed empty_database"
  by (simp add: well_typed_def empty_database_def block_table_typed_def event_table_typed_def object_table_typed_def
      mempool_table_typed_def)

section \<open>Rows\<close>

lemma octets32_bytes [simp]: "octets32 (bytes_of (h :: hash32))"
  by (simp add: octets32_def)

lemma word_columns [simp]:
  "bigint (uint (w :: u32))" "smallint (uint (c :: u8))" "integer32 (uint (v :: u16))"
  using uint_bounded [of w] uint_bounded [of c] uint_bounded [of v]
  by (auto simp: bigint_def smallint_def integer32_def intro: order_trans [of _ 0])

lemma to_i64_typed: "to_i64 v = Ok h \<Longrightarrow> bigint h \<and> 0 \<le> h"
  by (auto simp: to_i64_def bigint_def split: if_splits intro: order_trans [of _ 0])

lemma height_column [simp]: "unat (v :: u64) < 9223372036854775808 \<Longrightarrow> bigint (uint v)"
  using to_i64_eq [of v] to_i64_typed [of v] by simp

lemma block_row_of_typed: "block_row_of D d release = Ok r \<Longrightarrow> block_row_ok r \<Longrightarrow> block_typed r"
  using u64_bound
  by (auto simp: block_row_of_def block_typed_def res_simps Let_def)

lemma event_row_of_typed: "event_row_of D e = Ok r \<Longrightarrow> event_typed r"
  by (auto simp: event_row_of_def event_typed_def event_row_ok_def res_simps)

lemma object_row_of_typed: "object_row_of D ob = Ok r \<Longrightarrow> object_typed r"
  by (auto simp: object_row_of_def object_typed_def object_row_ok_def res_simps)

section \<open>Statements\<close>

lemma list_ex_key: "list_ex (\<lambda>q. f q = k) xs \<longleftrightarrow> k \<in> f ` set xs"
  by (auto simp: list_ex_iff)

lemma list_ex_keys: "list_ex (\<lambda>q. f q = k \<or> g q = l) xs \<longleftrightarrow> k \<in> f ` set xs \<or> l \<in> g ` set xs"
  by (auto simp: list_ex_iff)

lemma insert_block_typed:
  assumes "well_typed db" and "insert_block r db = Ok db'" and "block_row_of D d release = Ok r"
  shows "well_typed db'"
proof -
  have "block_typed r"
    using assms(2,3) block_row_of_typed by (auto simp: insert_block_def split: if_splits)
  then show ?thesis
    using assms(1,2)
    by (auto simp: insert_block_def well_typed_def block_table_typed_def event_table_typed_def list_ex_keys list_all_iff
        split: if_splits)
qed

lemma insert_event_typed:
  assumes "well_typed db" and "insert_event r db = Ok db'" and "event_typed r"
  shows "well_typed db'"
  using assms
  by (auto simp: insert_event_def well_typed_def event_table_typed_def list_ex_key split: if_splits)

lemma insert_events_typed: "well_typed db \<Longrightarrow> insert_events D es db = Ok db' \<Longrightarrow> well_typed db'"
  by (induction es arbitrary: db) (auto simp: res_simps dest: insert_event_typed event_row_of_typed)

lemma insert_objects_typed: "well_typed db \<Longrightarrow> insert_objects D obs db = Ok db' \<Longrightarrow> well_typed db'"
proof (induction obs arbitrary: db)
  case (Cons ob obs)
  then obtain r db1 where r: "object_row_of D ob = Ok r" "insert_object r db = Ok db1" "insert_objects D obs db1 = Ok db'"
    by (auto simp: res_simps)
  have "well_typed db1"
    using Cons.prems(1) r(2) object_row_of_typed [OF r(1)]
    by (auto simp: insert_object_def well_typed_def object_table_typed_def list_ex_key split: if_splits)
  then show ?case using r(3) by (rule Cons.IH)
qed simp

lemma sync_objects_typed: "well_typed db \<Longrightarrow> sync_objects D s db = Ok db' \<Longrightarrow> well_typed db'"
  unfolding sync_objects_def
  by (rule insert_objects_typed) (auto simp: well_typed_def object_table_typed_def)

lemma save_state_typed: "well_typed db \<Longrightarrow> save_state D s db = Ok db' \<Longrightarrow> well_typed db'"
  by (auto simp: save_state_def well_typed_def res_simps)

lemma delete_block_typed: "well_typed db \<Longrightarrow> well_typed (delete_block h db)"
  by (auto simp: delete_block_def well_typed_def block_table_typed_def event_table_typed_def list_all_iff
      intro: distinct_map_filter)

lemma insert_mempool_rows_typed: "well_typed db \<Longrightarrow> insert_mempool_rows D txs db = Ok db' \<Longrightarrow> well_typed db'"
proof (induction txs arbitrary: db)
  case (Cons tx txs)
  then obtain v db1 where r: "insert_mempool \<lparr>mr_txid = bytes_of (tx_txid tx), mr_payload = v\<rparr> db = Ok db1"
      "insert_mempool_rows D txs db1 = Ok db'"
    by (auto simp: res_simps)
  have "well_typed db1"
    using Cons.prems(1) r(1)
    by (auto simp: insert_mempool_def well_typed_def mempool_table_typed_def list_ex_key split: if_splits)
  then show ?case using r(2) by (rule Cons.IH)
qed simp

section \<open>Transactions\<close>

lemma transact_typed:
  assumes "well_typed db" and "\<And>db' r. body db = Ok (db', r) \<Longrightarrow> well_typed db'"
  shows "well_typed (fst (transact f db body))"
  using assms by (cases "body db") (auto simp: transact_def)

lemma bind_or_load_typed: "well_typed db \<Longrightarrow> well_typed (fst (bind_or_load X D f b db))"
  unfolding bind_or_load_def
  by (rule transact_typed) (auto simp: res_simps Let_def well_typed_def split: option.splits if_splits)

lemma store_apply_block_typed:
  assumes "well_typed db"
  shows "well_typed (fst (store_apply_block D f s d release db))"
proof -
  have "well_typed db'"
    if "insert_block r db = Ok db1" "insert_events D es db1 = Ok db2" "sync_objects D s db2 = Ok db3" "save_state D s db3 = Ok db'"
      "block_row_of D d release = Ok r" for r es db1 db2 db3 db'
    by (rule save_state_typed [OF sync_objects_typed [OF insert_events_typed [OF insert_block_typed [OF assms]]]])
      (rule that)+
  then show ?thesis
    unfolding store_apply_block_def using assms by (auto intro!: transact_typed simp: res_simps)
qed

lemma rollback_block_typed:
  assumes "well_typed db" and "bigint h" and "rollback_block D stamp s h r db = Ok (db', s')"
  shows "well_typed db'"
proof -
  let ?t = "\<lambda>delta. fst (disconnect_block s delta)"
  obtain delta db1 db2 restored where *: "sync_objects D (?t delta) (delete_block h db) = Ok db1"
      "save_state D (?t delta) db1 = Ok db2" "transpose_i64 (tip_height (?t delta)) = Ok restored"
      "db' = db2\<lparr>reorg_journal := reorg_journal db2 @
           [\<lparr>rr_id = fst stamp, rr_disconnected_height = h, rr_disconnected_hash = bytes_of (bd_block_hash delta),
             rr_restored_height = restored, rr_restored_hash = map_option bytes_of (tip_hash (?t delta)), rr_observed_at = snd stamp\<rparr>]\<rparr>"
    using assms(3) by (auto simp: rollback_block_def res_simps Let_def split_beta)
  have "well_typed db2"
    using *(1,2) assms(1) by (blast intro: save_state_typed sync_objects_typed delete_block_typed)
  moreover have "pred_option bigint restored"
    using *(3) by (auto simp: transpose_i64_def res_simps split: option.splits)
  moreover have "pred_option octets32 (map_option bytes_of (tip_hash (?t delta)))" by (cases "tip_hash (?t delta)") simp_all
  ultimately show ?thesis using assms(2) by (auto simp: *(4) well_typed_def reorg_typed_def)
qed

lemma rollback_tip_typed: "well_typed db \<Longrightarrow> well_typed (fst (rollback_tip D f stamp db))"
  unfolding rollback_tip_def
  by (auto intro!: transact_typed simp: res_simps split: option.splits)
    (rule rollback_block_typed, assumption, rule height_column, assumption+)

lemma replace_mempool_typed: "well_typed db \<Longrightarrow> well_typed (fst (replace_mempool D f txs db))"
  unfolding replace_mempool_def
  by (auto intro!: transact_typed simp: res_simps dest!: insert_mempool_rows_typed [rotated])
    (auto simp: well_typed_def mempool_table_typed_def)

section \<open>Readers\<close>

lemma typed_row_decodes: "block_typed r \<Longrightarrow> \<exists>p. roots_from_row height r = Ok p"
  by (simp add: roots_from_row_def block_typed_def block_row_ok_def octets32_def hash_from_bytes_def parse_counter_def
      array_try_from_def ok_or_def)

lemma roots_at_typed:
  assumes "well_typed db" and "unat h < 2 ^ 63"
  shows "\<exists>p. roots_at Reachable h db = Ok p"
proof -
  note h = to_i64_eq [OF assms(2)]
  show ?thesis
  proof (cases "find (\<lambda>r. br_height r = uint h) (canonical_blocks db)")
    case None
    then show ?thesis using h by (simp add: roots_at_def)
  next
    case (Some r)
    then have "r \<in> set (canonical_blocks db)" by (auto simp: find_Some_iff)
    then have "block_typed r" using assms(1) by (simp add: well_typed_def block_table_typed_def list_all_iff)
    then obtain p where "roots_from_row h r = Ok p" using typed_row_decodes by blast
    then show ?thesis using h Some by (simp add: roots_at_def)
  qed
qed

lemma res_collect_total: "\<forall>x\<in>set xs. \<exists>y. f x = Ok y \<Longrightarrow> \<exists>ys. res_collect (map f xs) = Ok ys"
  by (induction xs) auto

lemma reorgs_query_typed:
  assumes "well_typed db"
  shows "\<exists>rs. reorgs_query Reachable db = Ok rs"
proof -
  have "\<exists>y. reorg_from_row r = Ok y" if "reorg_typed r" for r
    using that
    by (auto simp: reorg_from_row_def reorg_typed_def octets32_def hash_from_bytes_def array_try_from_def ok_or_def
        split: option.splits)
  then have "\<exists>rs. res_collect (map reorg_from_row (take 200 (sort_key (\<lambda>r. - rr_id r) (reorg_journal db)))) = Ok rs"
    using assms by (intro res_collect_total) (auto simp: well_typed_def list_all_iff dest: in_set_takeD)
  then show ?thesis by (simp add: reorgs_query_def)
qed

end
