(* ===== verification/Service_Properties.thy ===== *)
theory Service_Properties
  imports Concrete_Node Store_Types
begin

text \<open>
  Properties of the store and of the ingestion worker, over everything the block source and the
  database server may answer.
\<close>

section \<open>The store\<close>

text \<open>
  C6. A database that a deployment has bound holds, after any sequence of block commits, rollbacks,
  overlay replacements and reconnections by any number of writers (with lost connections and
  acknowledgements, and from states that may be stale), exactly the tables of some chain of blocks:
  its state is the replay of these blocks from the empty state.
\<close>

theorem any_writers_keep_the_journal:
  assumes "serde_laws D" and "bind_or_load X D Reachable bnd empty_database = (db, Ok s)"
    and "(store_step X D)\<^sup>*\<^sup>* db db'"
  shows "\<exists>js s'. store_ok X D bnd js s' db' \<and>
    replay (connect_block X) (chain_state_new X bnd) (rev (map fst js)) = Some s'"
proof -
  have "store_holds X D bnd [] (chain_state_new X bnd) db"
    using bind_or_load_fresh [OF assms(1), of X bnd] assms(1,2) by (auto simp: store_holds_def)
  from store.commits_replay [OF assms(3) this] show ?thesis by (auto simp: store_holds_def)
qed

theorem any_writers_keep_the_journal_witness:
  "\<exists>js s'. demo_store_ok js s' init_db \<and>
    replay (connect_block demo_externals) (chain_state_new demo_externals demo_binding) (rev (map fst js)) = Some s'"
  by (rule any_writers_keep_the_journal [OF demo_serde_laws fresh_db_bound]) (rule r_into_rtranclp [of "store_step _ _", OF init_db_step])

text \<open>
  C19. The store keeps to its schema. From any well-typed tables every operation, whatever states,
  blocks and transactions it is given and wherever its connection is lost, leaves well-typed tables:
  every value fits its column, hashes have 32 bytes, heights, hashes, event positions, object keys
  and overlay ids are unique, and every event refers to a stored block. On well-typed tables the
  roots of every height that fits a \<open>bigint\<close> and the list of reorganisations can be decoded.
\<close>

theorem store_keeps_its_schema:
  assumes "well_typed db"
  shows "well_typed (fst (bind_or_load X D f b db)) \<and>
    well_typed (fst (store_apply_block D f s d release db)) \<and>
    well_typed (fst (rollback_tip D f stamp db)) \<and>
    well_typed (fst (replace_mempool D f txs db)) \<and>
    (unat h < 2 ^ 63 \<longrightarrow> (\<exists>found. roots_at Reachable h db = Ok found)) \<and>
    (\<exists>reorgs. reorgs_query Reachable db = Ok reorgs)"
  using assms
  by (intro conjI impI bind_or_load_typed store_apply_block_typed rollback_tip_typed replace_mempool_typed
      roots_at_typed reorgs_query_typed)

theorem store_keeps_its_schema_witness: "well_typed fresh_db \<and> well_typed init_db"
proof -
  have "well_typed fresh_db"
    using store_keeps_its_schema [OF well_typed_empty, of demo_externals demo_serde Reachable demo_binding]
    by (simp add: fresh_db_bound)
  moreover from store_keeps_its_schema [OF this, of demo_externals demo_serde Reachable demo_binding init_state
      "delta_of fresh_state init_block" demo_release]
  have "well_typed init_db" by (simp add: init_db_stored)
  ultimately show ?thesis by simp
qed

text \<open>
  C28. Storing a block is atomic: from whatever state the caller computed it, the database is
  unchanged and the caller sees an error, or the block was computed from the stored state and its
  rows, events, objects and post-state are all there; then the caller sees success unless the
  acknowledgement of the commit was lost.
\<close>

theorem block_commits_are_atomic:
  assumes "serde_laws D" and "store_ok X D bnd js s db" and "apply_block X t b = (t', Ok d)"
    and "store_apply_block D f t' d release db = (db', r)"
  shows "(db' = db \<and> (\<exists>e. r = Err e)) \<or>
    (t = s \<and> store_ok X D bnd ((b, d) # js) t' db' \<and> (if f = Reachable then r = Ok () else r = Err Unavailable))"
  using assms by (cases rule: store_apply_block_cases) auto

theorem block_commits_are_atomic_witness:
  "demo_store_ok [init_entry] init_state init_db"
  using block_commits_are_atomic [OF demo_serde_laws fresh_db_ok demo_apply init_db_stored] by auto

text \<open>
  A block the reducer applied to the stored state is stored, when the database is reachable, the
  release texts are those of two commits, the height fits a \<open>bigint\<close> and its hash is new: no row
  violates a key or a check.
\<close>

theorem reduced_blocks_are_storable:
  assumes "serde_laws D" and "store_ok X D bnd js s db" and "admissible X hs s b"
    and "apply_block X s b = (s', Ok d)" and "unat (bd_height d) < 2 ^ 63"
    and "commit_text (parser_commit release)" and "commit_text (indexer_commit release)"
    and "\<forall>(b', d')\<in>set js. bd_block_hash d' \<noteq> bd_block_hash d"
  shows "\<exists>db'. store_apply_block D Reachable s' d release db = (db', Ok ()) \<and> store_ok X D bnd ((b, d) # js) s' db'"
  using assms by (rule store_apply_block_succeeds)

theorem reduced_blocks_are_storable_witness:
  "\<exists>db'. store_apply_block demo_serde Reachable init_state (delta_of fresh_state init_block) demo_release fresh_db = (db', Ok ())"
  using reduced_blocks_are_storable [OF demo_serde_laws fresh_db_ok fresh_admissible demo_apply _ demo_release_commits]
  by (auto simp: init_delta_facts)

text \<open>
  C29. Rolling back the tip restores the state and all tables before its block, whatever the journal
  row contains besides; on an empty journal nothing happens.
\<close>

theorem rollback_pops_the_journal:
  assumes "serde_laws D" and "store_ok X D bnd js s db"
  shows "case js of
      [] \<Rightarrow> rollback_tip D Reachable stamp db = (db, Ok None)
    | (b, d) # js' \<Rightarrow> \<exists>db'. rollback_tip D Reachable stamp db = (db', Ok (Some (bd_before d))) \<and>
        store_ok X D bnd js' (bd_before d) db'"
proof -
  obtain db' r where r: "rollback_tip D Reachable stamp db = (db', r)" by force
  with assms show ?thesis by (cases rule: rollback_tip_cases) (auto simp: r)
qed

theorem rollback_pops_the_journal_witness:
  "\<exists>db'. rollback_tip demo_serde Reachable (1, ''now'') init_db = (db', Ok (Some fresh_state)) \<and>
     demo_store_ok [] fresh_state db'"
  using rollback_pops_the_journal [OF demo_serde_laws init_db_ok] by (simp add: apply_block_tip(3) [OF demo_apply])

text \<open>
  C30. The queries read the stored chain: an object or an active outpoint is found exactly when the
  reducer's maps have it, with the object it belongs to, and the roots and counters of every stored
  height are those the reducer computed, through the columns and their parsing.
\<close>

theorem queries_read_the_stored_chain:
  assumes "serde_laws D" and "store_ok X D bnd js s db" and "chain_ok X s"
  shows "object_query Reachable k db =
      Ok (case bt_get (objects s) k of None \<Rightarrow> None | Some ob \<Rightarrow> object_to_value D ob) \<and>
    carrier_query Reachable t v db =
      Ok (case bt_get (active s) (OutPointRef t v) of
            None \<Rightarrow> None
          | Some k \<Rightarrow> (case bt_get (objects s) k of None \<Rightarrow> None | Some ob \<Rightarrow> object_to_value D ob)) \<and>
    (\<forall>(b, d)\<in>set js. \<exists>release.
       roots_at Reachable (bd_height d) db = Ok (Some \<lparr>ph_roots = bd_roots d, ph_release = release\<rparr>))"
  using object_query_lookup [OF assms(2,3)] carrier_query_lookup [OF assms(2,3)] roots_at_stored [OF assms(1,2)]
  by auto

theorem queries_read_the_stored_chain_witness:
  "object_query Reachable demo_key init_db = Ok None \<and>
   (\<exists>release. roots_at Reachable 100 init_db =
      Ok (Some \<lparr>ph_roots = bd_roots (delta_of fresh_state init_block), ph_release = release\<rparr>))"
proof -
  have "chain_ok demo_externals init_state"
    using apply_block_chain_ok(1) [OF fresh_admissible demo_apply] .
  moreover have "bt_get (objects init_state) demo_key = None" by code_simp
  ultimately show ?thesis
    using queries_read_the_stored_chain [OF demo_serde_laws init_db_ok, of demo_key] by (simp add: init_delta_facts)
qed

section \<open>The worker\<close>

text \<open>
  Whatever the block source serves and however the connection to the database behaves, a pass of
  the worker leaves the database with the tables of a chain of blocks, also when the pass fails or
  the worker's own state is stale.
\<close>

theorem passes_keep_the_store:
  assumes "serde_laws D" and "store_ok X D bnd js s (nd_db nd)"
  shows "\<exists>js' s'. store_ok X D bnd js' s' (nd_db (fst (run_once X D W release nd))) \<and>
    replay (connect_block X) (chain_state_new X bnd) (rev (map fst js')) = Some s'"
proof -
  have h: "store_holds X D bnd js s (nd_db nd)" using assms by (simp add: store_holds_def)
  have "(store_step X D)\<^sup>*\<^sup>* (nd_db nd) (nd_db (fst (run_once X D W release nd)))"
    using writes.R_run_once [of X D nd W release] by (simp add: commits_def)
  from store.commits_holds [OF this h] show ?thesis
    using journal_replay store_okD(2) by (fastforce simp: store_holds_def)
qed

theorem passes_keep_the_store_witness:
  "\<exists>js s. demo_store_ok js s
     (nd_db (fst (run_once demo_externals demo_serde forked_world demo_release (demo_node init_state init_db))))"
proof -
  have "demo_store_ok [init_entry] init_state (nd_db (demo_node init_state init_db))"
    using init_db_ok by (simp add: demo_node_def)
  from passes_keep_the_store [OF demo_serde_laws this] show ?thesis by blast
qed

text \<open>
  As long as no acknowledgement of a commit is lost, the worker's state is the stored state after
  every round, whether the pass succeeded or failed.
\<close>

theorem worker_stays_synchronised:
  assumes "acknowledged W" and "synced X D bnd nd" and "run_rounds X D W release n (nd, health) = Some (nd', health')"
  shows "synced X D bnd nd'"
  using synced_run_rounds [OF assms(3), of bnd] assms(1,2) by simp

theorem worker_stays_synchronised_witness:
  "synced demo_externals demo_serde demo_binding
     \<lparr>nd_state = init_state, nd_db = init_db\<lparr>mempool_overlay := []\<rparr>, nd_clock = 7\<rparr>"
proof -
  let ?h = "\<lparr>last_successful_height = None, last_error = None, catching_up = False\<rparr>"
  have "run_rounds demo_externals demo_serde demo_world demo_release 1 (demo_node fresh_state fresh_db, ?h) =
      Some (\<lparr>nd_state = init_state, nd_db = init_db\<lparr>mempool_overlay := []\<rparr>, nd_clock = 7\<rparr>,
            ?h\<lparr>last_successful_height := Some 100\<rparr>)"
    by (simp add: run_round_def demo_pass demo_tips)
  from worker_stays_synchronised [OF demo_acknowledged fresh_synced this] show ?thesis .
qed

text \<open>
  C31. One block brings a worker back in step with the store, provided that the reducer accepts the
  block on the state the worker has and that the database is reachable for the reload that follows
  a failed commit; whether the commit itself reached the database, failed or lost its acknowledgement
  does not matter. Afterwards the worker's state is the stored one. If it was not before, the
  commit is refused with an error, the database is unchanged and the worker has taken over the
  stored state; if the commit is acknowledged, the worker is at the state after the block. Where the
  reducer refuses the block, no commit is tried and nothing is reloaded, so nothing is claimed.
\<close>

theorem stale_worker_resynchronises:
  assumes "serde_laws D" and "store_ok X D bnd js s (nd_db nd)" and "apply_block X (nd_state nd) b = (t, Ok d)"
    and "db_outage W (Suc (nd_clock nd)) = Reachable" and "apply_one X D W release b nd = (nd', r)"
  shows "synced X D bnd nd' \<and> (r = Ok () \<longrightarrow> nd_state nd' = t) \<and>
    (nd_state nd \<noteq> s \<longrightarrow> (\<exists>e. r = Err e) \<and> nd_state nd' = s \<and> nd_db nd' = nd_db nd)"
proof -
  have reload: "load_state D (db_outage W (Suc (nd_clock nd))) db = Ok u" if "store_ok X D bnd ks u db" for ks u db
    using stored_state_load [OF store_okD(1) [OF that]] assms(4) by (simp add: load_state_def)
  let ?f = "db_outage W (nd_clock nd)"
  obtain db q where q: "store_apply_block D ?f t d release (nd_db nd) = (db, q)" by force
  from assms(1-3) q show ?thesis
  proof (cases rule: store_apply_block_cases)
    case (refused e)
    then have "nd_state nd' = s \<and> nd_db nd' = nd_db nd \<and> (\<exists>e. r = Err e)"
      using assms(5) q reload [OF assms(2)] by (auto simp: apply_one_def assms(3) on_store_def)
    then show ?thesis using assms(1,2) by (auto simp: synced_def store_holds_def)
  next
    case applied
    then have "nd_state nd' = t \<and> nd_db nd' = db" using assms(5) q by (auto simp: apply_one_def assms(3) on_store_def)
    then show ?thesis using applied(1,2) assms(1) by (auto simp: synced_def store_holds_def)
  next
    case unacknowledged
    then have "nd_state nd' = t \<and> nd_db nd' = db"
      using assms(5) q reload [OF unacknowledged(2)] by (auto simp: apply_one_def assms(3) on_store_def)
    then show ?thesis using unacknowledged(1,2) assms(1) by (auto simp: synced_def store_holds_def)
  qed
qed

theorem stale_worker_resynchronises_witness:
  "\<exists>nd' e. apply_one demo_externals demo_serde demo_world demo_release init_block (demo_node fresh_state init_db) =
       (nd', Err e) \<and>
     synced demo_externals demo_serde demo_binding nd' \<and> nd_state nd' = init_state \<and> nd_db nd' = init_db"
proof -
  let ?nd = "demo_node fresh_state init_db"
  obtain nd' r where r: "apply_one demo_externals demo_serde demo_world demo_release init_block ?nd = (nd', r)"
    by force
  have nd: "nd_state ?nd = fresh_state" "nd_db ?nd = init_db" by (simp_all add: demo_node_def)
  have "demo_store_ok [init_entry] init_state (nd_db ?nd)"
    and "apply_block demo_externals (nd_state ?nd) init_block = (init_state, Ok (delta_of fresh_state init_block))"
    and "db_outage demo_world (Suc (nd_clock ?nd)) = Reachable"
    using init_db_ok by (simp_all add: nd demo_apply demo_world_def)
  from stale_worker_resynchronises [OF demo_serde_laws this r]
  have "synced demo_externals demo_serde demo_binding nd'"
    and "nd_state ?nd \<noteq> init_state \<longrightarrow> (\<exists>e. r = Err e) \<and> nd_state nd' = init_state \<and> nd_db nd' = nd_db ?nd"
    by blast+
  moreover have "fresh_state \<noteq> init_state" using demo_tips by auto
  ultimately show ?thesis using r nd by auto
qed

text \<open>
  A successful pass over a source that serves one chain leaves the worker at the source's best
  block, unless the journal is empty, in which case the INIT is not yet confirmed there; and the
  journal consists of blocks of that chain, when blocks of the journal and the chain with equal
  hashes are equal.
\<close>

theorem pass_ends_at_the_best_block:
  assumes "serves W chain best" and "chain_linked chain best" and "acknowledged W" and "synced X D bnd nd"
    and "run_once X D W release nd = (nd', Ok u)"
  shows "\<exists>js. store_holds X D bnd js (nd_state nd') (nd_db nd') \<and>
    (js \<noteq> [] \<longrightarrow> tip_height (nd_state nd') = Some best \<and> tip_hash (nd_state nd') = Some (bv_hash (chain best)) \<and>
       ((\<forall>(b, d)\<in>set js. \<forall>h\<le>best. bv_hash b = bv_hash (chain h) \<longrightarrow> b = chain h) \<longrightarrow>
        (\<forall>(b, d)\<in>set js. b = chain (bd_height d))))"
proof -
  obtain js0 where js0: "store_holds X D bnd js0 (nd_state nd) (nd_db nd)" using assms(4) by (auto simp: synced_def)
  have "synced X D bnd nd'"
    using synced_run_once [of W X D bnd nd release] assms(3-5) by simp
  then obtain js where js: "store_holds X D bnd js (nd_state nd') (nd_db nd')" by (auto simp: synced_def)
  then have j: "chain_journal X bnd js (nd_state nd')" using store_okD(2) by (auto simp: store_holds_def)
  have "at_block chain best (nd_state nd')" if "js \<noteq> []"
    using run_once_ends [OF assms(1,5) js0] chain_journal_tip(1) [OF j] that by (cases js) auto
  then show ?thesis
    using js journal_of_chain [OF j _ _ assms(2)] unfolding at_block_def by blast
qed

theorem pass_ends_at_the_best_block_witness:
  "\<exists>js. store_holds demo_externals demo_serde demo_binding js init_state (init_db\<lparr>mempool_overlay := []\<rparr>) \<and>
     (js \<noteq> [] \<longrightarrow> tip_height init_state = Some 100)"
  using pass_ends_at_the_best_block [OF demo_serves demo_linked demo_acknowledged fresh_synced demo_pass] by auto

text \<open>
  C32. Reconciling with the source makes at most two calls per stored block and two more: the loop
  ends, whatever the source answers.
\<close>

theorem reconciliation_is_bounded:
  "nd_clock (fst (reconcile_reorg D W best nd)) \<le> nd_clock nd + 2 * length (canonical_blocks (nd_db nd)) + 2"
  by (rule reconcile_clock)

text \<open>
  C33. A worker that has a tip while the stored journal is empty never recovers by itself, as long as
  the source does not serve that tip again: every round fails and changes neither the worker nor the
  database, although the database answers.
\<close>

theorem stranded_worker_never_recovers:
  assumes "stranded X D bnd W nd"
  shows "\<exists>nd' health'. run_rounds X D W release (Suc n) (nd, health) = Some (nd', health') \<and>
    nd_state nd' = nd_state nd \<and> nd_db nd' = nd_db nd \<and> last_error health' \<noteq> None"
  using assms
proof (induction n arbitrary: nd health)
  case 0
  then show ?case using stranded_pass [of X D bnd W nd release] by (auto simp: run_round_def)
next
  case (Suc n)
  obtain nd1 e where p: "run_once X D W release nd = (nd1, Err e)" "nd_state nd1 = nd_state nd" "nd_db nd1 = nd_db nd"
    using stranded_pass [OF Suc.prems] by blast
  then have "stranded X D bnd W nd1" using Suc.prems by (simp add: stranded_def)
  from Suc.IH [OF this, of "health\<lparr>last_error := Some e, catching_up := False\<rparr>"] p show ?case
    by (simp add: run_round_def)
qed

theorem stranded_worker_never_recovers_witness:
  "\<exists>nd. run_once demo_externals demo_serde forked_world demo_release (demo_node init_state init_db) =
       (nd, Err (StoreFailed Unavailable)) \<and>
     (\<forall>n health. \<exists>nd' health'. run_rounds demo_externals demo_serde forked_world demo_release (Suc n) (nd, health) =
        Some (nd', health') \<and> nd_state nd' = nd_state nd \<and> nd_db nd' = nd_db nd)"
proof -
  obtain nd where nd: "run_once demo_externals demo_serde forked_world demo_release (demo_node init_state init_db) =
       (nd, Err (StoreFailed Unavailable))" "nd_state nd = init_state" "demo_store_ok [] fresh_state (nd_db nd)"
    using forked_pass by blast
  have "src_block_hash forked_world t 100 \<noteq> Some (bv_hash init_block)" for t
    using init_block_hash by (simp add: forked_world_def)
  then have "stranded demo_externals demo_serde demo_binding forked_world nd"
    using nd(2,3) demo_serde_laws demo_tips by (auto simp: stranded_def store_holds_def)
  then show ?thesis using nd(1) stranded_worker_never_recovers by metis
qed

end
