(* ===== verification/Rust_Text.thy ===== *)
theory Rust_Text
  imports Tandem_Prelude
begin

text \<open>
  Text of the Rust standard library, as the service uses it. A \<open>str\<close> is the list of its UTF-8
  bytes, so \<open>len\<close> is \<open>length\<close>; \<open>u8_of_char\<close> reads a character as its byte. Decimal printing
  (\<open>to_string\<close>), \<open>split\<close> on an ASCII character, \<open>trim\<close>, and the validity check of
  \<open>from_utf8\<close>.
\<close>

section \<open>Decimal numbers\<close>

fun decimal :: "nat \<Rightarrow> string" where
  "decimal n = (if n < 10 then [char_of (48 + n)] else decimal (n div 10) @ [char_of (48 + n mod 10)])"

declare decimal.simps [simp del]

definition to_string :: "'n::len word \<Rightarrow> string" where
  "to_string w = decimal (unat w)"

text \<open>The value of a string of digits, as a reader of the text sees it.\<close>

definition decimal_value :: "string \<Rightarrow> nat" where
  "decimal_value = foldl (\<lambda>n c. 10 * n + (of_char c - 48)) 0"

lemma decimal_value_decimal: "decimal_value (decimal n) = n"
proof (induction n rule: decimal.induct)
  case (1 n)
  have "of_char (char_of (48 + k :: nat) :: char) = 48 + k" if "k < 10" for k :: nat
    using that by simp
  with 1 show ?case by (subst decimal.simps) (auto simp: decimal_value_def)
qed

lemma decimal_inject [simp]: "decimal m = decimal n \<longleftrightarrow> m = n"
  by (metis decimal_value_decimal)

lemma to_string_inject [simp]: "to_string v = to_string w \<longleftrightarrow> v = w"
  by (simp add: to_string_def word_unat_eq_iff)

section \<open>Splitting\<close>

fun split_on :: "'a \<Rightarrow> 'a list \<Rightarrow> 'a list list" where
  "split_on c [] = [[]]"
| "split_on c (x # xs) =
     (if x = c then [] # split_on c xs
      else (case split_on c xs of [] \<Rightarrow> [[x]] | y # ys \<Rightarrow> (x # y) # ys))"

lemma split_on_not_Nil [simp]: "split_on c xs \<noteq> []"
  by (cases xs) (auto split: list.split)

fun join_with :: "'a \<Rightarrow> 'a list list \<Rightarrow> 'a list" where
  "join_with c [] = []"
| "join_with c [x] = x"
| "join_with c (x # y # ys) = x @ c # join_with c (y # ys)"

lemma join_with_Cons: "ys \<noteq> [] \<Longrightarrow> join_with c (x # ys) = x @ c # join_with c ys"
  by (cases ys) auto

lemma join_with_cons_head: "join_with c ((x # y) # ys) = x # join_with c (y # ys)"
  by (cases ys) auto

lemma join_split [simp]: "join_with c (split_on c xs) = xs"
proof (induction xs)
  case (Cons x xs)
  show ?case
  proof (cases "x = c")
    case False
    obtain y ys where "split_on c xs = y # ys" by (meson neq_Nil_conv split_on_not_Nil)
    with Cons False show ?thesis by (simp add: join_with_cons_head)
  qed (use Cons in \<open>simp add: join_with_Cons\<close>)
qed simp

lemma split_on_pieces: "l \<in> set (split_on c xs) \<Longrightarrow> set l \<subseteq> set xs - {c}"
proof (induction xs arbitrary: l)
  case (Cons x xs)
  obtain y ys where "split_on c xs = y # ys" by (meson neq_Nil_conv split_on_not_Nil)
  with Cons show ?case by (fastforce split: if_splits)
qed simp

lemma split_on_snoc: "split_on c (xs @ [c]) = split_on c xs @ [[]]"
proof (induction xs)
  case (Cons x xs)
  obtain y ys where "split_on c xs = y # ys" by (meson neq_Nil_conv split_on_not_Nil)
  with Cons show ?case by simp
qed simp

lemma last_split_on: "last (split_on c xs) = [] \<longleftrightarrow> xs = [] \<or> last xs = c"
proof (induction xs)
  case (Cons x xs)
  obtain y ys where "split_on c xs = y # ys" by (meson neq_Nil_conv split_on_not_Nil)
  moreover from this have "join_with c (y # ys) = xs" by (metis join_split)
  ultimately show ?case using Cons by (cases "xs = []"; cases ys) (auto split: if_splits)
qed simp

lemma split_on_free: "c \<notin> set xs \<Longrightarrow> split_on c xs = [xs]"
  by (induction xs) auto

lemma split_on_first: "c \<notin> set xs \<Longrightarrow> split_on c (xs @ c # ys) = xs # split_on c ys"
  by (induction xs) auto

lemma split_join: "ls \<noteq> [] \<Longrightarrow> \<forall>l\<in>set ls. c \<notin> set l \<Longrightarrow> split_on c (join_with c ls) = ls"
  by (induction c ls rule: join_with.induct) (auto simp: split_on_free split_on_first)

lemma join_with_set: "x \<in> set (join_with c ls) \<Longrightarrow> x = c \<or> (\<exists>l\<in>set ls. x \<in> set l)"
  by (induction c ls rule: join_with.induct) auto

text \<open>Lines, each with its terminator.\<close>

lemma terminated_lines: "ls \<noteq> [] \<Longrightarrow> concat (map (\<lambda>l. l @ [c]) ls) = join_with c ls @ [c]"
  by (induction c ls rule: join_with.induct) auto

section \<open>White space\<close>

definition u8_of_char :: "char \<Rightarrow> u8" where
  "u8_of_char c = word_of_nat (of_char c)"

text \<open>The UTF-8 encodings of the code points with the property \<open>White_Space\<close>.\<close>

definition white_space :: "string list" where
  "white_space =
     [[CHR 0x09], [CHR 0x0a], [CHR 0x0b], [CHR 0x0c], [CHR 0x0d], [CHR 0x20], [CHR 0xc2, CHR 0x85],
      [CHR 0xc2, CHR 0xa0], [CHR 0xe1, CHR 0x9a, CHR 0x80], [CHR 0xe2, CHR 0x80, CHR 0x80],
      [CHR 0xe2, CHR 0x80, CHR 0x81], [CHR 0xe2, CHR 0x80, CHR 0x82],
      [CHR 0xe2, CHR 0x80, CHR 0x83], [CHR 0xe2, CHR 0x80, CHR 0x84],
      [CHR 0xe2, CHR 0x80, CHR 0x85], [CHR 0xe2, CHR 0x80, CHR 0x86],
      [CHR 0xe2, CHR 0x80, CHR 0x87], [CHR 0xe2, CHR 0x80, CHR 0x88],
      [CHR 0xe2, CHR 0x80, CHR 0x89], [CHR 0xe2, CHR 0x80, CHR 0x8a],
      [CHR 0xe2, CHR 0x80, CHR 0xa8], [CHR 0xe2, CHR 0x80, CHR 0xa9],
      [CHR 0xe2, CHR 0x80, CHR 0xaf], [CHR 0xe2, CHR 0x81, CHR 0x9f],
      [CHR 0xe3, CHR 0x80, CHR 0x80]]"

text \<open>Drop a prefix of the list as long as one of the codes is a prefix.\<close>

lemma drop_code_shorter: "w \<noteq> [] \<Longrightarrow> take (length w) xs = w \<Longrightarrow> length xs - length w < length xs"
  by (cases xs; cases w) auto

function strip_codes :: "'a list list \<Rightarrow> 'a list \<Rightarrow> 'a list" where
  "strip_codes codes xs =
     (case find (\<lambda>w. w \<noteq> [] \<and> take (length w) xs = w) codes of
        None \<Rightarrow> xs
      | Some w \<Rightarrow> strip_codes codes (drop (length w) xs))"
  by pat_completeness auto

termination
  by (relation "measure (length \<circ> snd)") (auto simp: find_Some_iff intro!: drop_code_shorter)

declare strip_codes.simps [simp del]

definition trim :: "string \<Rightarrow> string" where
  "trim s =
     rev (strip_codes (map rev white_space) (rev (strip_codes white_space s)))"

section \<open>UTF-8\<close>

definition continuation :: "u8 \<Rightarrow> bool" where
  "continuation b \<longleftrightarrow> 0x80 \<le> b \<and> b \<le> 0xbf"

text \<open>
  \<open>std::str::from_utf8\<close> accepts exactly the well-formed byte sequences of the Unicode standard:
  no overlong form, no surrogate, nothing above U+10FFFF.
\<close>

fun utf8_ok :: "bytes \<Rightarrow> bool" where
  "utf8_ok [] \<longleftrightarrow> True"
| "utf8_ok (a # bs) \<longleftrightarrow>
     (if a \<le> 0x7f then utf8_ok bs
      else if 0xc2 \<le> a \<and> a \<le> 0xdf then
        (case bs of b # bs' \<Rightarrow> continuation b \<and> utf8_ok bs' | [] \<Rightarrow> False)
      else if 0xe0 \<le> a \<and> a \<le> 0xef then
        (case bs of
           b # c # bs' \<Rightarrow>
             (if a = 0xe0 then 0xa0 \<le> b \<and> b \<le> 0xbf
              else if a = 0xed then 0x80 \<le> b \<and> b \<le> 0x9f
              else continuation b) \<and>
             continuation c \<and> utf8_ok bs'
         | _ \<Rightarrow> False)
      else if 0xf0 \<le> a \<and> a \<le> 0xf4 then
        (case bs of
           b # c # d # bs' \<Rightarrow>
             (if a = 0xf0 then 0x90 \<le> b \<and> b \<le> 0xbf
              else if a = 0xf4 then 0x80 \<le> b \<and> b \<le> 0x8f
              else continuation b) \<and>
             continuation c \<and> continuation d \<and> utf8_ok bs'
         | _ \<Rightarrow> False)
      else False)"

section \<open>ASCII classes\<close>

definition is_ascii_digit :: "u8 \<Rightarrow> bool" where
  "is_ascii_digit b \<longleftrightarrow> 0x30 \<le> b \<and> b \<le> 0x39"

definition is_ascii_uppercase :: "u8 \<Rightarrow> bool" where
  "is_ascii_uppercase b \<longleftrightarrow> 0x41 \<le> b \<and> b \<le> 0x5a"

definition is_ascii_lowercase :: "u8 \<Rightarrow> bool" where
  "is_ascii_lowercase b \<longleftrightarrow> 0x61 \<le> b \<and> b \<le> 0x7a"

definition is_ascii_alphanumeric :: "u8 \<Rightarrow> bool" where
  "is_ascii_alphanumeric b \<longleftrightarrow> is_ascii_digit b \<or> is_ascii_uppercase b \<or> is_ascii_lowercase b"

definition is_ascii_hexdigit :: "u8 \<Rightarrow> bool" where
  "is_ascii_hexdigit b \<longleftrightarrow>
     is_ascii_digit b \<or> (0x41 \<le> b \<and> b \<le> 0x46) \<or> (0x61 \<le> b \<and> b \<le> 0x66)"

end
