(* ===== verification/Config.thy ===== *)
theory Config
  imports Store Rust_Text
begin

text \<open>
  Process configuration, \<open>crates/tandem-verifier/src/config.rs\<close>. The arguments are what \<open>clap\<close>
  has read from the command line and the environment. The file system, \<open>Url\<close>, \<open>SocketAddr\<close> and
  the JSON reader of the authorization are the fields of the parameter \<open>H\<close>: each gives \<open>None\<close>
  where the call fails. An interval is its number of milliseconds.
\<close>

section \<open>Arguments and configuration\<close>

record args =
  arg_network :: string
  arg_init_txid :: string
  arg_spec_path :: string
  arg_spec_sha256 :: string
  arg_database_url :: string
  arg_bitcoin_rpc_url :: string
  arg_bitcoin_rpc_user :: string
  arg_bitcoin_rpc_password :: string
  arg_bind_addr :: string
  arg_signing_key_file :: string
  arg_signing_key_id :: string
  arg_parser_commit :: string
  arg_indexer_commit :: string
  arg_parser_binary_sha256 :: string
  arg_indexer_binary_sha256 :: string
  arg_poll_interval_ms :: u64
  arg_zmq_rawblock_url :: "string option"
  arg_allow_mainnet :: bool
  arg_mainnet_authorization_file :: "string option"
  arg_mainnet_authorization_sha256 :: "string option"

record ('u, 's) config =
  cfg_binding :: binding
  cfg_database_url :: string
  cfg_bitcoin_rpc_url :: 'u
  cfg_bitcoin_rpc_user :: string
  cfg_bitcoin_rpc_password :: string
  cfg_bind_addr :: 's
  cfg_signing_key_file :: string
  cfg_signing_key_id :: string
  cfg_parser_commit :: string
  cfg_indexer_commit :: string
  cfg_parser_binary_sha256 :: hash32
  cfg_indexer_binary_sha256 :: hash32
  cfg_poll_interval :: u64
  cfg_zmq_rawblock_url :: "string option"

definition release_identity_of :: "('u, 's) config \<Rightarrow> release_identity" where
  "release_identity_of cfg =
     \<lparr>parser_commit = cfg_parser_commit cfg,
      indexer_commit = cfg_indexer_commit cfg,
      parser_binary_sha256 = cfg_parser_binary_sha256 cfg,
      indexer_binary_sha256 = cfg_indexer_binary_sha256 cfg\<rparr>"

record mainnet_authorization =
  ma_schema :: string
  ma_protocol_id :: string
  ma_spec_hash :: hash32
  ma_approved_by :: "string list"
  ma_approved_at :: string

record ('u, 's) host =
  read_file :: "string \<Rightarrow> bytes option"
  url_parse :: "string \<Rightarrow> 'u option"
  url_scheme :: "'u \<Rightarrow> string"
  socket_addr_parse :: "string \<Rightarrow> 's option"
  authorization_from_slice :: "bytes \<Rightarrow> mainnet_authorization option"

datatype config_error =
    UnsupportedNetwork string | InitTxidLength | InitTxidNotHex | InitTxidZero
  | SpecHashInvalid | SpecUnreadable | SpecBom | SpecNotUtf8 | SpecCarriageReturn
  | SpecFinalNewline | SpecTrailingSpace nat | SpecHashMismatch
  | DatabaseUrlScheme | RpcUrlInvalid | RpcUrlScheme | BindAddrInvalid
  | KeyIdLength | KeyIdCharacter | CommitInvalid string | BinaryHashInvalid string
  | PollIntervalTooShort | EmptyCredentials
  | MainnetNotAllowed | AuthorizationFileMissing | AuthorizationHashMissing | AuthorizationHashInvalid
  | AuthorizationUnreadable | AuthorizationHashMismatch | AuthorizationInvalid | AuthorizationSchema
  | AuthorizationProtocolId | AuthorizationSpecHash | AuthorizationApprovers | AuthorizationTime

definition require :: "config_error \<Rightarrow> bool \<Rightarrow> (config_error, unit) res" where
  "require e c = (if c then Ok () else Err e)"

lemma require_iffs [res_simps]:
  "require e c = Ok u \<longleftrightarrow> c" "require e c = Err f \<longleftrightarrow> \<not> c \<and> f = e" "require e c \<noteq> Panic"
  by (auto simp: require_def)

section \<open>The checks\<close>

definition trailing_space :: "bytes \<Rightarrow> bool" where
  "trailing_space line \<longleftrightarrow> line \<noteq> [] \<and> last line \<in> {0x20, 0x09}"

definition starts_with :: "'a list \<Rightarrow> 'a list \<Rightarrow> bool" where
  "starts_with xs p \<longleftrightarrow> take (length p) xs = p"

definition ends_with :: "'a list \<Rightarrow> 'a list \<Rightarrow> bool" where
  "ends_with xs p \<longleftrightarrow> starts_with (rev xs) (rev p)"

definition verify_spec_bytes :: "bytes \<Rightarrow> (config_error, unit) res" where
  "verify_spec_bytes bs =
     res_bind (require SpecBom (\<not> starts_with bs [0xef, 0xbb, 0xbf])) (\<lambda>_.
     res_bind (require SpecNotUtf8 (utf8_ok bs)) (\<lambda>_.
     res_bind (require SpecCarriageReturn (0x0d \<notin> set bs)) (\<lambda>_.
     res_bind (require SpecFinalNewline (bs \<noteq> [] \<and> last bs = 0x0a)) (\<lambda>_.
     res_bind (require SpecFinalNewline (\<not> ends_with bs [0x0a, 0x0a])) (\<lambda>_.
     case find (\<lambda>(i, line). trailing_space line) (enumerate_from 0 (split_on 0x0a bs)) of
       Some (i, line) \<Rightarrow> Err (SpecTrailingSpace (i + 1))
     | None \<Rightarrow> Ok ())))))"

definition validate_key_id :: "string \<Rightarrow> (config_error, unit) res" where
  "validate_key_id v =
     res_bind (require KeyIdLength (1 \<le> length v \<and> length v \<le> 128)) (\<lambda>_.
     require KeyIdCharacter
       (list_all (\<lambda>c. is_ascii_alphanumeric (u8_of_char c) \<or> c \<in> set ''._:-'') v))"

definition validate_commit :: "string \<Rightarrow> string \<Rightarrow> (config_error, unit) res" where
  "validate_commit name v =
     require (CommitInvalid name)
       (length v = 40 \<and>
        list_all (\<lambda>c. is_ascii_hexdigit (u8_of_char c) \<and> \<not> is_ascii_uppercase (u8_of_char c)) v)"

text \<open>The named approvers are a \<open>BTreeSet\<close>: trimmed, not empty, each counted once.\<close>

definition named_approvers :: "mainnet_authorization \<Rightarrow> string set" where
  "named_approvers auth = set (filter (\<lambda>a. a \<noteq> []) (map trim (ma_approved_by auth)))"

definition validate_mainnet_gate ::
    "externals \<Rightarrow> ('u, 's) host \<Rightarrow> args \<Rightarrow> binding \<Rightarrow> (config_error, unit) res" where
  "validate_mainnet_gate X H args b =
     (if bnd_network b \<noteq> Mainnet then Ok ()
      else
        res_bind (require MainnetNotAllowed (arg_allow_mainnet args)) (\<lambda>_.
        res_bind (ok_or AuthorizationFileMissing (arg_mainnet_authorization_file args)) (\<lambda>path.
        res_bind (ok_or AuthorizationHashMissing (arg_mainnet_authorization_sha256 args)) (\<lambda>text.
        res_bind (map_err (\<lambda>_. AuthorizationHashInvalid) (hash32_from_hex X text)) (\<lambda>expected.
        res_bind (ok_or AuthorizationUnreadable (read_file H path)) (\<lambda>content.
        res_bind (require AuthorizationHashMismatch (hash32_sha256 X content = expected)) (\<lambda>_.
        res_bind (ok_or AuthorizationInvalid (authorization_from_slice H content)) (\<lambda>auth.
        res_bind (require AuthorizationSchema (ma_schema auth = ''urn:tandem:mainnet-authorization'')) (\<lambda>_.
        res_bind (require AuthorizationProtocolId (ma_protocol_id auth = protocol_id X b)) (\<lambda>_.
        res_bind (require AuthorizationSpecHash (ma_spec_hash auth = spec_hash b)) (\<lambda>_.
        res_bind (require AuthorizationApprovers (2 \<le> card (named_approvers auth))) (\<lambda>_.
        require AuthorizationTime (trim (ma_approved_at auth) \<noteq> [])))))))))))))"

definition from_args ::
    "externals \<Rightarrow> ('u, 's) host \<Rightarrow> args \<Rightarrow> (config_error, ('u, 's) config) res" where
  "from_args X H args =
     res_bind (map_err UnsupportedNetwork (network_from_str (arg_network args))) (\<lambda>network.
     res_bind (require InitTxidLength (length (arg_init_txid args) = 64)) (\<lambda>_.
     res_bind (map_err (\<lambda>_. InitTxidNotHex) (wire_hash X (arg_init_txid args))) (\<lambda>txid.
     res_bind (require InitTxidZero (\<not> hash32_is_zero txid)) (\<lambda>_.
     res_bind (map_err (\<lambda>_. SpecHashInvalid) (hash32_from_hex X (arg_spec_sha256 args))) (\<lambda>expected_spec_hash.
     res_bind (ok_or SpecUnreadable (read_file H (arg_spec_path args))) (\<lambda>spec.
     res_bind (verify_spec_bytes spec) (\<lambda>_.
     let actual_spec_hash = hash32_sha256 X spec in
     res_bind (require SpecHashMismatch (actual_spec_hash = expected_spec_hash)) (\<lambda>_.
     res_bind (require DatabaseUrlScheme
       (starts_with (arg_database_url args) ''postgres://'' \<or>
        starts_with (arg_database_url args) ''postgresql://'')) (\<lambda>_.
     res_bind (ok_or RpcUrlInvalid (url_parse H (arg_bitcoin_rpc_url args))) (\<lambda>url.
     res_bind (require RpcUrlScheme (url_scheme H url \<in> {''http'', ''https''})) (\<lambda>_.
     res_bind (ok_or BindAddrInvalid (socket_addr_parse H (arg_bind_addr args))) (\<lambda>addr.
     res_bind (validate_key_id (arg_signing_key_id args)) (\<lambda>_.
     res_bind (validate_commit ''TANDEM_PARSER_COMMIT'' (arg_parser_commit args)) (\<lambda>_.
     res_bind (validate_commit ''TANDEM_INDEXER_COMMIT'' (arg_indexer_commit args)) (\<lambda>_.
     res_bind (map_err (\<lambda>_. BinaryHashInvalid ''TANDEM_PARSER_BINARY_SHA256'')
       (hash32_from_hex X (arg_parser_binary_sha256 args))) (\<lambda>parser_hash.
     res_bind (map_err (\<lambda>_. BinaryHashInvalid ''TANDEM_INDEXER_BINARY_SHA256'')
       (hash32_from_hex X (arg_indexer_binary_sha256 args))) (\<lambda>indexer_hash.
     res_bind (require PollIntervalTooShort (250 \<le> arg_poll_interval_ms args)) (\<lambda>_.
     res_bind (require EmptyCredentials
       (\<not> (arg_bitcoin_rpc_user args = [] \<or> arg_bitcoin_rpc_password args = []))) (\<lambda>_.
     let b = \<lparr>bnd_network = network, init_txid = txid, spec_hash = actual_spec_hash\<rparr> in
     res_bind (validate_mainnet_gate X H args b) (\<lambda>_.
     Ok \<lparr>cfg_binding = b,
         cfg_database_url = arg_database_url args,
         cfg_bitcoin_rpc_url = url,
         cfg_bitcoin_rpc_user = arg_bitcoin_rpc_user args,
         cfg_bitcoin_rpc_password = arg_bitcoin_rpc_password args,
         cfg_bind_addr = addr,
         cfg_signing_key_file = arg_signing_key_file args,
         cfg_signing_key_id = arg_signing_key_id args,
         cfg_parser_commit = arg_parser_commit args,
         cfg_indexer_commit = arg_indexer_commit args,
         cfg_parser_binary_sha256 = parser_hash,
         cfg_indexer_binary_sha256 = indexer_hash,
         cfg_poll_interval = arg_poll_interval_ms args,
         cfg_zmq_rawblock_url = arg_zmq_rawblock_url args\<rparr>))))))))))))))))))))"

section \<open>What the checks accept\<close>

lemma unat_u8_of_char [simp]: "unat (u8_of_char c) = of_char c"
  by (simp add: u8_of_char_def unat_of_nat)

lemma lowercase_hex_char:
  "is_ascii_hexdigit (u8_of_char c) \<and> \<not> is_ascii_uppercase (u8_of_char c) \<longleftrightarrow> c \<in> set ''0123456789abcdef''"
proof -
  have "of_char ` set ''0123456789abcdef'' = {48..<58} \<union> {97..<103 :: nat}"
    by code_simp
  moreover have "inj (of_char :: char \<Rightarrow> nat)" by (simp add: inj_on_def)
  ultimately have "c \<in> set ''0123456789abcdef'' \<longleftrightarrow> (of_char c :: nat) \<in> {48..<58} \<union> {97..<103}"
    by (metis inj_image_mem_iff)
  then show ?thesis
    by (auto simp: is_ascii_hexdigit_def is_ascii_digit_def is_ascii_uppercase_def word_le_nat_alt)
qed

text \<open>The service accepts exactly the commits its database accepts.\<close>

lemma validate_commit_iff: "validate_commit name v = Ok u \<longleftrightarrow> commit_text v"
  by (simp add: validate_commit_def commit_text_def lowercase_hex_char res_simps list_all_iff)

text \<open>
  The specification contract at the level of lines: terminated by LF, without CR and without
  trailing white space, the last line not empty (unless it is the only one).
\<close>

definition spec_lines :: "bytes list \<Rightarrow> bool" where
  "spec_lines ls \<longleftrightarrow> ls \<noteq> [] \<and> (last ls \<noteq> [] \<or> ls = [[]]) \<and>
     (\<forall>l\<in>set ls. 0x0a \<notin> set l \<and> 0x0d \<notin> set l \<and> \<not> trailing_space l)"

lemma find_line_None:
  "find (\<lambda>(i, l). P l) (enumerate_from n ls) = None \<longleftrightarrow> (\<forall>l\<in>set ls. \<not> P l)"
  by (induction ls arbitrary: n) auto

lemma ends_with_two: "ends_with (xs @ [c]) [c, c] \<longleftrightarrow> xs \<noteq> [] \<and> last xs = c"
  by (cases xs rule: rev_cases) (auto simp: ends_with_def starts_with_def)

lemma verify_spec_bytes_iff:
  "verify_spec_bytes bs = Ok u \<longleftrightarrow>
     \<not> starts_with bs [0xef, 0xbb, 0xbf] \<and> utf8_ok bs \<and>
     (\<exists>ls. spec_lines ls \<and> bs = concat (map (\<lambda>l. l @ [0x0a]) ls))"
proof -
  have "0x0d \<notin> set bs \<and> (bs \<noteq> [] \<and> last bs = 0x0a) \<and> \<not> ends_with bs [0x0a, 0x0a] \<and>
      (\<forall>l\<in>set (split_on 0x0a bs). \<not> trailing_space l) \<longleftrightarrow>
    (\<exists>ls. spec_lines ls \<and> bs = concat (map (\<lambda>l. l @ [0x0a]) ls))" (is "?l \<longleftrightarrow> ?r")
  proof
    assume l: ?l
    then obtain xs where bs: "bs = xs @ [0x0a]" by (metis append_butlast_last_id)
    with l have "spec_lines (split_on 0x0a xs)"
      using split_on_pieces [of _ "0x0a" xs] last_split_on [of "0x0a" xs]
      by (auto simp: spec_lines_def ends_with_two split_on_snoc)
    with bs show ?r by (intro exI [of _ "split_on 0x0a xs"]) (simp add: terminated_lines)
  next
    assume ?r
    then obtain ls where ls: "spec_lines ls" "bs = join_with 0x0a ls @ [0x0a]"
      by (metis spec_lines_def terminated_lines)
    then have s: "split_on 0x0a (join_with 0x0a ls) = ls" by (simp add: split_join spec_lines_def)
    have "0x0d \<notin> set (join_with 0x0a ls)"
      using ls(1) by (auto simp: spec_lines_def dest!: join_with_set)
    moreover have "join_with 0x0a ls = [] \<or> last (join_with 0x0a ls) \<noteq> 0x0a"
      using ls(1) last_split_on [of "0x0a" "join_with 0x0a ls"] by (auto simp: spec_lines_def s)
    ultimately show ?l
      using ls by (auto simp: ends_with_two split_on_snoc s spec_lines_def trailing_space_def)
  qed
  moreover have "(case r of Some (i, line) \<Rightarrow> Err (SpecTrailingSpace (i + 1)) | None \<Rightarrow> Ok ()) = Ok u \<longleftrightarrow> r = None"
    for r :: "(nat \<times> bytes) option"
    by (auto split: option.split)
  ultimately show ?thesis
    by (simp add: verify_spec_bytes_def res_simps find_line_None)
qed

lemma two_approvers:
  "2 \<le> card (named_approvers auth) \<longleftrightarrow>
     (\<exists>a1\<in>set (ma_approved_by auth). \<exists>a2\<in>set (ma_approved_by auth).
        trim a1 \<noteq> [] \<and> trim a2 \<noteq> [] \<and> trim a1 \<noteq> trim a2)"
proof -
  have "finite (named_approvers auth)" by (simp add: named_approvers_def)
  then have "2 \<le> card (named_approvers auth) \<longleftrightarrow> (\<exists>x\<in>named_approvers auth. \<exists>y\<in>named_approvers auth. x \<noteq> y)"
    using card_le_Suc0_iff_eq [of "named_approvers auth"] by (simp add: not_le [symmetric] numeral_2_eq_2 Suc_le_eq)
  then show ?thesis by (auto simp: named_approvers_def)
qed

lemma from_args_Ok:
  assumes "from_args X H args = Ok cfg"
  obtains spec where "read_file H (arg_spec_path args) = Some spec"
    and "verify_spec_bytes spec = Ok ()" and "spec_hash (cfg_binding cfg) = hash32_sha256 X spec"
    and "hash32_from_hex X (arg_spec_sha256 args) = Ok (hash32_sha256 X spec)"
    and "network_from_str (arg_network args) = Ok (bnd_network (cfg_binding cfg))"
    and "wire_hash X (arg_init_txid args) = Ok (init_txid (cfg_binding cfg))"
    and "\<not> hash32_is_zero (init_txid (cfg_binding cfg))"
    and "commit_text (cfg_parser_commit cfg)" and "commit_text (cfg_indexer_commit cfg)"
    and "250 \<le> cfg_poll_interval cfg"
    and "validate_mainnet_gate X H args (cfg_binding cfg) = Ok ()"
  using assms by (auto simp: from_args_def Let_def res_simps validate_commit_iff)

end
