(* ===== verification/Config_Properties.thy ===== *)
theory Config_Properties
  imports Config Concrete_Node
begin

text \<open>Properties of the process configuration, and a configuration of the demonstration service.\<close>

section \<open>A configuration\<close>

definition demo_args :: args where
  "demo_args =
     \<lparr>arg_network = ''mainnet'', arg_init_txid = display_hash demo_externals (demo_hash 1), arg_spec_path = ''spec.md'',
      arg_spec_sha256 = hash32_to_hex demo_externals (hash32_sha256 demo_externals demo_spec),
      arg_database_url = ''postgres://localhost/tandem'', arg_bitcoin_rpc_url = ''http'',
      arg_bitcoin_rpc_user = ''u'', arg_bitcoin_rpc_password = ''p'', arg_bind_addr = ''127.0.0.1:8088'',
      arg_signing_key_file = ''seed'', arg_signing_key_id = ''verifier-1'',
      arg_parser_commit = replicate 40 CHR ''a'', arg_indexer_commit = replicate 40 CHR ''b'',
      arg_parser_binary_sha256 = hash32_to_hex demo_externals (demo_hash 12), arg_indexer_binary_sha256 = hash32_to_hex demo_externals (demo_hash 13),
      arg_poll_interval_ms = 5000, arg_zmq_rawblock_url = None, arg_allow_mainnet = True,
      arg_mainnet_authorization_file = Some ''mainnet.json'',
      arg_mainnet_authorization_sha256 = Some (hash32_to_hex demo_externals (hash32_sha256 demo_externals [0x7b, 0x7d]))\<rparr>"

definition demo_mainnet :: binding where
  "demo_mainnet = \<lparr>bnd_network = Mainnet, init_txid = demo_hash 1, spec_hash = hash32_sha256 demo_externals demo_spec\<rparr>"

definition demo_authorization :: mainnet_authorization where
  "demo_authorization =
     \<lparr>ma_schema = ''urn:tandem:mainnet-authorization'', ma_protocol_id = protocol_id demo_externals demo_mainnet,
      ma_spec_hash = spec_hash demo_mainnet, ma_approved_by = ['' alice'', ''bob'', ''alice ''], ma_approved_at = ''today''\<rparr>"

definition demo_host :: "(string, string) host" where
  "demo_host =
     \<lparr>read_file = (\<lambda>p. if p = ''spec.md'' then Some demo_spec else if p = ''mainnet.json'' then Some [0x7b, 0x7d]
        else if p = ''seed'' then Some (ascii (hex_text (replicate 32 7))) else None),
      url_parse = Some, url_scheme = id, socket_addr_parse = Some,
      authorization_from_slice = (\<lambda>_. Some demo_authorization)\<rparr>"

definition mainnet_config :: "(string, string) config" where
  "mainnet_config =
     \<lparr>cfg_binding = demo_mainnet, cfg_database_url = ''postgres://localhost/tandem'', cfg_bitcoin_rpc_url = ''http'',
      cfg_bitcoin_rpc_user = ''u'', cfg_bitcoin_rpc_password = ''p'', cfg_bind_addr = ''127.0.0.1:8088'',
      cfg_signing_key_file = ''seed'', cfg_signing_key_id = ''verifier-1'',
      cfg_parser_commit = replicate 40 CHR ''a'', cfg_indexer_commit = replicate 40 CHR ''b'',
      cfg_parser_binary_sha256 = demo_hash 12, cfg_indexer_binary_sha256 = demo_hash 13,
      cfg_poll_interval = 5000, cfg_zmq_rawblock_url = None\<rparr>"

lemma demo_spec_accepted: "verify_spec_bytes demo_spec = Ok ()"
  by code_simp

lemma demo_texts:
  "length (display_hash demo_externals (demo_hash 1)) = 64" "\<not> hash32_is_zero (demo_hash 1)"
  "validate_key_id ''verifier-1'' = Ok ()" "starts_with ''postgres://localhost/tandem'' ''postgres://''"
  "commit_text (replicate 40 CHR ''a'')" "commit_text (replicate 40 CHR ''b'')"
  by code_simp+

lemma demo_trims: "map trim ['' alice'', ''bob'', ''alice ''] = [''alice'', ''bob'', ''alice'']" "trim ''today'' = ''today''"
  by code_simp+

lemma demo_approvers: "2 \<le> card (named_approvers demo_authorization)" "trim ''today'' \<noteq> []"
  using demo_trims by (simp_all add: named_approvers_def demo_authorization_def card_insert_if)

lemma demo_gate: "validate_mainnet_gate demo_externals demo_host demo_args demo_mainnet = Ok ()"
  using demo_approvers
  by (simp add: validate_mainnet_gate_def demo_args_def demo_host_def demo_mainnet_def demo_authorization_def
      hash_texts [OF demo_hex_laws] require_def ok_or_def)

lemma demo_args_accepted: "from_args demo_externals demo_host demo_args = Ok mainnet_config"
proof -
  have "\<exists>u. validate_commit name v = Ok u" if "commit_text v" for name v
    using that by (simp add: validate_commit_iff)
  then have "validate_commit name v = Ok ()" if "commit_text v" for name v
    using that by (metis (full_types) unit.exhaust)
  note this [OF demo_texts(5)] this [OF demo_texts(6)]
  then show ?thesis
    using demo_gate unfolding from_args_def
    by (simp add: demo_args_def demo_host_def mainnet_config_def demo_mainnet_def demo_texts demo_spec_accepted
      network_from_str_def hash_texts [OF demo_hex_laws] require_def ok_or_def)
qed

section \<open>Accepted configurations\<close>

lemma network_from_str_Ok: "network_from_str s = Ok n \<Longrightarrow> s = network_label n"
  by (auto simp: network_from_str_def split: if_splits)

text \<open>
  An accepted configuration pins the protocol: the network is the one named, the INIT transaction
  id is the one given and not zero, and the specification hash is that of the file read, equal to
  the expected one, whose bytes are UTF-8 lines that end in LF, without byte order mark, CR or
  trailing white space, and without an empty last line.
\<close>

theorem configuration_pins_the_protocol:
  assumes "from_args X H args = Ok cfg"
  shows "arg_network args = network_label (bnd_network (cfg_binding cfg)) \<and>
    wire_hash X (arg_init_txid args) = Ok (init_txid (cfg_binding cfg)) \<and>
    \<not> hash32_is_zero (init_txid (cfg_binding cfg)) \<and>
    hash32_from_hex X (arg_spec_sha256 args) = Ok (spec_hash (cfg_binding cfg)) \<and>
    (\<exists>ls. read_file H (arg_spec_path args) = Some (concat (map (\<lambda>l. l @ [0x0a]) ls)) \<and>
       spec_hash (cfg_binding cfg) = hash32_sha256 X (concat (map (\<lambda>l. l @ [0x0a]) ls)) \<and>
       spec_lines ls \<and> utf8_ok (concat (map (\<lambda>l. l @ [0x0a]) ls)) \<and>
       \<not> starts_with (concat (map (\<lambda>l. l @ [0x0a]) ls)) [0xef, 0xbb, 0xbf])"
  by (rule from_args_Ok [OF assms]) (auto simp: verify_spec_bytes_iff dest: network_from_str_Ok)

theorem configuration_pins_the_protocol_witness:
  "\<exists>ls. read_file demo_host ''spec.md'' = Some (concat (map (\<lambda>l. l @ [0x0a]) ls)) \<and> spec_lines ls"
  using configuration_pins_the_protocol [OF demo_args_accepted] by (auto simp: demo_args_def)

text \<open>
  C38. The service is configured for mainnet only when mainnet is allowed and an authorization file with
  the configured digest names this protocol, this specification, two approvers whose names differ
  after trimming, and a time.
\<close>

theorem mainnet_needs_two_approvers:
  assumes "from_args X H args = Ok cfg" and "bnd_network (cfg_binding cfg) = Mainnet"
  shows "arg_allow_mainnet args \<and>
    (\<exists>path text content auth. arg_mainnet_authorization_file args = Some path \<and>
       arg_mainnet_authorization_sha256 args = Some text \<and>
       read_file H path = Some content \<and> hash32_from_hex X text = Ok (hash32_sha256 X content) \<and>
       authorization_from_slice H content = Some auth \<and>
       ma_schema auth = ''urn:tandem:mainnet-authorization'' \<and>
       ma_protocol_id auth = protocol_id X (cfg_binding cfg) \<and>
       ma_spec_hash auth = spec_hash (cfg_binding cfg) \<and>
       (\<exists>a1\<in>set (ma_approved_by auth). \<exists>a2\<in>set (ma_approved_by auth).
          trim a1 \<noteq> [] \<and> trim a2 \<noteq> [] \<and> trim a1 \<noteq> trim a2) \<and>
       trim (ma_approved_at auth) \<noteq> [])"
  by (rule from_args_Ok [OF assms(1)])
    (use assms(2) in \<open>auto simp: validate_mainnet_gate_def res_simps two_approvers; blast\<close>)

theorem mainnet_needs_two_approvers_witness:
  "arg_allow_mainnet demo_args \<and> authorization_from_slice demo_host [0x7b, 0x7d] = Some demo_authorization \<and>
   2 \<le> length (ma_approved_by demo_authorization)"
  using mainnet_needs_two_approvers [OF demo_args_accepted]
  by (simp add: mainnet_config_def demo_mainnet_def demo_args_def demo_host_def demo_authorization_def)

text \<open>
  C36. The release identity of an accepted configuration passes every check of the database: a block
  the reducer applied to the stored state is stored under it, when the database is reachable, the
  height fits a \<open>bigint\<close> and the block hash is new.
\<close>

theorem configured_service_stores_reduced_blocks:
  assumes "from_args X H args = Ok cfg" and "serde_laws D" and "store_ok X D bnd js s db"
    and "admissible X hs s b" and "apply_block X s b = (s', Ok d)" and "unat (bd_height d) < 2 ^ 63"
    and "\<forall>(b', d')\<in>set js. bd_block_hash d' \<noteq> bd_block_hash d"
  shows "\<exists>db'. store_apply_block D Reachable s' d (release_identity_of cfg) db = (db', Ok ()) \<and>
    store_ok X D bnd ((b, d) # js) s' db'"
  by (rule from_args_Ok [OF assms(1)], rule store_apply_block_succeeds [OF assms(2-6) _ _ assms(7)])
    (simp_all add: release_identity_of_def)

theorem configured_service_stores_reduced_blocks_witness:
  "\<exists>db'. store_apply_block demo_serde Reachable init_state (delta_of fresh_state init_block)
     (release_identity_of mainnet_config) fresh_db = (db', Ok ())"
  using configured_service_stores_reduced_blocks [OF demo_args_accepted demo_serde_laws fresh_db_ok fresh_admissible demo_apply]
  by (auto simp: init_delta_facts)

end
