(* ===== verification/Signer.thy ===== *)
theory Signer
  imports Store Rust_Text
begin

text \<open>
  The agreement tuple and its signature, \<open>crates/tandem-verifier/src/signer.rs\<close>. Ed25519
  (\<open>ed25519_dalek\<close>) and the JSON canonicalization (\<open>serde_jcs\<close>) are the fields of the parameter
  \<open>E\<close>; \<open>signing_laws\<close> is what their documentation promises: a signature verifies under the
  public key of the seed that made it, and the canonical form of a tuple of strings exists and
  determines the tuple. A signing key is its 32-byte seed.
\<close>

section \<open>The tuple\<close>

record agreement_tuple =
  at_schema :: string
  at_protocol_id :: string
  at_height :: string
  at_block_hash :: string
  at_event_root :: string
  at_object_state_root :: string
  at_chained_root :: string
  at_founding_created :: string
  at_all_objects :: string
  at_active_objects :: string
  at_parser_commit :: string
  at_indexer_commit :: string
  at_parser_binary_sha256 :: string
  at_indexer_binary_sha256 :: string

definition from_roots :: "externals \<Rightarrow> string \<Rightarrow> height_roots \<Rightarrow> release_identity \<Rightarrow> agreement_tuple" where
  "from_roots X pid roots release =
     \<lparr>at_schema = ''urn:tandem:agreement-tuple'',
      at_protocol_id = pid,
      at_height = to_string (hr_height roots),
      at_block_hash = display_hash X (hr_block_hash roots),
      at_event_root = hash32_to_hex X (hr_event_root roots),
      at_object_state_root = hash32_to_hex X (hr_object_state_root roots),
      at_chained_root = hash32_to_hex X (hr_chained_root roots),
      at_founding_created = to_string (founding_created (hr_counters roots)),
      at_all_objects = to_string (all_objects (hr_counters roots)),
      at_active_objects = to_string (active_objects (hr_counters roots)),
      at_parser_commit = parser_commit release,
      at_indexer_commit = indexer_commit release,
      at_parser_binary_sha256 = hash32_to_hex X (parser_binary_sha256 release),
      at_indexer_binary_sha256 = hash32_to_hex X (indexer_binary_sha256 release)\<rparr>"

section \<open>External crates\<close>

record signing =
  verifying_key :: "32 byte_array \<Rightarrow> 32 byte_array"
  ed25519_sign :: "32 byte_array \<Rightarrow> bytes \<Rightarrow> 64 byte_array"
  ed25519_verify :: "32 byte_array \<Rightarrow> bytes \<Rightarrow> 64 byte_array \<Rightarrow> bool"
  jcs_to_vec :: "agreement_tuple \<Rightarrow> bytes option"

definition signing_laws :: "signing \<Rightarrow> bool" where
  "signing_laws E \<longleftrightarrow>
     (\<forall>seed m. ed25519_verify E (verifying_key E seed) m (ed25519_sign E seed m)) \<and>
     (\<forall>t. jcs_to_vec E t \<noteq> None) \<and> inj (jcs_to_vec E)"

section \<open>The signer\<close>

datatype signer_error =
    KeyFileUnreadable | SeedLength | SeedNotHex | NotCanonicalizable
  | SignatureNotHex | SignatureLength | SignatureRejected

record agreement_envelope =
  ae_schema :: string
  ae_key_id :: string
  ae_tuple :: agreement_tuple
  ae_signature :: string

record agreement_signer =
  as_key_id :: string
  as_signing_key :: "32 byte_array"

definition canonical_bytes :: "signing \<Rightarrow> agreement_tuple \<Rightarrow> (signer_error, bytes) res" where
  "canonical_bytes E t = ok_or NotCanonicalizable (jcs_to_vec E t)"

text \<open>\<open>load\<close> from the contents of the key file, \<open>None\<close> if it cannot be read as text.\<close>

definition signer_load :: "externals \<Rightarrow> string option \<Rightarrow> string \<Rightarrow> (signer_error, agreement_signer) res" where
  "signer_load X contents key_id =
     res_bind (ok_or KeyFileUnreadable contents) (\<lambda>text.
     let trimmed = trim text in
     if length trimmed \<noteq> 64 then Err SeedLength
     else
       res_bind (ok_or SeedNotHex (hex_decode_to_slice X trimmed 32)) (\<lambda>seed.
       Ok \<lparr>as_key_id = key_id, as_signing_key = array_of seed\<rparr>))"

definition public_key_hex :: "externals \<Rightarrow> signing \<Rightarrow> agreement_signer \<Rightarrow> string" where
  "public_key_hex X E signer = hex_encode X (bytes_of (verifying_key E (as_signing_key signer)))"

definition sign :: "externals \<Rightarrow> signing \<Rightarrow> agreement_signer \<Rightarrow> agreement_tuple \<Rightarrow> (signer_error, agreement_envelope) res" where
  "sign X E signer t =
     res_bind (canonical_bytes E t) (\<lambda>bs.
     Ok \<lparr>ae_schema = ''urn:tandem:agreement-envelope'',
         ae_key_id = as_key_id signer,
         ae_tuple = t,
         ae_signature = hex_encode X (bytes_of (ed25519_sign E (as_signing_key signer) bs))\<rparr>)"

definition verify :: "externals \<Rightarrow> signing \<Rightarrow> agreement_envelope \<Rightarrow> 32 byte_array \<Rightarrow> (signer_error, unit) res" where
  "verify X E envelope public_key =
     res_bind (canonical_bytes E (ae_tuple envelope)) (\<lambda>bs.
     res_bind (ok_or SignatureNotHex (hex_decode X (ae_signature envelope))) (\<lambda>raw.
     res_bind (ok_or SignatureLength (array_try_from raw)) (\<lambda>signature.
     if ed25519_verify E public_key bs signature then Ok () else Err SignatureRejected)))"

section \<open>Signed tuples\<close>

lemma hex_encode_inject:
  assumes "hex_laws X"
  shows "hex_encode X a = hex_encode X b \<longleftrightarrow> a = b"
  using assms unfolding hex_laws_def by (metis option.inject)

lemma from_roots_inject:
  assumes "hex_laws X"
  shows "from_roots X pid roots release = from_roots X pid' roots' release' \<longleftrightarrow>
    pid = pid' \<and> roots = roots' \<and> release = release'"
proof -
  have c: "c = c' \<longleftrightarrow> founding_created c = founding_created c' \<and> all_objects c = all_objects c' \<and>
      active_objects c = active_objects c'" for c c' :: counters
    by (cases c; cases c') auto
  show ?thesis
    by (cases roots; cases roots'; cases release; cases release')
      (auto simp: from_roots_def display_hash_def hash32_to_hex_def hex_encode_inject [OF assms]
        c)
qed

lemma jcs_total:
  assumes "signing_laws E"
  obtains bs where "jcs_to_vec E t = Some bs"
  using assms unfolding signing_laws_def by (meson not_None_eq)

lemma sign_Ok:
  assumes "signing_laws E"
  obtains envelope where "sign X E signer t = Ok envelope" and "ae_tuple envelope = t"
    and "ae_key_id envelope = as_key_id signer"
proof -
  obtain bs where "jcs_to_vec E t = Some bs" by (rule jcs_total [OF assms])
  then show thesis by (intro that) (auto simp: sign_def canonical_bytes_def ok_or_def)
qed

lemma sign_tuple: "sign X E signer t = Ok envelope \<Longrightarrow> ae_tuple envelope = t \<and> ae_key_id envelope = as_key_id signer"
  by (auto simp: sign_def res_simps)

lemma sign_verifies:
  assumes "hex_laws X" and "signing_laws E" and "sign X E signer t = Ok envelope"
  shows "verify X E envelope (verifying_key E (as_signing_key signer)) = Ok ()"
proof -
  obtain bs where bs: "jcs_to_vec E t = Some bs" by (rule jcs_total [OF assms(2)])
  have a: "array_try_from (bytes_of a) = Some a" for a :: "64 byte_array"
    by (simp add: array_try_from_Some_iff)
  have "hex_decode X (hex_encode X raw) = Some raw" for raw using assms(1) by (simp add: hex_laws_def)
  moreover have "ed25519_verify E (verifying_key E seed) m (ed25519_sign E seed m)" for seed m
    using assms(2) by (simp add: signing_laws_def)
  ultimately show ?thesis
    using assms(3) bs by (auto simp: sign_def verify_def canonical_bytes_def ok_or_def a)
qed

end
