(* ===== verification/Api.thy ===== *)
theory Api
  imports Ingest Signer Config Json
begin

text \<open>
  The read-only HTTP handlers, \<open>crates/tandem-verifier/src/api.rs\<close>. A handler runs beside the
  worker and other writers, so each of its calls sees the world at its own moment: what the worker
  reports, the database and the answers of Bitcoin Core are functions of the number of the call.
  Routing, the parsing of path segments and the JSON text are \<open>axum\<close> and \<open>serde\<close>; a handler
  returns the value that is serialized, or the status of the error.
\<close>

section \<open>State and errors\<close>

record 'j api_env = block_source +
  env_health :: "nat \<Rightarrow> worker_health"
  env_db :: "nat \<Rightarrow> 'j database"
  env_outage :: "nat \<Rightarrow> outage"

datatype api_error = BadRequest | NotFound | Conflict | ServiceUnavailable | InternalError

fun status_code :: "api_error \<Rightarrow> nat" where
  "status_code BadRequest = 400"
| "status_code NotFound = 404"
| "status_code Conflict = 409"
| "status_code ServiceUnavailable = 503"
| "status_code InternalError = 500"

text \<open>Every other error is reported as an internal one (\<open>impl From<E> for ApiError\<close>).\<close>

abbreviation internal :: "('e, 'a) res \<Rightarrow> (api_error, 'a) res" where
  "internal \<equiv> map_err (\<lambda>_. InternalError)"

definition api_health :: json where
  "api_health = JObject [(''status'', JString ''alive'')]"

section \<open>Readiness\<close>

datatype readiness_failure =
    PostgresUnavailable | CoreGateFailed | CoreUnavailable | InitNotCanonical | InitFailed reason
  | StateUnavailable | CatchUpInProgress | PassFailed | TipBehindCore

record readiness =
  rd_ready :: bool
  rd_protocol_id :: string
  rd_tip_height :: "u64 option"
  rd_core :: "core_status option"
  rd_signer_key_id :: string
  rd_signer_public_key :: string
  rd_worker :: worker_health
  rd_failures :: "readiness_failure list"

fun status_failures :: "protocol_status \<Rightarrow> readiness_failure list" where
  "status_failures AwaitingInit = [InitNotCanonical]"
| "status_failures (FailedInit rsn h) = [InitFailed rsn]"
| "status_failures (ProtocolActive i open_at close_at) = []"

definition readiness_check ::
    "externals \<Rightarrow> 'j serde \<Rightarrow> signing \<Rightarrow> ('u, 's) config \<Rightarrow> agreement_signer \<Rightarrow> 'j api_env \<Rightarrow> nat \<Rightarrow> nat \<times> readiness" where
  "readiness_check X D E cfg signer env t =
     (let db_failures = (if env_outage env t = Reachable then [] else [PostgresUnavailable]);
          core = src_status env (Suc t);
          core_failures =
            (case core of
               Some status \<Rightarrow> if ready_for status (bnd_network (cfg_binding cfg)) then [] else [CoreGateFailed]
             | None \<Rightarrow> [CoreUnavailable]);
          stored =
            (case load_state D (env_outage env (t + 2)) (env_db env (t + 2)) of Ok s \<Rightarrow> Some s | _ \<Rightarrow> None);
          state_failures = (case stored of Some s \<Rightarrow> status_failures (protocol_status s) | None \<Rightarrow> [StateUnavailable]);
          worker = env_health env (t + 3);
          worker_failures = (if catching_up worker then [CatchUpInProgress] else []) @
            (if last_error worker \<noteq> None then [PassFailed] else []);
          tip_failures =
            (case (core, stored) of
               (Some status, Some s) \<Rightarrow> if tip_height s \<noteq> Some (blocks status) then [TipBehindCore] else []
             | _ \<Rightarrow> []);
          failures = db_failures @ core_failures @ state_failures @ worker_failures @ tip_failures;
          ready = (failures = [])
      in (if ready then 200 else 503,
          \<lparr>rd_ready = ready,
           rd_protocol_id = protocol_id X (cfg_binding cfg),
           rd_tip_height = (case stored of Some s \<Rightarrow> tip_height s | None \<Rightarrow> None),
           rd_core = core,
           rd_signer_key_id = cfg_signing_key_id cfg,
           rd_signer_public_key = public_key_hex X E signer,
           rd_worker = worker,
           rd_failures = failures\<rparr>))"

section \<open>Queries\<close>

definition parse_hash :: "externals \<Rightarrow> string \<Rightarrow> (api_error, hash32) res" where
  "parse_hash X text = map_err (\<lambda>_. BadRequest) (hash32_from_hex X text)"

definition api_object :: "externals \<Rightarrow> 'j api_env \<Rightarrow> string \<Rightarrow> nat \<Rightarrow> (api_error, 'j) res" where
  "api_object X env text t =
     res_bind (parse_hash X text) (\<lambda>key.
     res_bind (internal (object_query (env_outage env t) key (env_db env t))) (\<lambda>found.
     ok_or NotFound found))"

definition api_carrier :: "externals \<Rightarrow> 'j api_env \<Rightarrow> string \<Rightarrow> u32 \<Rightarrow> nat \<Rightarrow> (api_error, 'j) res" where
  "api_carrier X env text vout t =
     res_bind (map_err (\<lambda>_. BadRequest) (wire_hash X text)) (\<lambda>txid.
     res_bind (internal (carrier_query (env_outage env t) txid vout (env_db env t))) (\<lambda>found.
     ok_or NotFound found))"

definition api_events ::
    "externals \<Rightarrow> 'j api_env \<Rightarrow> u64 option \<Rightarrow> string option \<Rightarrow> nat \<Rightarrow> (api_error, 'j list) res" where
  "api_events X env height text t =
     res_bind (case text of None \<Rightarrow> Ok None | Some v \<Rightarrow> res_bind (parse_hash X v) (\<lambda>k. Ok (Some k))) (\<lambda>key.
     internal (events_query (env_outage env t) height key (env_db env t)))"

definition api_invalid_events :: "'j api_env \<Rightarrow> nat \<Rightarrow> (api_error, 'j list) res" where
  "api_invalid_events env t = internal (invalid_events_query (env_outage env t) (env_db env t))"

definition api_reorgs :: "'j api_env \<Rightarrow> nat \<Rightarrow> (api_error, reorg_record list) res" where
  "api_reorgs env t = internal (reorgs_query (env_outage env t) (env_db env t))"

definition api_stats :: "externals \<Rightarrow> 'j serde \<Rightarrow> 'j api_env \<Rightarrow> nat \<Rightarrow> (api_error, stats) res" where
  "api_stats X D env t = internal (stats_query X D (env_outage env) (env_db env) t)"

definition api_mempool ::
    "('j mempool_row list \<Rightarrow> 'j mempool_row list) \<Rightarrow> 'j api_env \<Rightarrow> nat \<Rightarrow> (api_error, 'j list) res" where
  "api_mempool order env t = internal (mempool_query (env_outage env t) order (env_db env t))"

section \<open>Agreement\<close>

fun is_active :: "protocol_status \<Rightarrow> bool" where
  "is_active (ProtocolActive i open_at close_at) = True"
| "is_active _ = False"

definition agreement ::
    "externals \<Rightarrow> 'j serde \<Rightarrow> signing \<Rightarrow> ('u, 's) config \<Rightarrow> agreement_signer \<Rightarrow> 'j api_env \<Rightarrow> u64 \<Rightarrow> nat
      \<Rightarrow> (api_error, agreement_envelope) res" where
  "agreement X D E cfg signer env height t =
     (let worker = env_health env t in
      if catching_up worker \<or> last_error worker \<noteq> None then Err ServiceUnavailable
      else
        res_bind (ok_or InternalError (src_status env (t + 1))) (\<lambda>core.
        if \<not> ready_for core (bnd_network (cfg_binding cfg)) then Err ServiceUnavailable
        else
          res_bind (internal (load_state D (env_outage env (t + 2)) (env_db env (t + 2)))) (\<lambda>s.
          if \<not> is_active (protocol_status s) \<or> tip_height s \<noteq> Some (blocks core) \<or> blocks core < height
          then Err ServiceUnavailable
          else
            res_bind (internal (roots_at (env_outage env (t + 3)) height (env_db env (t + 3)))) (\<lambda>found.
            res_bind (ok_or NotFound found) (\<lambda>persisted.
            res_bind (ok_or InternalError (src_block_hash env (t + 4) height)) (\<lambda>canonical.
            if canonical \<noteq> hr_block_hash (ph_roots persisted) then Err Conflict
            else
              internal (sign X E signer
                (from_roots X (protocol_id X (cfg_binding cfg)) (ph_roots persisted) (ph_release persisted)))))))))"

section \<open>The router\<close>

text \<open>
  The routes with their typed parameters, as the extractors of \<open>axum\<close> deliver them. A response is
  its status and the value that is serialized; a handler that panics gives none.
\<close>

datatype request =
    Healthz | Readyz | ObjectOf string | CarrierAt string u32 | Events "u64 option" "string option"
  | InvalidEvents | Reorgs | Stats | Mempool | AgreementAt u64

datatype 'j body =
    AliveBody json | ReadinessBody readiness | ValueBody 'j | ValuesBody "'j list"
  | ReorgsBody "reorg_record list" | StatsBody stats | EnvelopeBody agreement_envelope | ErrorBody api_error

fun into_response :: "('a \<Rightarrow> 'j body) \<Rightarrow> (api_error, 'a) res \<Rightarrow> (nat \<times> 'j body) option" where
  "into_response wrap (Ok x) = Some (200, wrap x)"
| "into_response wrap (Err e) = Some (status_code e, ErrorBody e)"
| "into_response wrap Panic = None"

record ('j, 'u, 's) api_state =
  ap_config :: "('u, 's) config"
  ap_signer :: agreement_signer
  ap_env :: "'j api_env"

fun router ::
    "externals \<Rightarrow> 'j serde \<Rightarrow> signing \<Rightarrow> ('j mempool_row list \<Rightarrow> 'j mempool_row list) \<Rightarrow> ('j, 'u, 's) api_state
      \<Rightarrow> request \<Rightarrow> nat \<Rightarrow> (nat \<times> 'j body) option" where
  "router X D E order st Healthz t = Some (200, AliveBody api_health)"
| "router X D E order st Readyz t =
     (let (status, body) = readiness_check X D E (ap_config st) (ap_signer st) (ap_env st) t
      in Some (status, ReadinessBody body))"
| "router X D E order st (ObjectOf key) t = into_response ValueBody (api_object X (ap_env st) key t)"
| "router X D E order st (CarrierAt txid vout) t = into_response ValueBody (api_carrier X (ap_env st) txid vout t)"
| "router X D E order st (Events height key) t = into_response ValuesBody (api_events X (ap_env st) height key t)"
| "router X D E order st InvalidEvents t = into_response ValuesBody (api_invalid_events (ap_env st) t)"
| "router X D E order st Reorgs t = into_response ReorgsBody (api_reorgs (ap_env st) t)"
| "router X D E order st Stats t = into_response StatsBody (api_stats X D (ap_env st) t)"
| "router X D E order st Mempool t = into_response ValuesBody (api_mempool order (ap_env st) t)"
| "router X D E order st (AgreementAt height) t =
     into_response EnvelopeBody (agreement X D E (ap_config st) (ap_signer st) (ap_env st) height t)"

end
