(* ===== verification/Agreement.thy ===== *)
theory Agreement
  imports Api Ingest_Progress
begin

text \<open>
  What a signed agreement says. \<open>agreement_iff\<close> inverts the handler; \<open>roots_at_entry\<close> reads the
  root query against the journal; \<open>journals_agree\<close> shows that two journals of one deployment that
  contain a block with the same hash computed the same roots for it, when block hashes identify
  blocks and the configured INIT is in one block. So the tuples of two verifiers for the same block
  differ at most in the releases they name.
\<close>

section \<open>The handler\<close>

lemma load_state_Ok_iff:
  assumes "serde_laws D" and "store_ok X D bnd js s db"
  shows "load_state D f db = Ok s' \<longleftrightarrow> f = Reachable \<and> s' = s"
  using store_okD(1) [OF assms(2)] assms(1)
  by (auto simp: load_state_def load_state_for_update_def stored_state_def ok_or_def res_simps)

lemma agreement_iff:
  "agreement X D E cfg signer env height t = Ok envelope \<longleftrightarrow>
     \<not> catching_up (env_health env t) \<and> last_error (env_health env t) = None \<and>
     (\<exists>core s persisted.
        src_status env (t + 1) = Some core \<and> ready_for core (bnd_network (cfg_binding cfg)) \<and>
        load_state D (env_outage env (t + 2)) (env_db env (t + 2)) = Ok s \<and> is_active (protocol_status s) \<and>
        tip_height s = Some (blocks core) \<and> height \<le> blocks core \<and>
        roots_at (env_outage env (t + 3)) height (env_db env (t + 3)) = Ok (Some persisted) \<and>
        src_block_hash env (t + 4) height = Some (hr_block_hash (ph_roots persisted)) \<and>
        sign X E signer (from_roots X (protocol_id X (cfg_binding cfg)) (ph_roots persisted) (ph_release persisted))
          = Ok envelope)"
proof -
  have [simp]: "ok_or e x = Ok v \<longleftrightarrow> x = Some v" for e :: api_error and x :: "'z option" and v
    by (auto simp: ok_or_def split: option.splits)
  have [simp]: "internal r = Ok v \<longleftrightarrow> r = Ok v" for r :: "('e, 'z) res" and v by (cases r) auto
  have cond: "(if c then Err (e :: api_error) else r) = Ok v \<longleftrightarrow> \<not> c \<and> r = Ok v" for c e r and v :: 'z by simp
  show ?thesis
    unfolding agreement_def Let_def by (auto simp: res_simps not_less)
qed

section \<open>Roots in the journal\<close>

lemma roots_at_entry:
  assumes "serde_laws D" and "store_ok X D bnd js s db" and "roots_at f h db = Ok (Some p)"
  shows "\<exists>b d. (b, d) \<in> set js \<and> bd_height d = h \<and> ph_roots p = bd_roots d"
proof -
  obtain r where f: "f = Reachable" and r: "find (\<lambda>r. br_height r = uint h) (canonical_blocks db) = Some r"
    using assms(3) by (auto simp: roots_at_def res_simps to_i64_iffs split: if_splits option.splits)
  have q: "r \<in> set (canonical_blocks db)" "br_height r = uint h" using r by (auto simp: find_Some_iff)
  obtain b d where d: "(b, d) \<in> set js" "stored_block D d r"
    using list_all2_in_set2 [OF store_okD(3) [OF assms(2)] q(1)] by force
  then have "bd_height d = h" using q(2) stored_block_facts(1) [OF d(2) assms(1)] by (simp add: word_uint_eq_iff)
  then show ?thesis
    using roots_at_stored [OF assms(1,2) d(1)] assms(3) f d(1) by (intro exI [of _ b] exI [of _ d]) auto
qed

lemma apply_block_roots_head:
  assumes "apply_block X t b = (t', Ok d)"
  shows "hr_height (bd_roots d) = bd_height d" and "hr_block_hash (bd_roots d) = bd_block_hash d"
  using apply_block_roots [OF assms] by auto

text \<open>What a signed envelope states, in terms of the journal.\<close>

lemma agreement_entry:
  assumes "serde_laws D" and "hex_laws X" and "signing_laws E" and "store_ok X D bnd js s (env_db env (t + 3))"
    and "agreement X D E cfg signer env height t = Ok envelope"
  shows "\<exists>b d release. (b, d) \<in> set js \<and> bd_height d = height \<and>
    src_block_hash env (t + 4) height = Some (bd_block_hash d) \<and>
    ae_tuple envelope = from_roots X (protocol_id X (cfg_binding cfg)) (bd_roots d) release \<and>
    ae_key_id envelope = as_key_id signer \<and>
    verify X E envelope (verifying_key E (as_signing_key signer)) = Ok ()"
proof -
  obtain p where p: "roots_at (env_outage env (t + 3)) height (env_db env (t + 3)) = Ok (Some p)"
      "src_block_hash env (t + 4) height = Some (hr_block_hash (ph_roots p))"
      "sign X E signer (from_roots X (protocol_id X (cfg_binding cfg)) (ph_roots p) (ph_release p)) = Ok envelope"
    using assms(5) unfolding agreement_iff by blast
  obtain b d where d: "(b, d) \<in> set js" "bd_height d = height" "ph_roots p = bd_roots d"
    using roots_at_entry [OF assms(1,4) p(1)] by blast
  have "hr_block_hash (bd_roots d) = bd_block_hash d"
    using journal_entry [OF store_okD(2) [OF assms(4)] d(1)] apply_block_roots_head(2) by blast
  then show ?thesis
    using d p(2) sign_tuple [OF p(3)] sign_verifies [OF assms(2,3) p(3)] by metis
qed

lemma agreement_signs:
  assumes "serde_laws D" and "signing_laws E" and "store_ok X D bnd js2 s2 (env_db env (t + 2))"
    and "store_ok X D bnd js3 s3 (env_db env (t + 3))"
    and "\<not> catching_up (env_health env t)" and "last_error (env_health env t) = None"
    and "env_outage env (t + 2) = Reachable" and "env_outage env (t + 3) = Reachable"
    and "src_status env (t + 1) = Some core" and "ready_for core (bnd_network (cfg_binding cfg))"
    and "is_active (protocol_status s2)" and "tip_height s2 = Some (blocks core)" and "height \<le> blocks core"
    and "(b, d) \<in> set js3" and "bd_height d = height" and "src_block_hash env (t + 4) height = Some (bd_block_hash d)"
  shows "\<exists>envelope release. agreement X D E cfg signer env height t = Ok envelope \<and>
    ae_tuple envelope = from_roots X (protocol_id X (cfg_binding cfg)) (bd_roots d) release"
proof -
  obtain release where roots: "roots_at Reachable height (env_db env (t + 3)) =
      Ok (Some \<lparr>ph_roots = bd_roots d, ph_release = release\<rparr>)"
    using roots_at_stored [OF assms(1,4,14)] assms(15) by blast
  have "hr_block_hash (bd_roots d) = bd_block_hash d"
    using journal_entry [OF store_okD(2) [OF assms(4)] assms(14)] apply_block_roots_head(2) by blast
  moreover obtain envelope where
    "sign X E signer (from_roots X (protocol_id X (cfg_binding cfg)) (bd_roots d) release) = Ok envelope"
    and t: "ae_tuple envelope = from_roots X (protocol_id X (cfg_binding cfg)) (bd_roots d) release"
    by (rule sign_Ok [OF assms(2)])
  moreover have "load_state D (env_outage env (t + 2)) (env_db env (t + 2)) = Ok s2"
    using load_state_Ok_iff [OF assms(1,3)] assms(7) by simp
  ultimately have "agreement X D E cfg signer env height t = Ok envelope"
    unfolding agreement_iff using assms(5-13,16) roots by auto
  then show ?thesis using t by blast
qed

section \<open>Two journals of one deployment\<close>

definition has_init :: "binding \<Rightarrow> block_view \<Rightarrow> bool" where
  "has_init bnd b \<longleftrightarrow> init_txid bnd \<in> set (map tx_txid (transactions b))"

text \<open>Block hashes identify blocks, and the configured INIT is confirmed at most once.\<close>

definition identified :: "binding \<Rightarrow> block_view set \<Rightarrow> bool" where
  "identified bnd B \<longleftrightarrow>
     (\<forall>x\<in>B. \<forall>y\<in>B. bv_hash x = bv_hash y \<or> has_init bnd x \<and> has_init bnd y \<longrightarrow> x = y)"

lemma identified_subset: "identified bnd B \<Longrightarrow> A \<subseteq> B \<Longrightarrow> identified bnd A"
  by (auto simp: identified_def)

lemma identified_hash: "identified bnd B \<Longrightarrow> bv_hash x = bv_hash y \<Longrightarrow> x \<in> B \<Longrightarrow> y \<in> B \<Longrightarrow> x = y"
  by (auto simp: identified_def)

lemma identified_init: "identified bnd B \<Longrightarrow> has_init bnd x \<Longrightarrow> has_init bnd y \<Longrightarrow> x \<in> B \<Longrightarrow> y \<in> B \<Longrightarrow> x = y"
  by (auto simp: identified_def)

lemma first_block_has_init:
  assumes "chain_journal X bnd [(b, d)] s"
  shows "has_init bnd b"
proof -
  let ?s = "chain_state_new X bnd"
  have "apply_block X ?s b = (s, Ok d)" using assms by (simp add: connect_block_iff)
  then obtain s1 where "block_events X ?s b = (s1, Ok (bd_events d))" by (rule apply_block_Ok)
  moreover have "protocol_status ?s = AwaitingInit" by (simp add: chain_state_new_def)
  ultimately obtain n tx where
    "find (\<lambda>(_, tx). tx_txid tx = init_txid bnd) (enumerate_from 0 (transactions b)) = Some (n, tx)"
    by (auto simp: block_events_def split: option.splits)
  moreover from this have "tx_txid tx = init_txid bnd" by (auto simp: find_Some_iff)
  ultimately show ?thesis
    using find_enumerate [of "\<lambda>(_, tx). tx_txid tx = init_txid bnd" "transactions b" n tx]
    by (auto simp: has_init_def intro!: image_eqI [of _ _ tx])
qed

lemma journal_has_init:
  "chain_journal X bnd js s \<Longrightarrow> js \<noteq> [] \<Longrightarrow> \<exists>(b, d)\<in>set js. has_init bnd b"
proof (induction js arbitrary: s)
  case (Cons j js)
  obtain b d where j: "j = (b, d)" by (cases j)
  show ?case
  proof (cases js)
    case Nil
    then show ?thesis using first_block_has_init [of X bnd b d s] Cons.prems(1) j by auto
  next
    case (Cons j' js')
    with Cons.IH [of "bd_before d"] Cons.prems(1) j show ?thesis
      by (auto simp: chain_journal_Cons simp del: journal_of.simps)
  qed
qed simp

lemma journal_heights_below:
  assumes "chain_journal X bnd js s" and "tip_height s = Some h" and "(b, d) \<in> set js"
  shows "unat (bd_height d) \<le> unat h"
  using assms
proof (induction js arbitrary: s h)
  case (Cons j js)
  obtain b' d' where j: "j = (b', d')" by (cases j)
  then have t: "chain_journal X bnd js (bd_before d')" "apply_block X (bd_before d') b' = (s, Ok d')"
    using Cons.prems(1) by (auto simp: chain_journal_Cons simp del: journal_of.simps)
  then have h: "bd_height d' = h" using apply_block_tip(1) [OF t(2)] Cons.prems(2) by simp
  show ?case
  proof (cases "(b, d) \<in> set js")
    case True
    then obtain h' where h': "tip_height (bd_before d') = Some h'"
      using chain_journal_tip(1) [OF t(1)] by (cases js) auto
    then show ?thesis using Cons.IH [OF t(1) h' True] apply_block_tip(4) [OF t(2) h'] h by simp
  qed (use Cons.prems(3) j h in auto)
qed simp

lemma journal_suffix: "chain_journal X bnd (pre @ js) s \<Longrightarrow> \<exists>s'. chain_journal X bnd js s'"
  by (induction pre arbitrary: s) (auto simp: chain_journal_Cons simp del: journal_of.simps)

lemma journal_Cons_facts:
  assumes "chain_journal X bnd ((b, d) # js) s"
  shows "chain_journal X bnd js (bd_before d)" and "apply_block X (bd_before d) b = (s, Ok d)"
    and "bd_height d = bv_height b" and "bd_block_hash d = bv_hash b"
proof -
  show t: "chain_journal X bnd js (bd_before d)" "apply_block X (bd_before d) b = (s, Ok d)"
    using assms by (auto simp: chain_journal_Cons simp del: journal_of.simps)
  show "bd_height d = bv_height b" "bd_block_hash d = bv_hash b" by (rule apply_block_Ok [OF t(2)], simp)+
qed

lemma journal_link:
  assumes "chain_journal X bnd ((b, d) # (b1, d1) # js) s"
  shows "bv_previous_hash b = bv_hash b1"
proof -
  note j = journal_Cons_facts [OF assms]
  have "validate_linkage (bd_before d) b = Ok ()" by (rule apply_block_Ok [OF j(2)])
  moreover have "tip_hash (bd_before d) = Some (bv_hash b1)" "tip_height (bd_before d) = Some (bd_height d1)"
    using chain_journal_tip [OF j(1)] journal_Cons_facts(4) [OF j(1)] by simp_all
  ultimately show ?thesis by (auto simp: validate_linkage_def res_simps split: if_splits)
qed

text \<open>The block a journal starts with is nowhere later in another journal.\<close>

lemma first_block_is_first:
  assumes "chain_journal X bnd [(b, d)] s" and "chain_journal X bnd ((b, d') # js) s'"
    and "identified bnd (insert b (fst ` set js))"
  shows "js = []"
proof (rule ccontr)
  assume "js \<noteq> []"
  note j = journal_Cons_facts [OF assms(2)]
  obtain b0 d0 where b0: "(b0, d0) \<in> set js" "has_init bnd b0"
    using journal_has_init [OF j(1) \<open>js \<noteq> []\<close>] by auto
  from identified_init [OF assms(3) b0(2) first_block_has_init [OF assms(1)]] have "b0 = b"
    using b0(1) by force
  moreover obtain h where h: "tip_height (bd_before d') = Some h"
    using chain_journal_tip(1) [OF j(1)] \<open>js \<noteq> []\<close> by (cases js) auto
  moreover have "bd_height d0 = bv_height b0"
    using journal_entry [OF j(1) b0(1)] by (auto elim: apply_block_Ok)
  ultimately show False
    using journal_heights_below [OF j(1) h b0(1)] apply_block_tip(4) [OF j(2) h] j(3) by simp
qed

lemma tops_agree:
  assumes "chain_journal X bnd ((b, d) # js) s" and "chain_journal X bnd ((b', d') # js') s'"
    and "bv_hash b = bv_hash b'"
    and "identified bnd (fst ` set ((b, d) # js) \<union> fst ` set ((b', d') # js'))"
  shows "b = b' \<and> d = d' \<and> s = s'"
  using assms
proof (induction js arbitrary: b d s b' d' js' s')
  case Nil
  have b: "b = b'" by (rule identified_hash [OF Nil.prems(4,3)]) simp_all
  have "identified bnd (insert b (fst ` set js'))" by (rule identified_subset [OF Nil.prems(4)]) auto
  from first_block_is_first [OF Nil.prems(1) Nil.prems(2) [folded b] this] have "js' = []" .
  then show ?case using Nil.prems(1,2) b by (auto simp: connect_block_iff)
next
  case (Cons j js)
  obtain b1 d1 where j: "j = (b1, d1)" by (cases j)
  have b: "b = b'" by (rule identified_hash [OF Cons.prems(4,3)]) simp_all
  note l = journal_Cons_facts [OF Cons.prems(1)] and r = journal_Cons_facts [OF Cons.prems(2)]
  have "js' \<noteq> []"
  proof
    assume "js' = []"
    have "identified bnd (insert b' (fst ` set (j # js)))" by (rule identified_subset [OF Cons.prems(4)]) auto
    from first_block_is_first [OF Cons.prems(2) [unfolded \<open>js' = []\<close>] Cons.prems(1) [unfolded b] this]
    show False by simp
  qed
  then obtain b1' d1' js1' where js': "js' = (b1', d1') # js1'" by (cases js') auto
  have "bv_hash b1 = bv_hash b1'"
    using journal_link [OF Cons.prems(1) [unfolded j]] journal_link [OF Cons.prems(2) [unfolded js']] b by simp
  moreover have "identified bnd (fst ` set ((b1, d1) # js) \<union> fst ` set ((b1', d1') # js1'))"
    by (rule identified_subset [OF Cons.prems(4)]) (auto simp: j js')
  ultimately have same: "bd_before d = bd_before d'"
    using Cons.IH [OF l(1) [unfolded j] r(1) [unfolded js']] by simp
  have "(s, Ok d :: (reducer_error, block_delta) res) = (s', Ok d')"
    by (rule trans [OF l(2) [symmetric] r(2) [folded same b]])
  then show ?case using b by (simp only: prod.inject res.inject simp_thms)
qed

lemma journals_agree:
  assumes "chain_journal X bnd js s" and "chain_journal X bnd js' s'"
    and "(b, d) \<in> set js" and "(b', d') \<in> set js'" and "bd_block_hash d = bd_block_hash d'"
    and "identified bnd (fst ` set js \<union> fst ` set js')"
  shows "d = d'"
proof -
  obtain pre post pre' post' where js: "js = pre @ (b, d) # post" "js' = pre' @ (b', d') # post'"
    using assms(3,4) by (meson split_list)
  obtain t t' where t: "chain_journal X bnd ((b, d) # post) t" "chain_journal X bnd ((b', d') # post') t'"
    using journal_suffix assms(1,2) js by metis
  have "bv_hash b = bv_hash b'" using journal_Cons_facts(4) [OF t(1)] journal_Cons_facts(4) [OF t(2)] assms(5) by simp
  moreover have "identified bnd (fst ` set ((b, d) # post) \<union> fst ` set ((b', d') # post'))"
    by (rule identified_subset [OF assms(6)]) (auto simp: js)
  ultimately show ?thesis using tops_agree [OF t] by simp
qed

end
