(* ===== verification/Api_Properties.thy ===== *)
theory Api_Properties
  imports Config_Properties Agreement "HOL-Library.Multiset"
begin

text \<open>
  Properties of the HTTP handlers: when the service signs, what it signs, and that two services
  that sign the same block sign the same roots. The concrete signer below keeps the tuple readable
  in its canonical form, so that the laws of the external crates can be checked on it.
\<close>

section \<open>A concrete signer\<close>

fun demo_field :: "string \<Rightarrow> bytes" where
  "demo_field [] = [0]"
| "demo_field (c # cs) = 1 # u8_of_char c # demo_field cs"

definition demo_jcs :: "agreement_tuple \<Rightarrow> bytes" where
  "demo_jcs t = concat (map demo_field
     [at_schema t, at_protocol_id t, at_height t, at_block_hash t, at_event_root t, at_object_state_root t,
      at_chained_root t, at_founding_created t, at_all_objects t, at_active_objects t, at_parser_commit t,
      at_indexer_commit t, at_parser_binary_sha256 t, at_indexer_binary_sha256 t])"

definition demo_signing :: signing where
  "demo_signing =
     \<lparr>verifying_key = (\<lambda>seed. seed),
      ed25519_sign = (\<lambda>seed m. array_of (bytes_of seed @ bytes_of (sha256_digest demo_externals m))),
      ed25519_verify = (\<lambda>key m s. s = array_of (bytes_of key @ bytes_of (sha256_digest demo_externals m))),
      jcs_to_vec = (\<lambda>t. Some (demo_jcs t))\<rparr>"

lemma u8_of_char_inject [simp]: "u8_of_char c = u8_of_char c' \<longleftrightarrow> c = c'"
proof -
  have "unat (u8_of_char c) = of_char c" for c
    by (simp add: u8_of_char_def unat_of_nat)
  then show ?thesis by (metis of_char_eq_iff)
qed

lemma demo_field_inject: "demo_field a @ x = demo_field b @ y \<longleftrightarrow> a = b \<and> x = y"
proof (induction a arbitrary: b)
  case Nil
  show ?case by (cases b) auto
next
  case (Cons c cs)
  show ?case using Cons.IH by (cases b) auto
qed

lemma demo_signing_laws: "signing_laws demo_signing"
proof -
  have "demo_jcs t = demo_jcs t' \<Longrightarrow> t = t'" for t t' :: agreement_tuple
    using demo_field_inject [of _ "[]" _ "[]"]
    by (cases t; cases t') (simp add: demo_jcs_def demo_field_inject)
  then show ?thesis by (auto simp: signing_laws_def demo_signing_def inj_def)
qed

definition demo_signer :: agreement_signer where
  "demo_signer = \<lparr>as_key_id = ''demo'', as_signing_key = demo_hash 7\<rparr>"

definition demo_config :: "(string, string) config" where
  "demo_config = mainnet_config\<lparr>cfg_binding := demo_binding, cfg_signing_key_id := ''demo''\<rparr>"

text \<open>The service after the pass that applied the INIT block.\<close>

definition demo_env :: "demo_value api_env" where
  "demo_env =
     \<lparr>src_status = src_status demo_world, src_best_height = src_best_height demo_world,
      src_block_hash = src_block_hash demo_world, src_block = src_block demo_world,
      src_transaction_height = src_transaction_height demo_world, src_mempool = src_mempool demo_world,
      env_health = (\<lambda>_. \<lparr>last_successful_height = Some 100, last_error = None, catching_up = False\<rparr>),
      env_db = (\<lambda>_. init_db),
      env_outage = (\<lambda>_. Reachable)\<rparr>"

lemma demo_env_facts:
  "src_status demo_env t = Some \<lparr>chain_label = ''regtest'', blocks = 100, headers = 100,
     initial_block_download = False, txindex_synced = True\<rparr>"
  "src_block_hash demo_env t 100 = Some (bv_hash init_block)" "env_db demo_env t = init_db"
  "env_outage demo_env t = Reachable" "catching_up (env_health demo_env t) = False"
  "last_error (env_health demo_env t) = None" "cfg_binding demo_config = demo_binding"
  by (simp_all add: demo_env_def demo_world_def demo_chain_def demo_config_def)

lemma init_active: "is_active (protocol_status init_state)"
  by code_simp

text \<open>A second service of the same deployment, with another release and another key.\<close>

definition rival_release :: release_identity where
  "rival_release = demo_release\<lparr>parser_commit := replicate 40 CHR ''c''\<rparr>"

definition rival_db :: "demo_value database" where
  "rival_db = fst (store_apply_block demo_serde Reachable init_state (delta_of fresh_state init_block) rival_release fresh_db)"

definition rival_env :: "demo_value api_env" where
  "rival_env = demo_env\<lparr>env_db := (\<lambda>_. rival_db)\<rparr>"

definition rival_signer :: agreement_signer where
  "rival_signer = \<lparr>as_key_id = ''rival'', as_signing_key = demo_hash 8\<rparr>"

lemma rival_release_commits: "commit_text (parser_commit rival_release)" "commit_text (indexer_commit rival_release)"
  by code_simp+

lemma rival_db_ok: "demo_store_ok [init_entry] init_state rival_db"
  using store_apply_block_succeeds [OF demo_serde_laws fresh_db_ok fresh_admissible demo_apply _ rival_release_commits]
  by (auto simp: rival_db_def init_delta_facts)

lemma init_entry_hash: "bd_block_hash (delta_of fresh_state init_block) = bv_hash init_block"
  by (rule apply_block_Ok [OF demo_apply])

lemma init_entry_roots:
  "hr_block_hash (bd_roots (delta_of fresh_state init_block)) = bv_hash init_block"
  using apply_block_roots_head(2) [OF demo_apply] init_entry_hash by simp

text \<open>Both sign the INIT block.\<close>

lemma demo_agrees:
  assumes "demo_store_ok [init_entry] init_state db" and "cfg_binding cfg = demo_binding"
  shows "\<exists>envelope. agreement demo_externals demo_serde demo_signing cfg signer
    (demo_env\<lparr>env_db := (\<lambda>_. db)\<rparr>) 100 0 = Ok envelope"
proof -
  obtain release where "roots_at Reachable 100 db =
      Ok (Some \<lparr>ph_roots = bd_roots (delta_of fresh_state init_block), ph_release = release\<rparr>)"
    using roots_at_stored [OF demo_serde_laws assms(1), of init_block] by (auto simp: init_delta_facts)
  moreover have "load_state demo_serde Reachable db = Ok init_state"
    using load_state_Ok_iff [OF demo_serde_laws assms(1)] by simp
  moreover obtain envelope where "sign demo_externals demo_signing signer
      (from_roots demo_externals (protocol_id demo_externals demo_binding)
        (bd_roots (delta_of fresh_state init_block)) release) = Ok envelope"
    by (rule sign_Ok [OF demo_signing_laws])
  ultimately show ?thesis
    unfolding agreement_iff using init_active
    by (auto simp: assms(2) demo_env_def demo_world_def demo_chain_def demo_config_def demo_tips ready_for_def init_entry_roots)
qed

section \<open>Signing\<close>

text \<open>
  C34. The service signs a height exactly when the worker is idle without an error, Core is ready on
  the configured network, the stored protocol is active with a tip at Core's height, and the
  stored chain has a block at the requested height whose hash is the one Core reports. Each
  condition is read at its own moment, while other writers go on.
\<close>

theorem agreement_is_signed_iff:
  assumes "serde_laws D" and "signing_laws E" and "store_ok X D bnd js2 s2 (env_db env (t + 2))"
    and "store_ok X D bnd js3 s3 (env_db env (t + 3))"
  shows "(\<exists>envelope. agreement X D E cfg signer env height t = Ok envelope) \<longleftrightarrow>
    \<not> catching_up (env_health env t) \<and> last_error (env_health env t) = None \<and>
    env_outage env (t + 2) = Reachable \<and> env_outage env (t + 3) = Reachable \<and>
    (\<exists>core. src_status env (t + 1) = Some core \<and> ready_for core (bnd_network (cfg_binding cfg)) \<and>
       is_active (protocol_status s2) \<and> tip_height s2 = Some (blocks core) \<and> height \<le> blocks core) \<and>
    (\<exists>(b, d)\<in>set js3. bd_height d = height \<and> src_block_hash env (t + 4) height = Some (bd_block_hash d))"
    (is "?l \<longleftrightarrow> ?r")
proof
  assume ?l
  then obtain envelope core s p where *: "\<not> catching_up (env_health env t)" "last_error (env_health env t) = None"
      "src_status env (t + 1) = Some core" "ready_for core (bnd_network (cfg_binding cfg))"
      "load_state D (env_outage env (t + 2)) (env_db env (t + 2)) = Ok s" "is_active (protocol_status s)"
      "tip_height s = Some (blocks core)" "height \<le> blocks core"
      "roots_at (env_outage env (t + 3)) height (env_db env (t + 3)) = Ok (Some p)"
      "src_block_hash env (t + 4) height = Some (hr_block_hash (ph_roots p))"
    unfolding agreement_iff by blast
  have "env_outage env (t + 3) = Reachable" using *(9) by (auto simp: roots_at_def res_simps split: if_splits)
  moreover obtain b d where "(b, d) \<in> set js3" "bd_height d = height" "ph_roots p = bd_roots d"
    using roots_at_entry [OF assms(1,4) *(9)] by blast
  moreover from this(1) have "hr_block_hash (bd_roots d) = bd_block_hash d"
    using journal_entry [OF store_okD(2) [OF assms(4)]] apply_block_roots_head(2) by blast
  ultimately show ?r using * load_state_Ok_iff [OF assms(1,3)] by auto
next
  assume r: ?r
  then obtain b d where "(b, d) \<in> set js3" "bd_height d = height" "src_block_hash env (t + 4) height = Some (bd_block_hash d)"
    by blast
  then show ?l using r agreement_signs [OF assms, where cfg = cfg and height = height and signer = signer] by blast
qed

theorem agreement_is_signed_iff_witness:
  "\<exists>envelope. agreement demo_externals demo_serde demo_signing demo_config demo_signer demo_env 100 0 = Ok envelope"
proof -
  have ok: "demo_store_ok [init_entry] init_state (env_db demo_env (0 + k))" for k
    using init_db_ok by (simp add: demo_env_facts)
  show ?thesis
    unfolding agreement_is_signed_iff [OF demo_serde_laws demo_signing_laws ok ok]
    using init_active by (simp add: demo_env_facts demo_tips init_delta_facts init_entry_hash ready_for_def)
qed

text \<open>
  C5. Two services of one deployment that sign the same block hash sign the same roots and counters,
  whatever their stores went through before: their tuples differ at most in the releases they name.
  Block hashes identify the blocks of the two chains, and the configured INIT is in one block.
\<close>

theorem verifiers_agree:
  assumes "serde_laws D" and "serde_laws D'" and "hex_laws X"
    and "store_ok X D bnd js s (env_db env (t + 3))" and "store_ok X D' bnd js' s' (env_db env' (t' + 3))"
    and "cfg_binding cfg = bnd" and "cfg_binding cfg' = bnd"
    and "agreement X D E cfg signer env height t = Ok a" and "agreement X D' E' cfg' signer' env' height' t' = Ok a'"
    and "at_block_hash (ae_tuple a) = at_block_hash (ae_tuple a')"
    and "identified bnd (fst ` set js \<union> fst ` set js')"
  shows "\<exists>roots release release'.
    ae_tuple a = from_roots X (protocol_id X bnd) roots release \<and>
    ae_tuple a' = from_roots X (protocol_id X bnd) roots release'"
proof -
  obtain p where p: "roots_at (env_outage env (t + 3)) height (env_db env (t + 3)) = Ok (Some p)"
      "sign X E signer (from_roots X (protocol_id X bnd) (ph_roots p) (ph_release p)) = Ok a"
    using assms(8) unfolding agreement_iff assms(6) by blast
  obtain p' where p': "roots_at (env_outage env' (t' + 3)) height' (env_db env' (t' + 3)) = Ok (Some p')"
      "sign X E' signer' (from_roots X (protocol_id X bnd) (ph_roots p') (ph_release p')) = Ok a'"
    using assms(9) unfolding agreement_iff assms(7) by blast
  obtain b d b' d' where d: "(b, d) \<in> set js" "ph_roots p = bd_roots d" and d': "(b', d') \<in> set js'" "ph_roots p' = bd_roots d'"
    using roots_at_entry [OF assms(1,4) p(1)] roots_at_entry [OF assms(2,5) p'(1)] by blast
  have "hr_block_hash (ph_roots p) = hr_block_hash (ph_roots p')"
    using assms(10) sign_tuple [OF p(2)] sign_tuple [OF p'(2)]
    by (simp add: from_roots_def display_hash_def hex_encode_inject [OF assms(3)])
  moreover have "hr_block_hash (bd_roots d) = bd_block_hash d" "hr_block_hash (bd_roots d') = bd_block_hash d'"
    using journal_entry [OF store_okD(2) [OF assms(4)] d(1)] journal_entry [OF store_okD(2) [OF assms(5)] d'(1)]
      apply_block_roots_head(2) by blast+
  ultimately have "d = d'"
    using journals_agree [OF store_okD(2) [OF assms(4)] store_okD(2) [OF assms(5)] d(1) d'(1) _ assms(11)] d(2) d'(2)
    by simp
  then show ?thesis using sign_tuple [OF p(2)] sign_tuple [OF p'(2)] d(2) d'(2) by metis
qed

theorem verifiers_agree_witness:
  "\<exists>a a' roots release release'.
     agreement demo_externals demo_serde demo_signing demo_config demo_signer demo_env 100 0 = Ok a \<and>
     agreement demo_externals demo_serde demo_signing demo_config rival_signer rival_env 100 0 = Ok a' \<and>
     ae_tuple a = from_roots demo_externals (protocol_id demo_externals demo_binding) roots release \<and>
     ae_tuple a' = from_roots demo_externals (protocol_id demo_externals demo_binding) roots release'"
proof -
  have env: "demo_env\<lparr>env_db := (\<lambda>_. init_db)\<rparr> = demo_env" by (simp add: demo_env_def)
  obtain a a' where a: "agreement demo_externals demo_serde demo_signing demo_config demo_signer demo_env 100 0 = Ok a"
      and a': "agreement demo_externals demo_serde demo_signing demo_config rival_signer rival_env 100 0 = Ok a'"
    using demo_agrees [OF init_db_ok demo_env_facts(7)] demo_agrees [OF rival_db_ok demo_env_facts(7)] unfolding env rival_env_def by blast
  have ok: "demo_store_ok [init_entry] init_state (env_db demo_env (0 + 3))"
      "demo_store_ok [init_entry] init_state (env_db rival_env (0 + 3))"
    using init_db_ok rival_db_ok by (simp_all add: demo_env_facts rival_env_def)
  have "at_block_hash (ae_tuple e) = display_hash demo_externals (bv_hash init_block)"
    if "agreement demo_externals demo_serde demo_signing demo_config signer env 100 0 = Ok e"
      "src_block_hash env 4 100 = Some (bv_hash init_block)" for signer e and env :: "demo_value api_env"
    using that unfolding agreement_iff by (auto dest!: sign_tuple simp: from_roots_def)
  then have "at_block_hash (ae_tuple a) = at_block_hash (ae_tuple a')"
    using a a' by (simp add: demo_env_facts rival_env_def)
  moreover have "identified demo_binding (fst ` set [init_entry] \<union> fst ` set [init_entry])"
    by (simp add: identified_def)
  ultimately show ?thesis
    using verifiers_agree [OF demo_serde_laws demo_serde_laws demo_hex_laws ok demo_env_facts(7) demo_env_facts(7) a a']
      a a' by metis
qed

section \<open>Readiness\<close>

text \<open>
  The readiness endpoint answers 200 exactly when the database answers, Core is ready on the
  configured network, the stored state can be read, its protocol is active and its tip at Core's
  height, and the worker is idle without an error; otherwise it answers 503 and lists a failure.
\<close>

theorem readiness_is_fail_closed:
  "fst (readiness_check X D E cfg signer env t) =
     (if rd_ready (snd (readiness_check X D E cfg signer env t)) then 200 else 503) \<and>
   (rd_ready (snd (readiness_check X D E cfg signer env t)) \<longleftrightarrow>
     rd_failures (snd (readiness_check X D E cfg signer env t)) = []) \<and>
   (rd_ready (snd (readiness_check X D E cfg signer env t)) \<longleftrightarrow>
     env_outage env t = Reachable \<and>
     (\<exists>core s. src_status env (t + 1) = Some core \<and> ready_for core (bnd_network (cfg_binding cfg)) \<and>
        load_state D (env_outage env (t + 2)) (env_db env (t + 2)) = Ok s \<and> is_active (protocol_status s) \<and>
        tip_height s = Some (blocks core)) \<and>
     \<not> catching_up (env_health env (t + 3)) \<and> last_error (env_health env (t + 3)) = None)"
proof -
  have "status_failures p = [] \<longleftrightarrow> is_active p" for p by (cases p) auto
  then show ?thesis
    by (auto simp: readiness_check_def Let_def split: option.splits res.splits)
qed

section \<open>The overlay\<close>

lemma written_overlay:
  assumes "insert_mempool_rows D txs db = Ok db'"
  shows "map (\<lambda>r. Some (mr_payload r)) (mempool_overlay db') =
    map (\<lambda>r. Some (mr_payload r)) (mempool_overlay db) @ map (tx_to_value D) txs"
  using assms
  by (induction txs arbitrary: db) (auto simp: res_simps insert_mempool_def ok_or_def split: if_splits option.splits)

text \<open>
  The handler of the overlay lists what the worker wrote last: at most a thousand transactions in the
  order of the server, and all of them if there are not more.
\<close>

theorem mempool_lists_the_overlay:
  assumes "replace_mempool D f txs db = (env_db env t, Ok ())" and "env_outage env t = Reachable"
    and "mset (order (mempool_overlay (env_db env t))) = mset (mempool_overlay (env_db env t))"
  shows "\<exists>vs. api_mempool order env t = Ok vs \<and> length vs \<le> 1000 \<and>
    mset (map Some vs) \<subseteq># mset (map (tx_to_value D) txs) \<and>
    (length txs \<le> 1000 \<longrightarrow> mset (map Some vs) = mset (map (tx_to_value D) txs))"
proof -
  let ?rows = "mempool_overlay (env_db env t)"
  have "insert_mempool_rows D txs (db\<lparr>mempool_overlay := []\<rparr>) = Ok (env_db env t)"
    using assms(1) by (auto simp: replace_mempool_def transact_def res_simps split: res.splits outage.splits if_splits)
  then have w: "map (\<lambda>r. Some (mr_payload r)) ?rows = map (tx_to_value D) txs" using written_overlay by fastforce
  have m: "mset (map (\<lambda>r. Some (mr_payload r)) (order ?rows)) = mset (map (tx_to_value D) txs)"
    unfolding w [symmetric] using assms(3) by simp
  let ?vs = "map mr_payload (take 1000 (order ?rows))"
  have "mset (map Some ?vs) \<subseteq># mset (map (\<lambda>r. Some (mr_payload r)) (order ?rows))"
    by (metis (no_types, lifting) append_take_drop_id comp_apply list.map_comp list.map_cong map_append mset_append mset_subset_eq_add_left)
  moreover have "take 1000 (order ?rows) = order ?rows" if "length txs \<le> 1000"
    using that w assms(3) by (metis length_map size_mset take_all)
  ultimately show ?thesis
    using m assms(2) by (intro exI [of _ ?vs]) (auto simp: api_mempool_def mempool_query_def comp_def)
qed

end
