(* ===== verification/Resolver.thy ===== *)
theory Resolver
  imports Ingest Rust_Text
begin

text \<open>
  The Bitcoin Core source, \<open>crates/tandem-verifier/src/rpc.rs\<close>: the JSON-RPC envelope, the
  resolution of every input of a block to the output it spends, and the verification of its
  signatures. What Core answers is a function of the number of the call and its parameters. The
  \<open>bitcoin\<close> and \<open>secp256k1\<close> crates are the fields of the parameter \<open>B\<close>; transactions and
  blocks have the fields of the crate's types, and a \<open>Txid\<close> or \<open>BlockHash\<close> is its wire bytes,
  which is what \<open>serialize\<close> yields.
\<close>

section \<open>Bitcoin data\<close>

record bitcoin_txin =
  bin_txid :: hash32
  bin_vout :: u32
  bin_script_sig :: bytes
  bin_sequence :: u32
  bin_witness :: "bytes list"

record bitcoin_txout =
  bout_value :: u64
  bout_script_pubkey :: bytes

record bitcoin_tx =
  btx_version :: i32
  btx_lock_time :: u32
  btx_input :: "bitcoin_txin list"
  btx_output :: "bitcoin_txout list"

record bitcoin_header =
  bhd_prev_blockhash :: hash32
  bhd_other_fields :: bytes

record bitcoin_block =
  bbl_header :: bitcoin_header
  bbl_txdata :: "bitcoin_tx list"

record ecdsa_signature =
  sig_bytes :: bytes
  sig_sighash_all :: bool

record bitcoin =
  compute_txid :: "bitcoin_tx \<Rightarrow> hash32"
  compute_wtxid :: "bitcoin_tx \<Rightarrow> hash32"
  compute_block_hash :: "bitcoin_header \<Rightarrow> hash32"
  hash_text :: "hash32 \<Rightarrow> string"
  parse_txid :: "string \<Rightarrow> hash32 option"
  deserialize_tx :: "bytes \<Rightarrow> bitcoin_tx option"
  deserialize_block :: "bytes \<Rightarrow> bitcoin_block option"
  is_null :: "hash32 \<Rightarrow> u32 \<Rightarrow> bool"
  is_p2wpkh :: "bytes \<Rightarrow> bool"
  is_p2wsh :: "bytes \<Rightarrow> bool"
  signature_from_slice :: "bytes \<Rightarrow> ecdsa_signature option"
  signature_to_vec :: "ecdsa_signature \<Rightarrow> bytes"
  normalize_s :: "bytes \<Rightarrow> bytes"
  public_key_from_slice :: "bytes \<Rightarrow> bytes option"
  p2wpkh_signature_hash :: "bitcoin_tx \<Rightarrow> nat \<Rightarrow> bytes \<Rightarrow> u64 \<Rightarrow> hash32 option"
  p2wsh_signature_hash :: "bitcoin_tx \<Rightarrow> nat \<Rightarrow> bytes \<Rightarrow> u64 \<Rightarrow> hash32 option"
  verify_ecdsa :: "hash32 \<Rightarrow> bytes \<Rightarrow> bytes \<Rightarrow> bool"

section \<open>Remote calls\<close>

datatype rpc_error =
    RequestFailed | InvalidJson | CoreRpcError int | HttpStatus | ResultOmitted
  | NotHex | InvalidRaw | WrongTransaction | WrongBlock | PrevoutOutOfRange | InvalidHash | InvalidTxid

record 'a rpc_envelope =
  re_result :: "'a option"
  re_error :: "int option"

text \<open>What arrives: nothing, something that is not the expected JSON, or an envelope and whether the status is a success.\<close>

datatype 'a reply = NoReply | NotJson | Reply bool "'a rpc_envelope"

fun call :: "'a reply \<Rightarrow> (rpc_error, 'a) res" where
  "call NoReply = Err RequestFailed"
| "call NotJson = Err InvalidJson"
| "call (Reply success envelope) =
     (case re_error envelope of
        Some code \<Rightarrow> Err (CoreRpcError code)
      | None \<Rightarrow> if \<not> success then Err HttpStatus else ok_or ResultOmitted (re_result envelope))"

record blockchain_info =
  bi_chain :: string
  bi_blocks :: u64
  bi_headers :: u64
  bi_initialblockdownload :: bool

record raw_transaction_verbose =
  rv_hex :: string
  rv_blockhash :: "string option"
  rv_confirmations :: "int option"

record core =
  getblockchaininfo :: "nat \<Rightarrow> blockchain_info reply"
  getindexinfo :: "nat \<Rightarrow> string \<Rightarrow> (string \<times> bool) list reply"
  getblockcount :: "nat \<Rightarrow> u64 reply"
  getblockhash :: "nat \<Rightarrow> u64 \<Rightarrow> string reply"
  getblock :: "nat \<Rightarrow> string \<Rightarrow> string reply"
  getblockheader :: "nat \<Rightarrow> string \<Rightarrow> u64 reply"
  getrawtransaction :: "nat \<Rightarrow> string \<Rightarrow> raw_transaction_verbose reply"
  getrawmempool :: "nat \<Rightarrow> string list reply"

text \<open>A computation carries the number of the next call.\<close>

type_synonym 'a timed = "nat \<times> (rpc_error, 'a) res"

fun then_do :: "'a timed \<Rightarrow> ('a \<Rightarrow> nat \<Rightarrow> 'b timed) \<Rightarrow> 'b timed" where
  "then_do (t, Ok x) f = f x t"
| "then_do (t, Err e) f = (t, Err e)"
| "then_do (t, Panic) f = (t, Panic)"

definition ask_core :: "(nat \<Rightarrow> 'a reply) \<Rightarrow> nat \<Rightarrow> 'a timed" where
  "ask_core q t = (Suc t, call (q t))"

section \<open>Signatures\<close>

definition strict_signature :: "bitcoin \<Rightarrow> bytes \<Rightarrow> ecdsa_signature option" where
  "strict_signature B bs =
     (case signature_from_slice B bs of
        None \<Rightarrow> None
      | Some s \<Rightarrow>
          if \<not> sig_sighash_all s then None
          else if normalize_s B (sig_bytes s) \<noteq> sig_bytes s then None
          else if signature_to_vec B s \<noteq> bs then None
          else Some s)"

definition verify_p2wpkh :: "bitcoin \<Rightarrow> bitcoin_tx \<Rightarrow> nat \<Rightarrow> bitcoin_txout \<Rightarrow> bytes \<Rightarrow> bytes \<Rightarrow> bool" where
  "verify_p2wpkh B tx index spent signature_bytes public_key_bytes =
     (case strict_signature B signature_bytes of
        None \<Rightarrow> False
      | Some signature \<Rightarrow>
          (case public_key_from_slice B public_key_bytes of
             None \<Rightarrow> False
           | Some public_key \<Rightarrow>
               (case p2wpkh_signature_hash B tx index (bout_script_pubkey spent) (bout_value spent) of
                  None \<Rightarrow> False
                | Some sighash \<Rightarrow> verify_ecdsa B sighash (sig_bytes signature) public_key)))"

definition verify_p2wsh_2of2 ::
    "bitcoin \<Rightarrow> bitcoin_tx \<Rightarrow> nat \<Rightarrow> bitcoin_txout \<Rightarrow> bytes \<Rightarrow> bytes \<Rightarrow> bytes \<Rightarrow> bool" where
  "verify_p2wsh_2of2 B tx index spent signature0_bytes signature1_bytes script =
     (if length script \<noteq> 71
         \<or> take 2 script \<noteq> [0x52, 0x21]
         \<or> script ! 35 \<noteq> 0x21
         \<or> take 2 (drop 69 script) \<noteq> [0x52, 0xae]
      then False
      else
        case (strict_signature B signature0_bytes, strict_signature B signature1_bytes,
              public_key_from_slice B (take 33 (drop 2 script)),
              public_key_from_slice B (take 33 (drop 36 script)),
              p2wsh_signature_hash B tx index script (bout_value spent)) of
          (Some signature0, Some signature1, Some k0, Some k1, Some sighash) \<Rightarrow>
            verify_ecdsa B sighash (sig_bytes signature0) k0 \<and>
            verify_ecdsa B sighash (sig_bytes signature1) k1
        | _ \<Rightarrow> False)"

definition verify_input_signature :: "bitcoin \<Rightarrow> bitcoin_tx \<Rightarrow> nat \<Rightarrow> bitcoin_txout \<Rightarrow> bool" where
  "verify_input_signature B tx index spent =
     (case get_at (btx_input tx) index of
        None \<Rightarrow> False
      | Some input \<Rightarrow>
          let w = bin_witness input in
          if bin_script_sig input \<noteq> [] then False
          else if is_p2wpkh B (bout_script_pubkey spent) \<and> length w = 2 then
            verify_p2wpkh B tx index spent (w ! 0) (w ! 1)
          else if is_p2wsh B (bout_script_pubkey spent) \<and> length w = 4 \<and> w ! 0 = [] then
            verify_p2wsh_2of2 B tx index spent (w ! 1) (w ! 2) (w ! 3)
          else False)"

section \<open>Resolution\<close>

record resolved_transaction =
  rt_transaction :: bitcoin_tx
  rt_height :: "u64 option"

definition raw_transaction ::
    "externals \<Rightarrow> bitcoin \<Rightarrow> core \<Rightarrow> hash32 \<Rightarrow> nat \<Rightarrow> resolved_transaction timed" where
  "raw_transaction X B C txid t =
     then_do (ask_core (\<lambda>t. getrawtransaction C t (hash_text B txid)) t) (\<lambda>verbose t.
     then_do (t, ok_or NotHex (hex_decode X (rv_hex verbose))) (\<lambda>raw t.
     then_do (t, ok_or InvalidRaw (deserialize_tx B raw)) (\<lambda>tx t.
     if compute_txid B tx \<noteq> txid then (t, Err WrongTransaction)
     else
       then_do
         (case (rv_confirmations verbose, rv_blockhash verbose) of
            (Some n, Some block_hash) \<Rightarrow>
              if 0 < n
              then then_do (ask_core (\<lambda>t. getblockheader C t block_hash) t) (\<lambda>h t. (t, Ok (Some h)))
              else (t, Ok None)
          | _ \<Rightarrow> (t, Ok None)) (\<lambda>height t.
       (t, Ok \<lparr>rt_transaction = tx, rt_height = height\<rparr>)))))"

type_synonym tx_cache = "hash32 \<rightharpoonup> resolved_transaction"

text \<open>The parent comes from the block itself, from the cache, or from Core.\<close>

definition parent_of ::
    "externals \<Rightarrow> bitcoin \<Rightarrow> core \<Rightarrow> tx_cache \<Rightarrow> tx_cache \<Rightarrow> hash32 \<Rightarrow> nat \<Rightarrow> (resolved_transaction \<times> tx_cache) timed" where
  "parent_of X B C local cache txid t =
     (case local txid of
        Some parent \<Rightarrow> (t, Ok (parent, cache))
      | None \<Rightarrow>
          (case cache txid of
             Some parent \<Rightarrow> (t, Ok (parent, cache))
           | None \<Rightarrow>
               then_do (raw_transaction X B C txid t) (\<lambda>parent t. (t, Ok (parent, cache(txid \<mapsto> parent))))))"

definition null_input :: "bitcoin_txin \<Rightarrow> input_view" where
  "null_input input =
     \<lparr>prevout = outpoint_ZERO,
      sequence = bin_sequence input,
      script_sig = bin_script_sig input,
      witness = bin_witness input,
      prevout_value = 0,
      prevout_script = [],
      prevout_height = None,
      signatures_valid = False\<rparr>"

definition input_of :: "bitcoin \<Rightarrow> bitcoin_tx \<Rightarrow> nat \<Rightarrow> bitcoin_txin \<Rightarrow> bitcoin_txout \<Rightarrow> u64 option \<Rightarrow> input_view" where
  "input_of B tx index input spent height =
     \<lparr>prevout = OutPointRef (bin_txid input) (bin_vout input),
      sequence = bin_sequence input,
      script_sig = bin_script_sig input,
      witness = bin_witness input,
      prevout_value = bout_value spent,
      prevout_script = bout_script_pubkey spent,
      prevout_height = height,
      signatures_valid = verify_input_signature B tx index spent\<rparr>"

definition resolve_input ::
    "externals \<Rightarrow> bitcoin \<Rightarrow> core \<Rightarrow> bitcoin_tx \<Rightarrow> tx_cache \<Rightarrow> nat \<Rightarrow> bitcoin_txin \<Rightarrow> tx_cache \<Rightarrow> nat
      \<Rightarrow> (input_view \<times> tx_cache) timed" where
  "resolve_input X B C tx local index input cache t =
     (if is_null B (bin_txid input) (bin_vout input) then (t, Ok (null_input input, cache))
      else
        then_do (parent_of X B C local cache (bin_txid input) t) (\<lambda>(parent, cache) t.
        then_do (t, ok_or PrevoutOutOfRange (get_at (btx_output (rt_transaction parent)) (unat (bin_vout input))))
          (\<lambda>spent t. (t, Ok (input_of B tx index input spent (rt_height parent), cache)))))"

fun resolve_inputs ::
    "externals \<Rightarrow> bitcoin \<Rightarrow> core \<Rightarrow> bitcoin_tx \<Rightarrow> tx_cache \<Rightarrow> (nat \<times> bitcoin_txin) list \<Rightarrow> tx_cache \<Rightarrow> nat
      \<Rightarrow> (input_view list \<times> tx_cache) timed" where
  "resolve_inputs X B C tx local [] cache t = (t, Ok ([], cache))"
| "resolve_inputs X B C tx local ((index, input) # rest) cache t =
     then_do (resolve_input X B C tx local index input cache t) (\<lambda>(view, cache) t.
     then_do (resolve_inputs X B C tx local rest cache t) (\<lambda>(views, cache) t.
     (t, Ok (view # views, cache))))"

definition view_of :: "bitcoin \<Rightarrow> bitcoin_tx \<Rightarrow> input_view list \<Rightarrow> tx_view" where
  "view_of B tx views =
     \<lparr>tx_txid = compute_txid B tx,
      tx_wtxid = compute_wtxid B tx,
      tx_version = btx_version tx,
      lock_time = btx_lock_time tx,
      inputs = views,
      outputs = map (\<lambda>out. \<lparr>out_value = bout_value out, script_pubkey = bout_script_pubkey out\<rparr>) (btx_output tx)\<rparr>"

definition resolve_transaction ::
    "externals \<Rightarrow> bitcoin \<Rightarrow> core \<Rightarrow> bitcoin_tx \<Rightarrow> tx_cache \<Rightarrow> tx_cache \<Rightarrow> nat \<Rightarrow> (tx_view \<times> tx_cache) timed" where
  "resolve_transaction X B C tx local cache t =
     then_do (resolve_inputs X B C tx local (enumerate_from 0 (btx_input tx)) cache t) (\<lambda>(views, cache) t.
     (t, Ok (view_of B tx views, cache)))"

fun resolve_block ::
    "externals \<Rightarrow> bitcoin \<Rightarrow> core \<Rightarrow> tx_cache \<Rightarrow> bitcoin_tx list \<Rightarrow> tx_cache \<Rightarrow> nat \<Rightarrow> tx_view list timed" where
  "resolve_block X B C local [] cache t = (t, Ok [])"
| "resolve_block X B C local (tx # txs) cache t =
     then_do (resolve_transaction X B C tx local cache t) (\<lambda>(view, cache) t.
     then_do (resolve_block X B C local txs cache t) (\<lambda>views t. (t, Ok (view # views))))"

section \<open>The source\<close>

definition rpc_status :: "core \<Rightarrow> nat \<Rightarrow> core_status timed" where
  "rpc_status C t =
     then_do (ask_core (getblockchaininfo C) t) (\<lambda>chain t.
     then_do (ask_core (\<lambda>t. getindexinfo C t ''txindex'') t) (\<lambda>indexes t.
     (t, Ok \<lparr>chain_label = bi_chain chain,
             blocks = bi_blocks chain,
             headers = bi_headers chain,
             initial_block_download = bi_initialblockdownload chain,
             txindex_synced = (case map_of indexes ''txindex'' of Some synced \<Rightarrow> synced | None \<Rightarrow> False)\<rparr>)))"

definition rpc_best_height :: "core \<Rightarrow> nat \<Rightarrow> u64 timed" where
  "rpc_best_height C t = ask_core (getblockcount C) t"

definition rpc_block_hash :: "externals \<Rightarrow> core \<Rightarrow> u64 \<Rightarrow> nat \<Rightarrow> hash32 timed" where
  "rpc_block_hash X C height t =
     then_do (ask_core (\<lambda>t. getblockhash C t height) t) (\<lambda>display t.
     (t, map_err (\<lambda>_. InvalidHash) (wire_hash X display)))"

definition local_transactions :: "bitcoin \<Rightarrow> u64 \<Rightarrow> bitcoin_tx list \<Rightarrow> tx_cache" where
  "local_transactions B height txs =
     fold (\<lambda>tx m. m(compute_txid B tx \<mapsto> \<lparr>rt_transaction = tx, rt_height = Some height\<rparr>)) txs Map.empty"

definition rpc_block :: "externals \<Rightarrow> bitcoin \<Rightarrow> core \<Rightarrow> u64 \<Rightarrow> nat \<Rightarrow> block_view timed" where
  "rpc_block X B C height t =
     then_do (ask_core (\<lambda>t. getblockhash C t height) t) (\<lambda>hash_display t.
     then_do (ask_core (\<lambda>t. getblock C t hash_display) t) (\<lambda>block_hex t.
     then_do (t, ok_or NotHex (hex_decode X block_hex)) (\<lambda>raw t.
     then_do (t, ok_or InvalidRaw (deserialize_block B raw)) (\<lambda>block t.
     if hash_text B (compute_block_hash B (bbl_header block)) \<noteq> hash_display then (t, Err WrongBlock)
     else
       then_do (resolve_block X B C (local_transactions B height (bbl_txdata block)) (bbl_txdata block) Map.empty t)
         (\<lambda>views t.
         (t, Ok \<lparr>bv_hash = compute_block_hash B (bbl_header block),
                 bv_previous_hash = bhd_prev_blockhash (bbl_header block),
                 bv_height = height,
                 transactions = views\<rparr>))))))"

definition rpc_transaction_height :: "externals \<Rightarrow> bitcoin \<Rightarrow> core \<Rightarrow> hash32 \<Rightarrow> nat \<Rightarrow> u64 option timed" where
  "rpc_transaction_height X B C txid t =
     (case raw_transaction X B C txid t of
        (t, Ok tx) \<Rightarrow> (t, Ok (rt_height tx))
      | (t, Err e) \<Rightarrow> (t, if e = CoreRpcError (-5) then Ok None else Err e)
      | (t, Panic) \<Rightarrow> (t, Panic))"

fun resolve_mempool ::
    "externals \<Rightarrow> bitcoin \<Rightarrow> core \<Rightarrow> string list \<Rightarrow> tx_cache \<Rightarrow> nat \<Rightarrow> tx_view list timed" where
  "resolve_mempool X B C [] cache t = (t, Ok [])"
| "resolve_mempool X B C (text # texts) cache t =
     then_do (t, ok_or InvalidTxid (parse_txid B text)) (\<lambda>txid t.
     then_do (raw_transaction X B C txid t) (\<lambda>resolved t.
     then_do (resolve_transaction X B C (rt_transaction resolved) Map.empty cache t) (\<lambda>(view, cache) t.
     then_do (resolve_mempool X B C texts cache t) (\<lambda>views t. (t, Ok (view # views))))))"

definition rpc_mempool :: "externals \<Rightarrow> bitcoin \<Rightarrow> core \<Rightarrow> nat \<Rightarrow> tx_view list timed" where
  "rpc_mempool X B C t =
     then_do (ask_core (getrawmempool C) t) (\<lambda>txids t. resolve_mempool X B C txids Map.empty t)"

text \<open>
  \<open>BitcoinCoreRpc\<close> as a block source. During the \<open>t\<close>-th call of the worker Core answers as
  \<open>C t\<close>, with a numbering of its own calls.
\<close>

definition answer :: "'a timed \<Rightarrow> 'a option" where
  "answer r = (case snd r of Ok x \<Rightarrow> Some x | _ \<Rightarrow> None)"

definition core_source :: "externals \<Rightarrow> bitcoin \<Rightarrow> (nat \<Rightarrow> core) \<Rightarrow> block_source" where
  "core_source X B C =
     \<lparr>src_status = (\<lambda>t. answer (rpc_status (C t) 0)),
      src_best_height = (\<lambda>t. answer (rpc_best_height (C t) 0)),
      src_block_hash = (\<lambda>t h. answer (rpc_block_hash X (C t) h 0)),
      src_block = (\<lambda>t h. answer (rpc_block X B (C t) h 0)),
      src_transaction_height = (\<lambda>t txid. answer (rpc_transaction_height X B (C t) txid 0)),
      src_mempool = (\<lambda>t. answer (rpc_mempool X B (C t) 0))\<rparr>"

end
