(* ===== verification/Resolution.thy ===== *)
theory Resolution
  imports Resolver Carrier_Safety
begin

text \<open>
  What a resolved block says of the chain. \<open>known_txs\<close> are the transactions Core has shown,
  \<open>shown_txs\<close> those it returned by id, with the height it gave for them, \<open>resolved_input\<close> and
  \<open>resolved_view\<close> relate a raw transaction to the view the reducer gets: every input that is not
  null has the value, script and height of the output it spends, and its signature flag is the
  result of the verifier on that output. From the views of any number of blocks one map
  from outpoints to scripts can be read off, as the reducer's contract \<open>resolved_tx\<close> asks, when
  transaction ids determine outputs.
\<close>

section \<open>Transactions Core has shown\<close>

definition known_txs :: "externals \<Rightarrow> bitcoin \<Rightarrow> core \<Rightarrow> bitcoin_tx set" where
  "known_txs X B C =
     {tx. \<exists>t text v raw. call (getrawtransaction C t text) = Ok v \<and> hex_decode X (rv_hex v) = Some raw \<and>
            deserialize_tx B raw = Some tx} \<union>
     {tx. \<exists>t text v raw block. call (getblock C t text) = Ok v \<and> hex_decode X v = Some raw \<and>
            deserialize_block B raw = Some block \<and> tx \<in> set (bbl_txdata block)}"

text \<open>The height of a transaction according to Core's reply: that of its block, if it is confirmed.\<close>

definition told_height :: "core \<Rightarrow> raw_transaction_verbose \<Rightarrow> u64 option \<Rightarrow> bool" where
  "told_height C v h \<longleftrightarrow>
     (case (rv_confirmations v, rv_blockhash v) of
        (Some n, Some block_hash) \<Rightarrow>
          if 0 < n then \<exists>t k. call (getblockheader C t block_hash) = Ok k \<and> h = Some k else h = None
      | _ \<Rightarrow> h = None)"

definition shown_txs :: "externals \<Rightarrow> bitcoin \<Rightarrow> core \<Rightarrow> resolved_transaction set" where
  "shown_txs X B C =
     {p. \<exists>t v raw. call (getrawtransaction C t (hash_text B (compute_txid B (rt_transaction p)))) = Ok v \<and>
           hex_decode X (rv_hex v) = Some raw \<and> deserialize_tx B raw = Some (rt_transaction p) \<and>
           told_height C v (rt_height p)}"

text \<open>The transactions of a block, with its height.\<close>

definition block_txs :: "u64 \<Rightarrow> bitcoin_tx list \<Rightarrow> resolved_transaction set" where
  "block_txs h txs = (\<lambda>tx. \<lparr>rt_transaction = tx, rt_height = Some h\<rparr>) ` set txs"

lemma shown_txs_known: "rt_transaction ` shown_txs X B C \<subseteq> known_txs X B C"
  by (auto simp: shown_txs_def known_txs_def)

lemma then_do_Ok_iff [res_simps]:
  "then_do m f = (t', Ok y) \<longleftrightarrow> (\<exists>t x. m = (t, Ok x) \<and> f x t = (t', Ok y))"
  by (cases "(m, f)" rule: then_do.cases) auto

lemma ask_core_Ok_iff [res_simps]: "ask_core q t = (t', Ok x) \<longleftrightarrow> t' = Suc t \<and> call (q t) = Ok x"
  by (auto simp: ask_core_def)

lemma ok_or_Ok_iff [res_simps]: "ok_or e x = Ok v \<longleftrightarrow> x = Some v"
  by (auto simp: ok_or_def split: option.splits)

lemma answer_Some_iff: "answer r = Some x \<longleftrightarrow> snd r = Ok x"
  by (cases "snd r") (simp_all add: answer_def)

lemma raw_transaction_Ok:
  assumes "raw_transaction X B C txid t = (t', Ok p)"
  shows "compute_txid B (rt_transaction p) = txid" and "p \<in> shown_txs X B C"
proof -
  obtain v raw tx h where r: "call (getrawtransaction C t (hash_text B txid)) = Ok v" "hex_decode X (rv_hex v) = Some raw"
      "deserialize_tx B raw = Some tx" "compute_txid B tx = txid" "p = \<lparr>rt_transaction = tx, rt_height = h\<rparr>"
      and h: "(case (rv_confirmations v, rv_blockhash v) of
          (Some n, Some block_hash) \<Rightarrow>
            if 0 < n
            then then_do (ask_core (\<lambda>t. getblockheader C t block_hash) (Suc t)) (\<lambda>h t. (t, Ok (Some h)))
            else (Suc t, Ok None)
        | _ \<Rightarrow> (Suc t, Ok None)) = (t', Ok h)"
    using assms by (auto simp only: raw_transaction_def res_simps prod.inject split: if_splits)
  have "told_height C v h"
    using h by (auto simp: told_height_def res_simps split: option.splits if_splits)
  then have "p \<in> shown_txs X B C"
    unfolding shown_txs_def using r by (intro CollectI exI [of _ t] exI [of _ v] exI [of _ raw]) simp
  then show "compute_txid B (rt_transaction p) = txid" and "p \<in> shown_txs X B C" using r by simp_all
qed

section \<open>Caches\<close>

definition cache_ok :: "bitcoin \<Rightarrow> resolved_transaction set \<Rightarrow> tx_cache \<Rightarrow> bool" where
  "cache_ok B T m \<longleftrightarrow>
     (\<forall>txid p. m txid = Some p \<longrightarrow> compute_txid B (rt_transaction p) = txid \<and> p \<in> T)"

lemma cache_ok_empty [simp]: "cache_ok B T Map.empty"
  by (simp add: cache_ok_def)

lemma cache_ok_update:
  "cache_ok B T m \<Longrightarrow> compute_txid B (rt_transaction p) = txid \<Longrightarrow> p \<in> T \<Longrightarrow> cache_ok B T (m(txid \<mapsto> p))"
  by (auto simp: cache_ok_def)

lemma cache_ok_local: "block_txs h txs \<subseteq> T \<Longrightarrow> cache_ok B T (local_transactions B h txs)"
proof -
  have "cache_ok B T (fold (\<lambda>tx m. m(compute_txid B tx \<mapsto> \<lparr>rt_transaction = tx, rt_height = Some h\<rparr>)) txs m)"
    if "block_txs h txs \<subseteq> T" "cache_ok B T m" for m
    using that
  proof (induction txs arbitrary: m)
    case (Cons tx txs)
    then show ?case by (auto simp: block_txs_def simp del: fun_upd_apply intro!: Cons.IH cache_ok_update)
  qed simp
  then show "block_txs h txs \<subseteq> T \<Longrightarrow> cache_ok B T (local_transactions B h txs)" by (simp add: local_transactions_def)
qed

lemma parent_of_Ok:
  assumes "parent_of X B C local cache txid t = (t', Ok (p, cache'))"
    and "cache_ok B T local" and "cache_ok B T cache" and "shown_txs X B C \<subseteq> T"
  shows "compute_txid B (rt_transaction p) = txid \<and> p \<in> T \<and> cache_ok B T cache'"
proof -
  have found: "compute_txid B (rt_transaction q) = txid \<and> q \<in> T" if "cache_ok B T m" "m txid = Some q" for m q
    using that by (simp add: cache_ok_def)
  show ?thesis
  proof (cases "local txid")
    case None
    show ?thesis
    proof (cases "cache txid")
      assume "cache txid = None"
      then obtain t'' where r: "raw_transaction X B C txid t = (t'', Ok p)" "cache' = cache(txid \<mapsto> p)"
        using assms(1) None by (auto simp: parent_of_def then_do_Ok_iff)
      from raw_transaction_Ok [OF r(1)] show ?thesis
        unfolding r(2) using assms(3,4) by (blast intro: cache_ok_update)
    next
      fix q
      assume q: "cache txid = Some q"
      then have "p = q" "cache' = cache" using assms(1) None by (auto simp: parent_of_def)
      then show ?thesis using found [OF assms(3) q] assms(3) by simp
    qed
  next
    case (Some q)
    then have "p = q" "cache' = cache" using assms(1) by (auto simp: parent_of_def)
    then show ?thesis using found [OF assms(2) Some] assms(3) by simp
  qed
qed

section \<open>Views\<close>

definition resolved_input :: "bitcoin \<Rightarrow> resolved_transaction set \<Rightarrow> bitcoin_tx \<Rightarrow> nat \<times> bitcoin_txin \<Rightarrow> input_view \<Rightarrow> bool" where
  "resolved_input B T tx = (\<lambda>(index, input) view.
     if is_null B (bin_txid input) (bin_vout input) then view = null_input input
     else \<exists>parent\<in>T. compute_txid B (rt_transaction parent) = bin_txid input \<and>
       unat (bin_vout input) < length (btx_output (rt_transaction parent)) \<and>
       view = input_of B tx index input (btx_output (rt_transaction parent) ! unat (bin_vout input)) (rt_height parent))"

definition resolved_view :: "bitcoin \<Rightarrow> resolved_transaction set \<Rightarrow> bitcoin_tx \<Rightarrow> tx_view \<Rightarrow> bool" where
  "resolved_view B T tx view \<longleftrightarrow>
     (\<exists>views. view = view_of B tx views \<and> list_all2 (resolved_input B T tx) (enumerate_from 0 (btx_input tx)) views)"

lemma resolve_input_Ok:
  assumes "resolve_input X B C tx local index input cache t = (t', Ok (view, cache'))"
    and "cache_ok B T local" and "cache_ok B T cache" and "shown_txs X B C \<subseteq> T"
  shows "resolved_input B T tx (index, input) view \<and> cache_ok B T cache'"
proof (cases "is_null B (bin_txid input) (bin_vout input)")
  case True
  then show ?thesis using assms(1,3) by (auto simp: resolve_input_def resolved_input_def)
next
  case False
  then obtain p t1 where p: "parent_of X B C local cache (bin_txid input) t = (t1, Ok (p, cache'))"
      and o: "unat (bin_vout input) < length (btx_output (rt_transaction p))"
        "view = input_of B tx index input (btx_output (rt_transaction p) ! unat (bin_vout input)) (rt_height p)"
    using assms(1) by (auto simp: resolve_input_def res_simps get_at_Some_iff)
  from parent_of_Ok [OF p assms(2-4)] show ?thesis using False o by (auto simp: resolved_input_def)
qed

lemma resolve_inputs_Ok:
  assumes "resolve_inputs X B C tx local ins cache t = (t', Ok (views, cache'))"
    and "cache_ok B T local" and "cache_ok B T cache" and "shown_txs X B C \<subseteq> T"
  shows "list_all2 (resolved_input B T tx) ins views \<and> cache_ok B T cache'"
  using assms(1,3)
proof (induction ins arbitrary: cache t t' views)
  case (Cons i ins)
  obtain index input where i: "i = (index, input)" by (cases i)
  from Cons.prems(1) obtain view t1 c1 rest t2 where
      v: "resolve_input X B C tx local index input cache t = (t1, Ok (view, c1))"
      and r: "resolve_inputs X B C tx local ins c1 t1 = (t2, Ok (rest, cache'))" "views = view # rest"
    unfolding i by (auto simp: res_simps)
  from resolve_input_Ok [OF v assms(2) Cons.prems(2) assms(4)] Cons.IH [OF r(1)] r(2) i show ?case by simp
qed simp

lemma resolve_transaction_Ok:
  assumes "resolve_transaction X B C tx local cache t = (t', Ok (view, cache'))"
    and "cache_ok B T local" and "cache_ok B T cache" and "shown_txs X B C \<subseteq> T"
  shows "resolved_view B T tx view \<and> cache_ok B T cache'"
proof -
  obtain t1 views where "resolve_inputs X B C tx local (enumerate_from 0 (btx_input tx)) cache t = (t1, Ok (views, cache'))"
      "view = view_of B tx views"
    using assms(1) by (auto simp: resolve_transaction_def res_simps)
  then show ?thesis using resolve_inputs_Ok [OF _ assms(2-4)] by (auto simp: resolved_view_def)
qed

lemma resolve_block_Ok:
  assumes "resolve_block X B C local txs cache t = (t', Ok views)"
    and "cache_ok B T local" and "cache_ok B T cache" and "shown_txs X B C \<subseteq> T"
  shows "list_all2 (resolved_view B T) txs views"
  using assms(1,3)
proof (induction txs arbitrary: cache t t' views)
  case (Cons tx txs)
  from Cons.prems(1) obtain view t1 c1 rest t2 where
      v: "resolve_transaction X B C tx local cache t = (t1, Ok (view, c1))"
      and r: "resolve_block X B C local txs c1 t1 = (t2, Ok rest)" "views = view # rest"
    by (auto simp: res_simps)
  from resolve_transaction_Ok [OF v assms(2) Cons.prems(2) assms(4)] Cons.IH [OF r(1)] r(2) show ?case by simp
qed simp

lemma rpc_block_Ok:
  assumes "rpc_block X B C height t = (t', Ok b)"
  shows "\<exists>block_hex raw block. call (getblockhash C t height) = Ok (hash_text B (bv_hash b)) \<and>
    call (getblock C (Suc t) (hash_text B (bv_hash b))) = Ok block_hex \<and> hex_decode X block_hex = Some raw \<and>
    deserialize_block B raw = Some block \<and> bv_hash b = compute_block_hash B (bbl_header block) \<and>
    bv_previous_hash b = bhd_prev_blockhash (bbl_header block) \<and> bv_height b = height \<and>
    list_all2 (resolved_view B (block_txs height (bbl_txdata block) \<union> shown_txs X B C)) (bbl_txdata block) (transactions b)"
proof -
  obtain hash_display block_hex raw block t1 views where
      *: "call (getblockhash C t height) = Ok hash_display" "call (getblock C (Suc t) hash_display) = Ok block_hex"
        "hex_decode X block_hex = Some raw" "deserialize_block B raw = Some block"
        "hash_text B (compute_block_hash B (bbl_header block)) = hash_display"
      and views: "resolve_block X B C (local_transactions B height (bbl_txdata block)) (bbl_txdata block) Map.empty
          (Suc (Suc t)) = (t1, Ok views)"
      and b: "b = \<lparr>bv_hash = compute_block_hash B (bbl_header block), bv_previous_hash = bhd_prev_blockhash (bbl_header block),
          bv_height = height, transactions = views\<rparr>"
    using assms by (auto simp: rpc_block_def res_simps split: if_splits)
  from resolve_block_Ok [OF views cache_ok_local [OF Un_upper1] cache_ok_empty Un_upper2] show ?thesis
    using * b by (intro exI [of _ block_hex] exI [of _ raw] exI [of _ block]) auto
qed

text \<open>The transactions behind a resolved block have all been shown.\<close>

lemma rpc_block_known:
  assumes "rpc_block X B C height t = (t', Ok b)"
  shows "\<exists>R txs. rt_transaction ` R \<subseteq> known_txs X B C \<and> set txs \<subseteq> known_txs X B C \<and>
    list_all2 (resolved_view B R) txs (transactions b)"
proof -
  obtain block_hex raw block where *: "call (getblock C (Suc t) (hash_text B (bv_hash b))) = Ok block_hex"
      "hex_decode X block_hex = Some raw" "deserialize_block B raw = Some block"
      "list_all2 (resolved_view B (block_txs height (bbl_txdata block) \<union> shown_txs X B C)) (bbl_txdata block) (transactions b)"
    using rpc_block_Ok [OF assms] by blast
  have k: "set (bbl_txdata block) \<subseteq> known_txs X B C" using *(1-3) by (auto simp: known_txs_def)
  then have "rt_transaction ` (block_txs height (bbl_txdata block) \<union> shown_txs X B C) \<subseteq> known_txs X B C"
    using shown_txs_known [of X B C] by (auto simp: block_txs_def)
  then show ?thesis using *(4) k by blast
qed

section \<open>One map of scripts\<close>

text \<open>Transaction ids determine outputs, and no transaction has the null id.\<close>

definition txids_fix_outputs :: "bitcoin \<Rightarrow> bitcoin_tx set \<Rightarrow> bool" where
  "txids_fix_outputs B T \<longleftrightarrow>
     (\<forall>a\<in>T. \<forall>b\<in>T. compute_txid B a = compute_txid B b \<longrightarrow> btx_output a = btx_output b) \<and>
     (\<forall>a\<in>T. compute_txid B a \<noteq> hash32_ZERO)"

definition chain_scripts :: "bitcoin \<Rightarrow> bitcoin_tx set \<Rightarrow> outpoint_ref \<Rightarrow> bytes" where
  "chain_scripts B T p =
     (if \<exists>a\<in>T. compute_txid B a = op_txid p \<and> unat (op_vout p) < length (btx_output a)
      then bout_script_pubkey (btx_output (SOME a. a \<in> T \<and> compute_txid B a = op_txid p) ! unat (op_vout p))
      else [])"

lemma chain_scripts_eq:
  assumes "txids_fix_outputs B T" and "a \<in> T" and "compute_txid B a = txid" and "unat v < length (btx_output a)"
  shows "chain_scripts B T (OutPointRef txid v) = bout_script_pubkey (btx_output a ! unat v)"
proof -
  have "\<exists>a. a \<in> T \<and> compute_txid B a = txid" using assms by blast
  then have "(SOME a. a \<in> T \<and> compute_txid B a = txid) \<in> T \<and> compute_txid B (SOME a. a \<in> T \<and> compute_txid B a = txid) = txid"
    by (rule someI_ex)
  then have "btx_output (SOME a. a \<in> T \<and> compute_txid B a = txid) = btx_output a"
    using assms(1-3) unfolding txids_fix_outputs_def by metis
  then show ?thesis using assms by (auto simp: chain_scripts_def)
qed

lemma chain_scripts_null:
  assumes "txids_fix_outputs B T"
  shows "chain_scripts B T outpoint_ZERO = []"
proof -
  have "\<forall>a\<in>T. compute_txid B a \<noteq> hash32_ZERO"
    using assms unfolding txids_fix_outputs_def by (rule conjunct2)
  then show ?thesis by (simp add: chain_scripts_def outpoint_ZERO_def)
qed

lemma resolved_view_tx:
  assumes "txids_fix_outputs B T" and "tx \<in> T" and "rt_transaction ` R \<subseteq> T" and "resolved_view B R tx view"
  shows "resolved_tx (chain_scripts B T) view"
proof -
  obtain views where v: "view = view_of B tx views"
      "list_all2 (resolved_input B R tx) (enumerate_from 0 (btx_input tx)) views"
    using assms(4) by (auto simp: resolved_view_def)
  have "prevout_script i = chain_scripts B T (prevout i)" if i: "i \<in> set views" for i
  proof -
    obtain ix where r: "resolved_input B R tx ix i" using list_all2_in_set2 [OF v(2) i] by blast
    have "rt_transaction p \<in> T" if "p \<in> R" for p using assms(3) that by blast
    then show ?thesis
      using r chain_scripts_eq [OF assms(1)] chain_scripts_null [OF assms(1)]
      by (fastforce simp: resolved_input_def null_input_def input_of_def split: if_splits)
  qed
  moreover have "chain_scripts B T (OutPointRef (compute_txid B tx) v) = bout_script_pubkey (btx_output tx ! j)"
    if "j < length (btx_output tx)" "u32_of_usize j = Some v" for j v
    using that chain_scripts_eq [OF assms(1,2) refl, of v] by (auto simp: u32_of_usize_eq unat_of_nat split: if_splits)
  ultimately show ?thesis
    by (auto simp: resolved_tx_def v(1) view_of_def list_all_iff set_enumerate_from split: option.splits)
qed

section \<open>Signatures of carriers\<close>

text \<open>A strict signature of the message under the key whose bytes are given.\<close>

definition signed_by :: "bitcoin \<Rightarrow> hash32 \<Rightarrow> bytes \<Rightarrow> key33 \<Rightarrow> bool" where
  "signed_by B sighash signature key \<longleftrightarrow>
     (\<exists>s point. strict_signature B signature = Some s \<and> public_key_from_slice B (bytes_of key) = Some point \<and>
        verify_ecdsa B sighash (sig_bytes s) point)"

lemma witness_script_split:
  assumes "length ws = 71" and "take 2 ws = [0x52, 0x21]" and "ws ! 35 = (0x21 :: u8)"
    and "take 2 (drop 69 ws) = [0x52, 0xae]"
  shows "ws = [0x52, 0x21] @ take 33 (drop 2 ws) @ [0x21] @ take 33 (drop 36 ws) @ [0x52, 0xae]"
proof -
  have p: "drop n ws = take m (drop n ws) @ drop (n + m) ws" for n m
    using append_take_drop_id [of m "drop n ws"] by (simp add: add.commute)
  have "take 1 (drop 35 ws) = [0x21]" using assms(1,3) by (simp add: take_Suc_conv_app_nth hd_drop_conv_nth take_Suc)
  moreover have "ws = take 2 ws @ drop 2 ws" by simp
  moreover have "drop 71 ws = []" using assms(1) by simp
  ultimately show ?thesis
    using p [of 2 33] p [of 35 1] p [of 36 33] p [of 69 2] assms(2,4) by simp
qed

lemma carrier_keys_witness:
  assumes "carrier_keys X i = Some ks"
  shows "script_sig i = []" and "length (witness i) = 4" and "witness i ! 0 = []" and "witness i ! 3 = witness_script ks"
    and "prevout_script i = carrier_script X ks"
proof -
  obtain k0 k1 where r: "carrier_revealed_keys i = Some (k0, k1)" and c: "checked X k0 k1 = Some ks"
      and p: "carrier_script X ks = prevout_script i"
    using assms by (auto simp: carrier_keys_def split: option.splits if_splits)
  show "script_sig i = []" "length (witness i) = 4" "witness i ! 0 = []" "prevout_script i = carrier_script X ks"
    using r p by (auto simp: carrier_revealed_keys_def split: if_splits)
  let ?ws = "witness i ! 3"
  have "length ?ws = 71" "take 2 ?ws = [0x52, 0x21]" "?ws ! 35 = 0x21" "take 2 (drop 69 ?ws) = [0x52, 0xae]"
      "bytes_of k0 = take 33 (drop 2 ?ws)" "bytes_of k1 = take 33 (drop 36 ?ws)"
    using r by (auto simp: carrier_revealed_keys_def Let_def array_try_from_Some_iff split: if_splits option.splits)
  moreover from c have "key0 ks = k0" "key1 ks = k1" by (auto simp: checked_def split: if_splits)
  ultimately show "?ws = witness_script ks"
    using witness_script_split [of ?ws] by (simp add: witness_script_def)
qed

lemma verified_carrier:
  assumes "verify_input_signature B tx index spent" and "get_at (btx_input tx) index = Some input"
    and "length (bin_witness input) = 4" and "bin_witness input ! 3 = witness_script ks"
  shows "\<exists>sighash. p2wsh_signature_hash B tx index (witness_script ks) (bout_value spent) = Some sighash \<and>
    signed_by B sighash (bin_witness input ! 1) (key0 ks) \<and> signed_by B sighash (bin_witness input ! 2) (key1 ks)"
proof -
  have v: "verify_p2wsh_2of2 B tx index spent (bin_witness input ! 1) (bin_witness input ! 2) (witness_script ks)"
    using assms by (auto simp: verify_input_signature_def Let_def split: if_splits)
  have "take 33 (drop 2 (witness_script ks)) = bytes_of (key0 ks)" "take 33 (drop 36 (witness_script ks)) = bytes_of (key1 ks)"
    by (simp_all add: witness_script_def)
  then show ?thesis
    using v by (auto simp: verify_p2wsh_2of2_def signed_by_def split: if_splits option.splits)
qed

section \<open>Carriers of a journal\<close>

lemma journal_carriers:
  assumes "chain_journal X bnd js s" and "distinct_keys X bnd (block_txids (rev (map fst js)))"
    and "\<forall>(b, d)\<in>set js. list_all (resolved_tx sp) (transactions b) \<and> topological (transactions b)"
  shows "carriers_on_chain X sp s \<and> chain_ok X s \<and> history_ok (block_txids (rev (map fst js))) s \<and> binding_of s = bnd"
  using assms
proof (induction js arbitrary: s)
  case Nil
  moreover have "objects (chain_state_new X bnd) = bt_new" by (simp add: chain_state_new_def)
  ultimately show ?case by (simp add: carriers_on_chain_iff block_txids_def)
next
  case (Cons j js)
  obtain b d where j: "j = (b, d)" by (cases j)
  then have t: "chain_journal X bnd js (bd_before d)" "apply_block X (bd_before d) b = (s, Ok d)"
    using Cons.prems(1) by (auto simp: chain_journal_Cons simp del: journal_of.simps)
  let ?hs = "block_txids (rev (map fst js))"
  have txids: "block_txids (rev (map fst (j # js))) = map tx_txid (transactions b) @ ?hs"
    by (simp add: block_txids_def j)
  have "distinct_keys X bnd ?hs" using Cons.prems(2) unfolding txids by (simp add: distinct_keys_def)
  then have ih: "carriers_on_chain X sp (bd_before d)" "chain_ok X (bd_before d)" "history_ok ?hs (bd_before d)"
      "binding_of (bd_before d) = bnd"
    using Cons.IH [OF t(1)] Cons.prems(3) by auto
  then have adm: "admissible X ?hs (bd_before d) b"
    using Cons.prems(2) unfolding txids by (simp add: admissible_def)
  obtain s1 where e: "block_events X (bd_before d) b = (s1, Ok (bd_events d))" and s1: "objects s = objects s1"
    by (rule apply_block_maps [OF t(2)])
  have "carriers_on_chain X sp s1"
    using block_events_spends(1) [OF adm e ih(1)] Cons.prems(3) j by auto
  then show ?case
    using apply_block_chain_ok [OF adm t(2)] s1 ih(4) unfolding txids by (simp add: carriers_on_chain_def)
qed

end
