(* ===== verification/Concrete_Core.thy ===== *)
theory Concrete_Core
  imports Concrete_Node Resolution
begin

text \<open>
  Two concrete nodes behind the resolver: one serves the INIT block of the demonstration chain, the
  other the block with its first MARK. The external crates are replaced by functions that keep the
  values readable: every signature verifies, a parent carries its id in its lock time.
\<close>

definition raw_input :: "input_view \<Rightarrow> bitcoin_txin" where
  "raw_input i =
     \<lparr>bin_txid = op_txid (prevout i), bin_vout = op_vout (prevout i), bin_script_sig = script_sig i,
      bin_sequence = sequence i, bin_witness = witness i\<rparr>"

definition raw_tx :: "tx_view \<Rightarrow> bitcoin_tx" where
  "raw_tx tx =
     \<lparr>btx_version = tx_version tx, btx_lock_time = lock_time tx, btx_input = map raw_input (inputs tx),
      btx_output = map (\<lambda>out. \<lparr>bout_value = out_value out, bout_script_pubkey = script_pubkey out\<rparr>) (outputs tx)\<rparr>"

definition raw_block :: "u64 \<Rightarrow> tx_view list \<Rightarrow> bitcoin_block" where
  "raw_block h txs =
     \<lparr>bbl_header = \<lparr>bhd_prev_blockhash = height_hash (h - 1), bhd_other_fields = to_le_bytes h\<rparr>,
      bbl_txdata = map raw_tx txs\<rparr>"

definition demo_parent :: "u8 \<Rightarrow> bitcoin_tx" where
  "demo_parent n =
     \<lparr>btx_version = 2, btx_lock_time = ucast n, btx_input = [],
      btx_output =
        (if n = 20 then
           [\<lparr>bout_value = 0, bout_script_pubkey = []\<rparr>,
            \<lparr>bout_value = CARRIER_VALUE, bout_script_pubkey = carrier_script demo_externals demo_keys\<rparr>]
         else [\<lparr>bout_value = (if n = 8 then 2000 else 5000), bout_script_pubkey = to_key (key0 demo_keys)\<rparr>])\<rparr>"

definition first_mark :: tx_view where
  "first_mark = demo_mark created_point 1108 30 1 (demo_hash 42)"

definition demo_bitcoin :: bitcoin where
  "demo_bitcoin =
     \<lparr>compute_txid = (\<lambda>tx. if btx_lock_time tx \<noteq> 0 then demo_hash (ucast (btx_lock_time tx))
                          else if length (btx_input tx) = 1 then demo_hash 1 else demo_hash 30),
      compute_wtxid = (\<lambda>tx. if length (btx_input tx) = 1 then demo_hash 9 else demo_hash 31),
      compute_block_hash = (\<lambda>hd. array_of (bhd_other_fields hd)),
      hash_text = display_hash demo_externals,
      parse_txid = (\<lambda>text. case wire_hash demo_externals text of Ok h \<Rightarrow> Some h | _ \<Rightarrow> None),
      deserialize_tx = (\<lambda>raw. case raw of n # _ \<Rightarrow> Some (demo_parent n) | [] \<Rightarrow> None),
      deserialize_block =
        (\<lambda>raw. Some (if raw = [1] then raw_block 100 [demo_init] else raw_block 1109 [first_mark])),
      is_null = (\<lambda>txid v. txid = hash32_ZERO \<and> v = u32_MAX),
      is_p2wpkh = (\<lambda>s. length s = 22),
      is_p2wsh = (\<lambda>s. length s = 34),
      signature_from_slice = (\<lambda>bs. Some \<lparr>sig_bytes = bs, sig_sighash_all = True\<rparr>),
      signature_to_vec = sig_bytes,
      normalize_s = (\<lambda>bs. bs),
      public_key_from_slice = Some,
      p2wpkh_signature_hash = (\<lambda>tx i s v. Some (demo_hash 60)),
      p2wsh_signature_hash = (\<lambda>tx i s v. Some (demo_hash 61)),
      verify_ecdsa = (\<lambda>m s k. True)\<rparr>"

definition answered :: "'a \<Rightarrow> 'a reply" where
  "answered x = Reply True \<lparr>re_result = Some x, re_error = None\<rparr>"

text \<open>Core serves one block and, for every other transaction, what \<open>parent\<close> says.\<close>

definition demo_core :: "string \<Rightarrow> (string \<Rightarrow> string) \<Rightarrow> (string \<Rightarrow> u64) \<Rightarrow> core" where
  "demo_core block_hex parent height =
     \<lparr>getblockchaininfo = (\<lambda>_. answered \<lparr>bi_chain = ''regtest'', bi_blocks = 100, bi_headers = 100,
        bi_initialblockdownload = False\<rparr>),
      getindexinfo = (\<lambda>_ name. answered [(name, True)]),
      getblockcount = (\<lambda>_. answered 100),
      getblockhash = (\<lambda>_ h. answered (display_hash demo_externals (height_hash h))),
      getblock = (\<lambda>_ _. answered block_hex),
      getblockheader = (\<lambda>_ text. answered (height text)),
      getrawtransaction =
        (\<lambda>_ text. answered \<lparr>rv_hex = parent text, rv_blockhash = Some text, rv_confirmations = Some 6\<rparr>),
      getrawmempool = (\<lambda>_. answered [])\<rparr>"

definition init_core :: core where
  "init_core = demo_core ''01'' (\<lambda>_. ''08'') (\<lambda>_. 99)"

definition mark_core :: core where
  "mark_core = demo_core ''02'' (\<lambda>text. text)
     (\<lambda>text. if text = display_hash demo_externals (demo_hash 20) then 1108 else 1000)"

lemma init_core_block: "rpc_block demo_externals demo_bitcoin init_core 100 0 = (4, Ok init_block)"
  by code_simp

lemma mark_core_block: "rpc_block demo_externals demo_bitcoin mark_core 1109 0 = (6, Ok (demo_block 1109 [first_mark]))"
  by code_simp

text \<open>Core as the source of the demonstration worker.\<close>

definition core_world :: world where
  "core_world = demo_world\<lparr>src_block := src_block (core_source demo_externals demo_bitcoin (\<lambda>_. init_core))\<rparr>"

lemma init_core_known: "known_txs demo_externals demo_bitcoin init_core \<subseteq> {demo_parent 8, raw_tx demo_init}"
proof -
  have "hex_decode demo_externals ''08'' = Some [8]" "hex_decode demo_externals ''01'' = Some [1]" by code_simp+
  then show ?thesis
    by (auto simp: known_txs_def init_core_def demo_core_def answered_def ok_or_def demo_bitcoin_def raw_block_def)
qed

lemma init_core_fixes: "txids_fix_outputs demo_bitcoin (\<Union>t :: nat. known_txs demo_externals demo_bitcoin init_core)"
proof -
  have "compute_txid demo_bitcoin (demo_parent 8) = demo_hash 8" "compute_txid demo_bitcoin (raw_tx demo_init) = demo_hash 1"
      "demo_hash 8 \<noteq> demo_hash 1" "demo_hash 8 \<noteq> hash32_ZERO" "demo_hash 1 \<noteq> hash32_ZERO"
    by code_simp+
  then have "txids_fix_outputs demo_bitcoin {demo_parent 8, raw_tx demo_init}"
    by (auto simp: txids_fix_outputs_def)
  then show ?thesis using init_core_known unfolding txids_fix_outputs_def by blast
qed

lemma core_pass:
  "run_once demo_externals demo_serde core_world demo_release (demo_node fresh_state fresh_db) =
     (\<lparr>nd_state = init_state, nd_db = init_db\<lparr>mempool_overlay := []\<rparr>, nd_clock = 7\<rparr>, Ok ())"
proof -
  have "src_block core_world t 100 = Some init_block" for t
    by (simp add: core_world_def core_source_def answer_Some_iff init_core_block)
  moreover have "src_status core_world = src_status demo_world" "src_best_height core_world = src_best_height demo_world"
      "src_transaction_height core_world = src_transaction_height demo_world" "src_mempool core_world = src_mempool demo_world"
      "db_outage core_world = db_outage demo_world"
    by (simp_all add: core_world_def)
  ultimately show ?thesis
    by (simp add: run_once_def demo_node_def ask_def demo_world_def ok_or_def ready_for_def demo_tips
        reconcile_reorg.simps first_height_def demo_heights apply_one_def demo_apply on_store_def
        init_db_stored refresh_mempool_def replace_mempool_def transact_def)
qed

end
