(* ===== verification/Resolver_Properties.thy ===== *)
theory Resolver_Properties
  imports Concrete_Core
begin

text \<open>
  Properties of the Bitcoin Core source, and of the whole path from Core's answers through the
  reducer to the stored state.
\<close>

section \<open>Resolved blocks\<close>

text \<open>
  C35. A block the resolver returns is the block Core has at that height: Core names its hash there,
  answers with its bytes, and the view has exactly the transactions of these bytes, in order, with
  the hash and the previous hash of the header. Each input that is not null has the value and script
  of the output it names, in a transaction with exactly that id that is in the block itself or was
  returned by Core for that id, the height of that transaction (that of the block, or the one Core
  tells), and a signature flag computed against that output.
\<close>

theorem resolved_blocks_match_the_chain:
  assumes "rpc_block X B C height t = (t', Ok b)"
  shows "\<exists>block_hex raw block. call (getblockhash C t height) = Ok (hash_text B (bv_hash b)) \<and>
    call (getblock C (Suc t) (hash_text B (bv_hash b))) = Ok block_hex \<and> hex_decode X block_hex = Some raw \<and>
    deserialize_block B raw = Some block \<and> bv_hash b = compute_block_hash B (bbl_header block) \<and>
    bv_previous_hash b = bhd_prev_blockhash (bbl_header block) \<and> bv_height b = height \<and>
    list_all2 (resolved_view B (block_txs height (bbl_txdata block) \<union> shown_txs X B C)) (bbl_txdata block) (transactions b)"
  by (rule rpc_block_Ok [OF assms])

theorem resolved_blocks_match_the_chain_witness:
  "call (getblockhash init_core 0 100) = Ok (hash_text demo_bitcoin (bv_hash init_block)) \<and>
   list_all2 (resolved_view demo_bitcoin (block_txs 100 [raw_tx demo_init] \<union> shown_txs demo_externals demo_bitcoin init_core))
     [raw_tx demo_init] [demo_init]"
proof -
  have "hex_decode demo_externals ''01'' = Some [1]" by code_simp
  then show ?thesis
    using resolved_blocks_match_the_chain [OF init_core_block]
    by (auto simp: init_block_def chain_block_def init_core_def demo_core_def answered_def ok_or_def demo_bitcoin_def raw_block_def)
qed

section \<open>Consent\<close>

text \<open>The transactions by which an object moves on: MARK, ROTATE, CLOSE, and the refund.\<close>

definition moves_object :: "externals \<Rightarrow> chain_state \<Rightarrow> u64 \<Rightarrow> tx_view \<Rightarrow> object_state \<Rightarrow> bool" where
  "moves_object X s height tx ob \<longleftrightarrow>
     (\<exists>marker carrier seq c ks. validate_single X s height tx marker carrier \<in>
        {Ok (VoMark ob seq c), Ok (VoRotate ob seq ks), Ok (VoClose ob seq c)}) \<or>
     validate_refund X height tx ob = Ok ()"

lemma signatures_checked:
  "validate_mark X h tx m carrier = Ok op \<Longrightarrow> list_all signatures_valid (inputs tx)"
  "validate_rotate X h tx m carrier = Ok op \<Longrightarrow> list_all signatures_valid (inputs tx)"
  "validate_close X h tx m carrier = Ok op \<Longrightarrow> list_all signatures_valid (inputs tx)"
  "validate_refund X h tx ob = Ok u \<Longrightarrow> signatures_valid (inputs tx ! 0)"
  unfolding validate_mark_def validate_rotate_def validate_close_def validate_refund_def Let_def check_signatures_def
  by (auto simp only: res_simps split: option.splits prod.splits if_splits)

abbreviation spends_carrier :: "externals \<Rightarrow> tx_view \<Rightarrow> object_state \<Rightarrow> bool" where
  "spends_carrier X tx ob \<equiv>
     inputs tx \<noteq> [] \<and> carrier_keys X (inputs tx ! 0) = Some (ob_keys ob) \<and>
     signatures_valid (inputs tx ! 0) \<and> prevout (inputs tx ! 0) = ob_current_outpoint ob"

lemma transition_spends:
  "validate_mark X h tx m carrier = Ok op \<Longrightarrow> vo_object op = ob \<Longrightarrow> spends_carrier X tx ob"
  "validate_rotate X h tx m carrier = Ok op \<Longrightarrow> vo_object op = ob \<Longrightarrow> spends_carrier X tx ob"
  "validate_close X h tx m carrier = Ok op \<Longrightarrow> vo_object op = ob \<Longrightarrow> spends_carrier X tx ob"
  by (frule signatures_checked, erule validate_mark_Ok, force simp: list_all_length)
    (frule signatures_checked, erule validate_rotate_Ok, force simp: list_all_length,
     frule signatures_checked, erule validate_close_Ok, force simp: list_all_length)

lemma create_is_create: "validate_create X s h tx m = Ok op \<Longrightarrow> \<exists>ks. op = VoCreate ks"
  by (erule validate_create_Ok) blast

lemma moves_object_spends:
  assumes "moves_object X s height tx ob"
  shows "spends_carrier X tx ob"
  using assms unfolding moves_object_def
proof
  assume r: "validate_refund X height tx ob = Ok ()"
  show ?thesis by (rule validate_refund_Ok [OF r]) (use signatures_checked(4) [OF r] in auto)
next
  assume "\<exists>marker carrier seq c ks. validate_single X s height tx marker carrier \<in>
        {Ok (VoMark ob seq c), Ok (VoRotate ob seq ks), Ok (VoClose ob seq c)}"
  then obtain marker carrier op where v: "validate_single X s height tx marker carrier = Ok op"
      and op: "\<nexists>ks. op = VoCreate ks" "vo_object op = ob"
    by fastforce
  from v consider "validate_create X s height tx marker = Ok op" | "validate_mark X height tx marker carrier = Ok op"
    | "validate_rotate X height tx marker carrier = Ok op" | "validate_close X height tx marker carrier = Ok op"
    by (auto simp: validate_single_def res_simps split: if_splits opcode.splits)
  then show ?thesis
    using op create_is_create [of X s height tx marker op] transition_spends [of X height tx marker carrier op ob] by cases auto
qed

text \<open>
  C10. Whatever moves an object carries the consent of both owners: a transaction of a resolved block
  that is accepted as its MARK, ROTATE, CLOSE or refund has strict signatures of both stored keys
  over the signature hash of the transaction for the carrier it spends.
\<close>

theorem owners_sign_every_move:
  assumes "rpc_block X B C height t = (t', Ok b)" and "tx \<in> set (transactions b)"
    and "moves_object X s (bv_height b) tx ob"
  shows "\<exists>raw sighash. compute_txid B raw = tx_txid tx \<and>
    p2wsh_signature_hash B raw 0 (witness_script (ob_keys ob)) (prevout_value (inputs tx ! 0)) = Some sighash \<and>
    signed_by B sighash (witness (inputs tx ! 0) ! 1) (key0 (ob_keys ob)) \<and>
    signed_by B sighash (witness (inputs tx ! 0) ! 2) (key1 (ob_keys ob))"
proof -
  note sp = moves_object_spends [OF assms(3)]
  obtain R txs where "list_all2 (resolved_view B R) txs (transactions b)"
    using rpc_block_known [OF assms(1)] by (elim exE conjE)
  from list_all2_in_set2 [OF this assms(2)] obtain raw views where raw: "tx = view_of B raw views"
      "list_all2 (resolved_input B R raw) (enumerate_from 0 (btx_input raw)) views"
    by (auto simp: resolved_view_def)
  then have views: "inputs tx = views" "views \<noteq> []" using sp by (simp_all add: view_of_def)
  then obtain input rest where ins: "btx_input raw = input # rest" using raw(2) by (cases "btx_input raw") auto
  then have "resolved_input B R raw (0, input) (inputs tx ! 0)"
    using raw(2) views by (cases views) auto
  then obtain spent h where i: "inputs tx ! 0 = input_of B raw 0 input spent h"
    using sp by (auto simp: resolved_input_def null_input_def split: if_splits)
  note w = carrier_keys_witness [of X "inputs tx ! 0" "ob_keys ob"]
  have "\<exists>sighash. p2wsh_signature_hash B raw 0 (witness_script (ob_keys ob)) (bout_value spent) = Some sighash \<and>
      signed_by B sighash (bin_witness input ! 1) (key0 (ob_keys ob)) \<and>
      signed_by B sighash (bin_witness input ! 2) (key1 (ob_keys ob))"
    by (rule verified_carrier) (use sp w i ins in \<open>auto simp: input_of_def get_at_def\<close>)
  then show ?thesis using raw(1) i by (auto simp: view_of_def input_of_def intro!: exI [of _ raw])
qed

theorem owners_sign_every_move_witness:
  "\<exists>sighash. signed_by demo_bitcoin sighash (witness (inputs first_mark ! 0) ! 1) (key0 (ob_keys demo_object)) \<and>
     signed_by demo_bitcoin sighash (witness (inputs first_mark ! 0) ! 2) (key1 (ob_keys demo_object))"
proof -
  have "validate_single demo_externals created_state 1109 first_mark
      (marker_of 0 (MAGIC @ [1, 3, 2, 1] @ demo_namespace @ to_le_bytes (1 :: u32) @ [0, 0] @ bytes_of (demo_hash 42)))
      (Some (0, demo_object)) = Ok (VoMark demo_object 1 (demo_hash 42))"
    by code_simp
  then have "moves_object demo_externals created_state (bv_height (demo_block 1109 [first_mark])) first_mark demo_object"
    unfolding moves_object_def by (auto simp: chain_block_def)
  moreover have "first_mark \<in> set (transactions (demo_block 1109 [first_mark]))" by (simp add: chain_block_def)
  ultimately show ?thesis using owners_sign_every_move [OF mark_core_block] by blast
qed

section \<open>From Core to the stored state\<close>

text \<open>
  C9. A worker that reads its blocks from Core stores only blocks Core served, and in the stored state
  the carrier of every active object is an output on the chain that is locked to the keys stored
  for the object. Transaction ids determine outputs, no object key collides, and the transactions
  of a block come in dependency order.
\<close>

theorem stored_carriers_are_on_chain:
  assumes "src_block W = src_block (core_source X B C)" and "txids_fix_outputs B (\<Union>t. known_txs X B (C t))"
    and "serde_laws D" and "store_ok X D bnd [] s0 (nd_db nd)"
    and "run_rounds X D W release n (nd, health) = Some (nd', health')"
  shows "\<exists>js s. store_ok X D bnd js s (nd_db nd') \<and> (\<forall>(b, d)\<in>set js. served W b) \<and>
    (distinct_keys X bnd (block_txids (rev (map fst js))) \<and> (\<forall>(b, d)\<in>set js. topological (transactions b)) \<longrightarrow>
     carriers_on_chain X (chain_scripts B (\<Union>t. known_txs X B (C t))) s)"
proof -
  let ?T = "\<Union>t. known_txs X B (C t)"
  have "journal_served X D bnd W nd" using assms(3,4) by (force simp: journal_served_def store_holds_def)
  then obtain js s where js: "store_ok X D bnd js s (nd_db nd')" "\<forall>(b, d)\<in>set js. served W b"
    using origin.R_run_rounds [OF assms(5), of bnd] by (auto simp: journal_served_def store_holds_def)
  have "list_all (resolved_tx (chain_scripts B ?T)) (transactions b)" if sv: "served W b" for b
  proof -
    obtain t h t' where b: "rpc_block X B (C t) h 0 = (t', Ok b)"
      using sv unfolding served_def assms(1) by (auto simp: core_source_def answer_Some_iff) (metis prod.collapse)
    obtain R txs where k: "rt_transaction ` R \<subseteq> known_txs X B (C t)" "set txs \<subseteq> known_txs X B (C t)"
        and views: "list_all2 (resolved_view B R) txs (transactions b)"
      using rpc_block_known [OF b] by (elim exE conjE)
    have T: "known_txs X B (C t) \<subseteq> ?T" by (rule UN_upper) simp
    note r = subset_trans [OF k(1) T] subset_trans [OF k(2) T] views
    show ?thesis
      unfolding list_all_iff
    proof
      fix view
      assume "view \<in> set (transactions b)"
      then obtain tx where "tx \<in> set txs" "resolved_view B R tx view" using list_all2_in_set2 [OF r(3)] by blast
      then show "resolved_tx (chain_scripts B ?T) view" using resolved_view_tx [OF assms(2) _ r(1)] r(2) by blast
    qed
  qed
  then show ?thesis
    using js journal_carriers [OF store_okD(2) [OF js(1)]] by (intro exI [of _ js] exI [of _ s]) fastforce
qed

theorem stored_carriers_are_on_chain_witness:
  "\<exists>js s. demo_store_ok js s (init_db\<lparr>mempool_overlay := []\<rparr>) \<and> (\<forall>(b, d)\<in>set js. served core_world b)"
proof -
  let ?h = "\<lparr>last_successful_height = None, last_error = None, catching_up = False\<rparr>"
  have "run_rounds demo_externals demo_serde core_world demo_release 1 (demo_node fresh_state fresh_db, ?h) =
      Some (\<lparr>nd_state = init_state, nd_db = init_db\<lparr>mempool_overlay := []\<rparr>, nd_clock = 7\<rparr>,
            ?h\<lparr>last_successful_height := Some 100\<rparr>)"
    by (simp add: run_round_def core_pass demo_tips)
  from stored_carriers_are_on_chain [OF _ init_core_fixes demo_serde_laws _ this, of demo_binding fresh_state]
  show ?thesis using fresh_db_ok by (force simp: core_world_def demo_node_def)
qed

end
