(* ===== verification/Cli.thy ===== *)
theory Cli
  imports Chain_Runs Rust_Text Serde
begin

text \<open>
  The command line, \<open>crates/tandem-cli/src/main.rs\<close>: verification of the locked inputs and of the
  golden vectors, and the replay of resolved blocks. JSON values have the accessors of
  \<open>serde_json::Value\<close>: indexing a value that is no object, or has no such key, gives null. The
  parsed documents and the contents of files are arguments, \<open>None\<close> where reading or parsing
  failed; an error carries its message without the interpolated values. Paths are Unix paths.
\<close>

datatype cli_error = Failure string

definition ensure :: "bool \<Rightarrow> string \<Rightarrow> (cli_error, unit) res" where
  "ensure c message = (if c then Ok () else Err (Failure message))"

lemma ensure_iffs [res_simps]:
  "ensure c m = Ok u \<longleftrightarrow> c" "ensure c m = Err e \<longleftrightarrow> \<not> c \<and> e = Failure m" "ensure c m \<noteq> Panic"
  by (auto simp: ensure_def)

section \<open>Locked inputs\<close>

datatype component = RootDir | CurDir | ParentDir | Normal string

definition is_absolute :: "string \<Rightarrow> bool" where
  "is_absolute path = (get_at path 0 = Some CHR ''/'')"

text \<open>\<open>Path::components\<close>: empty segments vanish, and a dot except in front.\<close>

definition segment_component :: "nat \<times> string \<Rightarrow> component list" where
  "segment_component = (\<lambda>(i, seg).
     if seg = [] then []
     else if seg = ''.'' then (if i = 0 then [CurDir] else [])
     else if seg = ''..'' then [ParentDir]
     else [Normal seg])"

definition components :: "string \<Rightarrow> component list" where
  "components path =
     (if is_absolute path then [RootDir] else [])
     @ concat (map segment_component (enumerate_from 0 (split_on CHR ''/'' path)))"

fun is_normal :: "component \<Rightarrow> bool" where
  "is_normal (Normal _) = True"
| "is_normal _ = False"

record input_lock =
  il_schema :: string
  il_inputs :: "(string \<times> hash32) list"

record input_report =
  ir_files_verified :: nat
  ir_hashes :: "(string \<times> hash32) list"

text \<open>The entries come in the order of the \<open>BTreeMap\<close>; \<open>read\<close> gives the contents of a file under the root.\<close>

fun verify_entries ::
    "externals \<Rightarrow> (string \<Rightarrow> bytes option) \<Rightarrow> (string \<times> hash32) list \<Rightarrow> (cli_error, (string \<times> hash32) list) res" where
  "verify_entries X read [] = Ok []"
| "verify_entries X read ((relative, expected) # rest) =
     res_bind (ensure (\<not> is_absolute relative \<and> list_all is_normal (components relative))
       ''unsafe protocol input path'') (\<lambda>_.
     res_bind (ok_or (Failure ''cannot read protocol input'') (read relative)) (\<lambda>content.
     let actual = hash32_sha256 X content in
     res_bind (ensure (actual = expected) ''protocol input hash mismatch'') (\<lambda>_.
     res_bind (verify_entries X read rest) (\<lambda>hashes. Ok ((relative, actual) # hashes)))))"

definition verify_inputs ::
    "externals \<Rightarrow> input_lock option option \<Rightarrow> (string \<Rightarrow> bytes option) \<Rightarrow> (cli_error, input_report) res" where
  "verify_inputs X lock_file read =
     res_bind (ok_or (Failure ''cannot read protocol input lock'') lock_file) (\<lambda>parsed.
     res_bind (ok_or (Failure ''invalid protocol input lock'') parsed) (\<lambda>lock.
     res_bind (ensure (il_schema lock = ''urn:tandem:rust-protocol-input-lock'') ''wrong protocol input lock schema'') (\<lambda>_.
     res_bind (ensure (il_inputs lock \<noteq> []) ''protocol input lock is empty'') (\<lambda>_.
     res_bind (verify_entries X read (il_inputs lock)) (\<lambda>hashes.
     Ok \<lparr>ir_files_verified = length hashes, ir_hashes = hashes\<rparr>)))))"

section \<open>JSON values\<close>

fun at_key :: "json \<Rightarrow> string \<Rightarrow> json" where
  "at_key (JObject members) k = (case map_of members k of None \<Rightarrow> JNull | Some v \<Rightarrow> v)"
| "at_key _ k = JNull"

fun at_index :: "json \<Rightarrow> nat \<Rightarrow> json" where
  "at_index (JArray xs) i = (case get_at xs i of None \<Rightarrow> JNull | Some v \<Rightarrow> v)"
| "at_index _ i = JNull"

fun as_str :: "json \<Rightarrow> string option" where
  "as_str (JString s) = Some s"
| "as_str _ = None"

fun as_array :: "json \<Rightarrow> json list option" where
  "as_array (JArray xs) = Some xs"
| "as_array _ = None"

fun as_u64 :: "json \<Rightarrow> nat option" where
  "as_u64 (JInt n) = (if 0 \<le> n \<and> n < 2 ^ 64 then Some (nat n) else None)"
| "as_u64 _ = None"

definition text_at :: "json \<Rightarrow> string \<Rightarrow> string \<Rightarrow> (cli_error, string) res" where
  "text_at v k message = ok_or (Failure message) (as_str (at_key v k))"

abbreviation hex_bytes :: "externals \<Rightarrow> string \<Rightarrow> (cli_error, bytes) res" where
  "hex_bytes X text \<equiv> ok_or (Failure ''invalid hexadecimal'') (hex_decode X text)"

definition parse_json_hash :: "externals \<Rightarrow> json \<Rightarrow> (cli_error, hash32) res" where
  "parse_json_hash X v =
     res_bind (ok_or (Failure ''expected hexadecimal hash'') (as_str v)) (\<lambda>text.
     map_err (\<lambda>_. Failure ''invalid hash'') (hash32_from_hex X text))"

definition parse_hash_array :: "externals \<Rightarrow> json \<Rightarrow> (cli_error, hash32 list) res" where
  "parse_hash_array X v =
     res_bind (ok_or (Failure ''expected hash array'') (as_array v)) (\<lambda>xs.
     res_collect (map (parse_json_hash X) xs))"

section \<open>Golden vectors\<close>

definition vector_root :: "externals \<Rightarrow> string \<Rightarrow> hash32 \<Rightarrow> hash32" where
  "vector_root X filename fixture_hash =
     hash32_sha256 X (ascii ''TANDEM/VECTOR-ROOT'' @ [0] @ ascii filename @ [0] @ bytes_of fixture_hash)"

definition verify_identity :: "externals \<Rightarrow> json \<Rightarrow> hash32 \<Rightarrow> (cli_error, unit) res" where
  "verify_identity X fixture sh =
     (let identity = at_key fixture ''identity'' in
      res_bind (text_at identity ''protocolId'' ''missing protocol id'') (\<lambda>pid.
      let protocol_parts = split_on CHR '':'' pid in
      res_bind (ensure (length protocol_parts = 3 \<and> take 2 protocol_parts = [''tndm'', ''regtest'']) ''invalid protocol id'') (\<lambda>_.
      res_bind (map_err (\<lambda>_. Failure ''invalid INIT txid'') (wire_hash X (protocol_parts ! 2))) (\<lambda>txid.
      let b = \<lparr>bnd_network = Regtest, init_txid = txid, spec_hash = sh\<rparr> in
      res_bind (ensure (protocol_id X b = pid) ''protocol id derivation mismatch'') (\<lambda>_.
      res_bind (parse_json_hash X (at_key identity ''namespace'')) (\<lambda>expected_namespace.
      res_bind (ensure (namespace X b = expected_namespace) ''namespace derivation mismatch'') (\<lambda>_.
      res_bind (text_at identity ''objectDisplayId'' ''missing object display id'') (\<lambda>display_id.
      let object_parts = split_on CHR '':'' display_id in
      res_bind (ensure (length object_parts = 5 \<and> take 2 object_parts = [''tandem'', ''regtest''] \<and>
          object_parts ! 2 = protocol_parts ! 2 \<and> object_parts ! 4 = ''1'') ''invalid object display id'') (\<lambda>_.
      res_bind (parse_json_hash X (at_key identity ''objectKey'')) (\<lambda>expected_object.
      res_bind (map_err (\<lambda>_. Failure ''invalid CREATE txid'') (wire_hash X (object_parts ! 3))) (\<lambda>create_txid.
      ensure (object_key X expected_namespace create_txid = expected_object) ''object key derivation mismatch'')))))))))))"

definition operation_opcode :: "string \<Rightarrow> (cli_error, opcode) res" where
  "operation_opcode name =
     (if name = ''INIT'' then Ok OpInit
      else if name = ''CREATE'' then Ok OpCreate
      else if name = ''MARK'' then Ok OpMark
      else if name = ''ROTATE'' then Ok OpRotate
      else if name = ''CLOSE'' then Ok OpClose
      else Err (Failure ''unknown marker operation''))"

definition verify_marker :: "externals \<Rightarrow> json \<Rightarrow> (cli_error, unit) res" where
  "verify_marker X marker =
     res_bind (text_at marker ''scriptHex'' ''missing marker script'') (\<lambda>text.
     res_bind (hex_bytes X text) (\<lambda>script.
     res_bind (ok_or (Failure ''marker was not detected'') (find_marker_candidate script 0)) (\<lambda>candidate.
     res_bind (map_err (\<lambda>_. Failure ''marker parse failed'') (parse candidate)) (\<lambda>parsed.
     res_bind (text_at marker ''operation'' ''missing marker operation'') (\<lambda>name.
     res_bind (operation_opcode name) (\<lambda>expected.
     res_bind (ensure (pm_opcode parsed = Some expected) ''marker opcode mismatch'') (\<lambda>_.
     res_bind (ensure (length (pm_payload parsed) = payload_len expected) ''marker payload length mismatch'') (\<lambda>_.
     res_bind (ok_or (Failure ''missing script size'') (as_u64 (at_key marker ''scriptBytes''))) (\<lambda>script_bytes.
     res_bind (ensure (length script = script_bytes) ''marker script size mismatch'') (\<lambda>_.
     res_bind (ok_or (Failure ''missing payload size'') (as_u64 (at_key marker ''payloadBytes''))) (\<lambda>payload_bytes.
     ensure (length (pm_payload parsed) = payload_bytes) ''marker payload size mismatch'')))))))))))"

definition verify_markers :: "externals \<Rightarrow> json \<Rightarrow> (cli_error, nat) res" where
  "verify_markers X fixture =
     res_bind (ok_or (Failure ''missing marker vectors'') (as_array (at_key fixture ''markers''))) (\<lambda>markers.
     res_bind (res_collect (map (verify_marker X) markers)) (\<lambda>_. Ok (length markers)))"

definition verify_carrier :: "externals \<Rightarrow> json \<Rightarrow> (cli_error, unit) res" where
  "verify_carrier X fixture =
     (let carrier = at_key fixture ''carrier'' in
      res_bind (text_at carrier ''key0'' ''missing key0'') (\<lambda>t0.
      res_bind (map_err (\<lambda>_. Failure ''invalid key0'') (key33_from_hex X t0)) (\<lambda>k0.
      res_bind (text_at carrier ''key1'' ''missing key1'') (\<lambda>t1.
      res_bind (map_err (\<lambda>_. Failure ''invalid key1'') (key33_from_hex X t1)) (\<lambda>k1.
      res_bind (ok_or (Failure ''invalid carrier key pair'') (checked X k0 k1)) (\<lambda>pair.
      res_bind (ensure (at_key carrier ''witnessScript'' = JString (hex_encode X (witness_script pair)))
        ''witness script mismatch'') (\<lambda>_.
      ensure (at_key carrier ''scriptPubKey'' = JString (hex_encode X (carrier_script X pair)))
        ''carrier scriptPubKey mismatch'')))))))"

definition verify_leaf :: "externals \<Rightarrow> json \<Rightarrow> (cli_error, unit) res" where
  "verify_leaf X leaf =
     res_bind (text_at leaf ''preimageHex'' ''missing preimage'') (\<lambda>text.
     res_bind (hex_bytes X text) (\<lambda>preimage.
     res_bind (parse_json_hash X (at_key leaf ''leafHex'')) (\<lambda>expected.
     ensure (hash32_sha256 X preimage = expected) ''leaf digest mismatch'')))"

definition verify_preimage_leaves :: "externals \<Rightarrow> json \<Rightarrow> (cli_error, nat) res" where
  "verify_preimage_leaves X v =
     res_bind (ok_or (Failure ''missing root leaves'') (as_array v)) (\<lambda>leaves.
     res_bind (res_collect (map (verify_leaf X) leaves)) (\<lambda>_. Ok (length leaves)))"

fun parents_match :: "externals \<Rightarrow> bytes \<Rightarrow> hash32 list \<Rightarrow> hash32 list \<Rightarrow> bool" where
  "parents_match X domain (a # b # children) (p # parents) \<longleftrightarrow>
     hash32_sha256 X (domain @ bytes_of a @ bytes_of b) = p \<and> parents_match X domain children parents"
| "parents_match X domain _ _ \<longleftrightarrow> True"

text \<open>One window of two adjacent levels.\<close>

definition verify_level :: "externals \<Rightarrow> bytes \<Rightarrow> json \<Rightarrow> json \<Rightarrow> (cli_error, unit) res" where
  "verify_level X domain lower upper =
     res_bind (parse_hash_array X lower) (\<lambda>children.
     res_bind (parse_hash_array X upper) (\<lambda>parents.
     let padded = (if length children mod 2 = 1 then children @ [last children] else children) in
     res_bind (ensure (length parents = length padded div 2) ''Merkle level width mismatch'') (\<lambda>_.
     ensure (parents_match X domain padded parents) ''Merkle parent mismatch'')))"

fun verify_windows :: "externals \<Rightarrow> bytes \<Rightarrow> json list \<Rightarrow> (cli_error, unit) res" where
  "verify_windows X domain (lower # upper # levels) =
     res_bind (verify_level X domain lower upper) (\<lambda>_. verify_windows X domain (upper # levels))"
| "verify_windows X domain _ = Ok ()"

definition verify_merkle_levels :: "externals \<Rightarrow> json \<Rightarrow> bytes \<Rightarrow> hash32 \<Rightarrow> (cli_error, hash32) res" where
  "verify_merkle_levels X v domain expected_root =
     res_bind (ok_or (Failure ''missing Merkle levels'') (as_array v)) (\<lambda>levels.
     res_bind (ensure (levels \<noteq> []) ''empty Merkle level list'') (\<lambda>_.
     res_bind (verify_windows X domain levels) (\<lambda>_.
     res_bind (parse_hash_array X (last levels)) (\<lambda>top.
     res_bind (ok_or (Failure ''root level is empty'') (get_at top 0)) (\<lambda>root.
     res_bind (ensure (root = expected_root) ''reported Merkle root mismatch'') (\<lambda>_. Ok root))))))"

fun count_snapshots :: "externals \<Rightarrow> json list \<Rightarrow> u64 \<Rightarrow> u64 \<Rightarrow> (cli_error, u64 \<times> u64) res" where
  "count_snapshots X [] founding active_count = Ok (founding, active_count)"
| "count_snapshots X (snapshot # rest) founding active_count =
     res_bind (text_at snapshot ''preimageHex'' ''missing snapshot preimage'') (\<lambda>text.
     res_bind (hex_bytes X text) (\<lambda>preimage.
     res_bind (index_at preimage (20 + 32)) (\<lambda>flag.
     res_bind (plain_add founding (ucast flag)) (\<lambda>founding'.
     res_bind (index_at preimage (20 + 33)) (\<lambda>status.
     res_bind (plain_add active_count (if status = 0 then 1 else 0)) (\<lambda>active_count'.
     count_snapshots X rest founding' active_count'))))))"

definition verify_block_root :: "externals \<Rightarrow> json \<Rightarrow> hash32 \<Rightarrow> hash32 \<Rightarrow> (cli_error, hash32) res" where
  "verify_block_root X fixture ev_root ob_root =
     (let roots = at_key fixture ''roots'' in
      res_bind (parse_json_hash X (at_key (at_key fixture ''identity'') ''namespace'')) (\<lambda>ns.
      res_bind (parse_json_hash X (at_key roots ''initialStateRoot'')) (\<lambda>initial_root.
      res_bind (ensure (hash32_sha256 X (ascii ''TANDEM/STATE-EMPTY'' @ [0] @ bytes_of ns) = initial_root)
        ''initial state root mismatch'') (\<lambda>_.
      res_bind (text_at (at_index (at_key roots ''events'') 0) ''preimageHex'' ''missing event preimage'') (\<lambda>text.
      res_bind (hex_bytes X text) (\<lambda>first_preimage.
      res_bind (slice_at first_preimage (13 + 32) (13 + 64)) (\<lambda>hash_bytes.
      res_bind (slice_at first_preimage (13 + 64) (13 + 72)) (\<lambda>height_bytes.
      res_bind (ok_or (Failure ''missing snapshots'') (as_array (at_key roots ''snapshots''))) (\<lambda>snapshots.
      res_bind (count_snapshots X snapshots 0 0) (\<lambda>(founding, active_count).
      let calculated = block_root X ns initial_root (array_of hash_bytes) (from_le_bytes height_bytes) ev_root ob_root
            \<lparr>founding_created = founding, all_objects = word_of_nat (length snapshots), active_objects = active_count\<rparr> in
      res_bind (parse_json_hash X (at_key roots ''chainedBlockRoot'')) (\<lambda>expected.
      res_bind (ensure (calculated = expected) ''chained block root mismatch'') (\<lambda>_. Ok calculated))))))))))))"

record vector_manifest =
  vm_schema :: string
  vm_specification :: string
  vm_spec_hash :: hash32
  vm_fixture_file :: string
  vm_fixture_sha256 :: hash32
  vm_vector_root :: hash32

record vector_report =
  vr_spec_hash :: hash32
  vr_fixture_sha256 :: hash32
  vr_vector_root :: hash32
  vr_markers_verified :: nat
  vr_event_leaves_verified :: nat
  vr_object_leaves_verified :: nat
  vr_event_root :: hash32
  vr_object_state_root :: hash32
  vr_chained_root :: hash32

text \<open>
  What the command reads: the manifest (\<open>None\<close> unreadable, \<open>Some None\<close> malformed), the
  specification, whether the manifest's path has a parent, and the fixture file there, as bytes and
  as JSON.
\<close>

record vector_files =
  vf_manifest :: "vector_manifest option option"
  vf_spec :: "bytes option"
  vf_has_parent :: bool
  vf_fixture :: "bytes option"
  vf_fixture_json :: "json option"

definition verify_vectors :: "externals \<Rightarrow> vector_files \<Rightarrow> (cli_error, vector_report) res" where
  "verify_vectors X files =
     res_bind (ok_or (Failure ''cannot read vector manifest'') (vf_manifest files)) (\<lambda>parsed.
     res_bind (ok_or (Failure ''invalid vector manifest'') parsed) (\<lambda>manifest.
     res_bind (ensure (vm_schema manifest = ''urn:tandem:golden-vector-manifest'') ''wrong vector manifest schema'') (\<lambda>_.
     res_bind (ensure (vm_specification manifest = ''tandem.md'') ''unexpected specification filename'') (\<lambda>_.
     res_bind (ensure (vm_fixture_file manifest = ''golden.json'') ''unexpected fixture filename'') (\<lambda>_.
     res_bind (ok_or (Failure ''cannot read specification'') (vf_spec files)) (\<lambda>spec_bytes.
     let sh = hash32_sha256 X spec_bytes in
     res_bind (ensure (sh = vm_spec_hash manifest) ''specification digest mismatch'') (\<lambda>_.
     res_bind (ensure (vf_has_parent files) ''manifest has no parent directory'') (\<lambda>_.
     res_bind (ok_or (Failure ''cannot read fixture file'') (vf_fixture files)) (\<lambda>fixture_bytes.
     let fixture_hash = hash32_sha256 X fixture_bytes in
     res_bind (ensure (fixture_hash = vm_fixture_sha256 manifest) ''fixture digest mismatch'') (\<lambda>_.
     let vroot = vector_root X (vm_fixture_file manifest) fixture_hash in
     res_bind (ensure (vroot = vm_vector_root manifest) ''vector root mismatch'') (\<lambda>_.
     res_bind (ok_or (Failure ''invalid fixture JSON'') (vf_fixture_json files)) (\<lambda>fixture.
     res_bind (ensure (at_key fixture ''schema'' = JString ''urn:tandem:golden-fixtures'') ''wrong fixture schema'') (\<lambda>_.
     res_bind (ensure (at_key fixture ''specHash'' = JString (hash32_to_hex X sh)) ''fixture spec hash mismatch'') (\<lambda>_.
     res_bind (verify_identity X fixture sh) (\<lambda>_.
     res_bind (verify_markers X fixture) (\<lambda>markers_verified.
     res_bind (verify_carrier X fixture) (\<lambda>_.
     let roots = at_key fixture ''roots'' in
     res_bind (verify_preimage_leaves X (at_key roots ''events'')) (\<lambda>event_leaves.
     res_bind (verify_preimage_leaves X (at_key roots ''snapshots'')) (\<lambda>object_leaves.
     res_bind (parse_json_hash X (at_key roots ''eventRoot'')) (\<lambda>expected_event_root.
     res_bind (verify_merkle_levels X (at_key roots ''eventMerkleLevels'') (ascii ''TANDEM/EVENT-NODE'' @ [0])
       expected_event_root) (\<lambda>ev_root.
     res_bind (parse_json_hash X (at_key roots ''objectStateRoot'')) (\<lambda>expected_object_root.
     res_bind (verify_merkle_levels X (at_key roots ''objectMerkleLevels'') (ascii ''TANDEM/OBJECT-NODE'' @ [0])
       expected_object_root) (\<lambda>ob_root.
     res_bind (verify_block_root X fixture ev_root ob_root) (\<lambda>chained.
     Ok \<lparr>vr_spec_hash = sh, vr_fixture_sha256 = fixture_hash, vr_vector_root = vroot,
         vr_markers_verified = markers_verified, vr_event_leaves_verified = event_leaves,
         vr_object_leaves_verified = object_leaves, vr_event_root = ev_root,
         vr_object_state_root = ob_root, vr_chained_root = chained\<rparr>))))))))))))))))))))))))"

section \<open>Replay\<close>

record replay_input =
  ri_binding :: binding
  ri_blocks :: "block_view list"
  ri_expected_roots :: "height_roots list"

text \<open>The derived reader; \<open>expected_roots\<close> may be missing.\<close>

definition default_field :: "string \<Rightarrow> 'a \<Rightarrow> (json \<Rightarrow> 'a option) \<Rightarrow> json \<Rightarrow> 'a option" where
  "default_field k d from_json v =
     (case v of JObject ms \<Rightarrow> (case map_of ms k of None \<Rightarrow> Some d | Some w \<Rightarrow> from_json w) | _ \<Rightarrow> None)"

definition replay_input_from_json :: "externals \<Rightarrow> json \<Rightarrow> replay_input option" where
  "replay_input_from_json X v = do {
     binding' \<leftarrow> field ''binding'' (binding_from_json X) v;
     blocks' \<leftarrow> field ''blocks'' (list_from_json (block_view_from_json X)) v;
     expected_roots' \<leftarrow> default_field ''expected_roots'' [] (list_from_json (height_roots_from_json X)) v;
     Some \<lparr>ri_binding = binding', ri_blocks = blocks', ri_expected_roots = expected_roots'\<rparr>
   }"

record replay_report =
  rp_protocol_id :: string
  rp_heights :: "height_roots list"
  rp_event_counts :: "nat list"
  rp_final_state :: chain_state

fun replay_blocks ::
    "externals \<Rightarrow> height_roots list \<Rightarrow> (nat \<times> block_view) list \<Rightarrow> chain_state
      \<Rightarrow> (cli_error, chain_state \<times> height_roots list \<times> nat list) res" where
  "replay_blocks X expected_roots [] s = Ok (s, [], [])"
| "replay_blocks X expected_roots ((index, block) # rest) s =
     (let (s', applied) = apply_block X s block in
      res_bind (map_err (\<lambda>_. Failure ''replay failed'') applied) (\<lambda>delta.
      res_bind (case get_at expected_roots index of
                  None \<Rightarrow> Ok ()
                | Some expected \<Rightarrow> ensure (bd_roots delta = expected) ''root mismatch'') (\<lambda>_.
      res_bind (replay_blocks X expected_roots rest s') (\<lambda>(final, heights, counts).
      Ok (final, bd_roots delta # heights, length (bd_events delta) # counts)))))"

definition cli_replay :: "externals \<Rightarrow> replay_input option option \<Rightarrow> (cli_error, replay_report) res" where
  "cli_replay X file =
     res_bind (ok_or (Failure ''cannot read replay input'') file) (\<lambda>parsed.
     res_bind (ok_or (Failure ''invalid replay JSON'') parsed) (\<lambda>input.
     res_bind (replay_blocks X (ri_expected_roots input) (enumerate_from 0 (ri_blocks input))
       (chain_state_new X (ri_binding input))) (\<lambda>(final, heights, counts).
     res_bind (ensure (ri_expected_roots input = [] \<or> length (ri_expected_roots input) = length heights)
       ''expected root list length differs from block list'') (\<lambda>_.
     Ok \<lparr>rp_protocol_id = protocol_id X (binding_of final), rp_heights = heights, rp_event_counts = counts,
         rp_final_state = final\<rparr>))))"

text \<open>The derived writer of the report.\<close>

definition replay_report_to_json :: "externals \<Rightarrow> replay_report \<Rightarrow> json" where
  "replay_report_to_json X r =
     JObject [(''schema'', JString ''urn:tandem:rust-replay-report''), (''protocolId'', JString (rp_protocol_id r)),
       (''heights'', list_to_json (height_roots_to_json X) (rp_heights r)),
       (''eventCounts'', list_to_json (\<lambda>n. JInt (int n)) (rp_event_counts r)),
       (''finalState'', chain_state_to_json X (rp_final_state r))]"

section \<open>The command line\<close>

text \<open>
  The arguments as \<open>clap\<close> delivers them. What a path leads to is the parameter \<open>F\<close>: the files of the
  vectors for a manifest and a specification, a lock file, the file at a path under a root, and a
  replay document. A command that succeeds prints the JSON value of its report.
\<close>

datatype command = VerifyVectors string string | VerifyInputs string string | Replay string

record file_system =
  fs_vectors :: "string \<Rightarrow> string \<Rightarrow> vector_files"
  fs_lock :: "string \<Rightarrow> input_lock option option"
  fs_under :: "string \<Rightarrow> string \<Rightarrow> bytes option"
  fs_document :: "string \<Rightarrow> json option option"

definition input_report_to_json :: "externals \<Rightarrow> input_report \<Rightarrow> json" where
  "input_report_to_json X r =
     JObject [(''schema'', JString ''urn:tandem:rust-input-verification-report''),
       (''filesVerified'', JInt (int (ir_files_verified r))),
       (''hashes'', JObject (map (\<lambda>(path, h). (path, hash32_serialize X h)) (ir_hashes r)))]"

definition vector_report_to_json :: "externals \<Rightarrow> vector_report \<Rightarrow> json" where
  "vector_report_to_json X r =
     JObject [(''schema'', JString ''urn:tandem:rust-vector-report''),
       (''specHash'', hash32_serialize X (vr_spec_hash r)),
       (''fixtureSha256'', hash32_serialize X (vr_fixture_sha256 r)),
       (''vectorRoot'', hash32_serialize X (vr_vector_root r)),
       (''markersVerified'', JInt (int (vr_markers_verified r))),
       (''eventLeavesVerified'', JInt (int (vr_event_leaves_verified r))),
       (''objectLeavesVerified'', JInt (int (vr_object_leaves_verified r))),
       (''eventRoot'', hash32_serialize X (vr_event_root r)),
       (''objectStateRoot'', hash32_serialize X (vr_object_state_root r)),
       (''chainedRoot'', hash32_serialize X (vr_chained_root r))]"

fun cli_main :: "externals \<Rightarrow> file_system \<Rightarrow> command \<Rightarrow> (cli_error, json) res" where
  "cli_main X F (VerifyVectors m spec) =
     res_bind (verify_vectors X (fs_vectors F m spec)) (\<lambda>r. Ok (vector_report_to_json X r))"
| "cli_main X F (VerifyInputs l root) =
     res_bind (verify_inputs X (fs_lock F l) (fs_under F root)) (\<lambda>r. Ok (input_report_to_json X r))"
| "cli_main X F (Replay path) =
     res_bind (cli_replay X (map_option (\<lambda>doc. Option.bind doc (replay_input_from_json X)) (fs_document F path)))
       (\<lambda>r. Ok (replay_report_to_json X r))"

end
