(* ===== verification/Cli_Properties.thy ===== *)
theory Cli_Properties
  imports Cli Store_Invariant Concrete_Chain
begin

text \<open>Properties of the command line: the replay, the Merkle check and the check of locked inputs.\<close>

section \<open>Replay\<close>

lemma enumerate_from_snoc: "enumerate_from n (xs @ [x]) = enumerate_from n xs @ [(n + length xs, x)]"
  by (induction xs arbitrary: n) auto

definition root_ok :: "height_roots list \<Rightarrow> nat \<Rightarrow> block_delta \<Rightarrow> bool" where
  "root_ok er i d \<longleftrightarrow> (case get_at er i of None \<Rightarrow> True | Some r \<Rightarrow> bd_roots d = r)"

lemma root_check_iff:
  "(case get_at er i of None \<Rightarrow> Ok () | Some r \<Rightarrow> ensure (bd_roots d = r) m) = Ok u \<longleftrightarrow> root_ok er i d"
  by (simp add: root_ok_def res_simps split: option.split)

lemma replay_blocks_Cons:
  "replay_blocks X er ((i, b) # rest) s0 = Ok (s, hs, cs) \<longleftrightarrow>
     (\<exists>t d hs' cs'. apply_block X s0 b = (t, Ok d) \<and> root_ok er i d \<and>
        replay_blocks X er rest t = Ok (s, hs', cs') \<and> hs = bd_roots d # hs' \<and> cs = length (bd_events d) # cs')"
proof -
  obtain t r where a: "apply_block X s0 b = (t, r)" by force
  show ?thesis by (cases r) (auto simp: a res_simps root_check_iff)
qed

lemma replay_blocks_snoc:
  "replay_blocks X er (xs @ [(i, b)]) s0 = Ok (s, hs, cs) \<longleftrightarrow>
     (\<exists>t d hs' cs'. replay_blocks X er xs s0 = Ok (t, hs', cs') \<and> apply_block X t b = (s, Ok d) \<and> root_ok er i d \<and>
        hs = hs' @ [bd_roots d] \<and> cs = cs' @ [length (bd_events d)])"
proof (induction xs arbitrary: s0 hs cs)
  case Nil
  show ?case by (simp only: append_Nil replay_blocks_Cons) auto
next
  case (Cons x xs)
  obtain j c where x: "x = (j, c)" by (cases x)
  show ?case unfolding x append_Cons replay_blocks_Cons Cons.IH by fastforce
qed

definition journal_roots :: "(block_view \<times> block_delta) list \<Rightarrow> height_roots list" where
  "journal_roots js = rev (map (\<lambda>(b, d). bd_roots d) js)"

definition journal_counts :: "(block_view \<times> block_delta) list \<Rightarrow> nat list" where
  "journal_counts js = rev (map (\<lambda>(b, d). length (bd_events d)) js)"

lemma take_get_at: "take (Suc n) xs = take n xs @ (case get_at xs n of None \<Rightarrow> [] | Some x \<Rightarrow> [x])"
  by (auto simp: get_at_def take_Suc_conv_app_nth)

text \<open>The replayed blocks are a journal, and its roots agree with the expected ones as far as these go.\<close>

lemma replay_blocks_journal:
  "replay_blocks X er (enumerate_from 0 bs) (chain_state_new X bnd) = Ok (s, hs, cs) \<longleftrightarrow>
     (\<exists>js. chain_journal X bnd js s \<and> bs = rev (map fst js) \<and> hs = journal_roots js \<and> cs = journal_counts js \<and>
        take (length bs) er = take (length er) hs)"
proof (induction bs arbitrary: s hs cs rule: rev_induct)
  case Nil
  then show ?case by (auto simp: journal_roots_def journal_counts_def)
next
  case (snoc b bs)
  let ?P = "\<lambda>js t hs' cs'. chain_journal X bnd js t \<and> bs = rev (map fst js) \<and> hs' = journal_roots js \<and>
    cs' = journal_counts js \<and> take (length bs) er = take (length er) hs'"
  have len: "length (journal_roots js) = length bs" if "bs = rev (map fst js)" for js :: "(block_view \<times> block_delta) list"
    using that by (simp add: journal_roots_def)
  have ext: "take (Suc (length bs)) er = take (length er) (hs' @ [bd_roots d]) \<longleftrightarrow>
      take (length bs) er = take (length er) hs' \<and> root_ok er (length bs) d"
    if "length hs' = length bs" for hs' d
    using that by (auto simp: take_get_at get_at_def root_ok_def)
  have "replay_blocks X er (enumerate_from 0 (bs @ [b])) (chain_state_new X bnd) = Ok (s, hs, cs) \<longleftrightarrow>
      (\<exists>js t d. chain_journal X bnd js t \<and> apply_block X t b = (s, Ok d) \<and> bs = rev (map fst js) \<and>
        hs = journal_roots js @ [bd_roots d] \<and> cs = journal_counts js @ [length (bd_events d)] \<and>
        take (Suc (length bs)) er = take (length er) (journal_roots js @ [bd_roots d]))"
    unfolding enumerate_from_snoc replay_blocks_snoc snoc.IH using ext len by (fastforce simp del: take_append)
  also have "\<dots> \<longleftrightarrow> (\<exists>js. chain_journal X bnd js s \<and> bs @ [b] = rev (map fst js) \<and> hs = journal_roots js \<and>
      cs = journal_counts js \<and> take (length (bs @ [b])) er = take (length er) hs)"
    (is "?l \<longleftrightarrow> ?r")
  proof
    assume ?l
    then obtain js t d where *: "chain_journal X bnd js t" "apply_block X t b = (s, Ok d)" "bs = rev (map fst js)"
        "hs = journal_roots js @ [bd_roots d]" "cs = journal_counts js @ [length (bd_events d)]"
        "take (Suc (length bs)) er = take (length er) (journal_roots js @ [bd_roots d])" by blast
    then show ?r
      by (intro exI [of _ "(b, d) # js"]) (auto simp: journal_roots_def journal_counts_def connect_block_iff)
  next
    assume ?r
    then obtain js' where *: "chain_journal X bnd js' s" "bs @ [b] = rev (map fst js')" "hs = journal_roots js'"
        "cs = journal_counts js'" "take (Suc (length bs)) er = take (length er) hs" by auto
    then obtain d js where js: "js' = (b, d) # js" "bs = rev (map fst js)" by (cases js') auto
    then obtain t where "chain_journal X bnd js t" "apply_block X t b = (s, Ok d)"
      using *(1) by (auto simp: connect_block_iff)
    then show ?l
      using * js by (intro exI [of _ js] exI [of _ t] exI [of _ d]) (auto simp: journal_roots_def journal_counts_def)
  qed
  finally show ?case .
qed

text \<open>
  C37. The replay command succeeds exactly on the blocks of a journal: it reports the roots and event
  counts the reducer computed for them and the state they lead to, and when roots are expected
  they are exactly these. In particular the blocks and roots a store holds are reproduced.
\<close>

theorem replay_reports_the_journal:
  "cli_replay X (Some (Some input)) = Ok report \<longleftrightarrow>
     (\<exists>js. chain_journal X (ri_binding input) js (rp_final_state report) \<and>
        ri_blocks input = rev (map fst js) \<and>
        rp_heights report = journal_roots js \<and> rp_event_counts report = journal_counts js \<and>
        rp_protocol_id report = protocol_id X (binding_of (rp_final_state report)) \<and>
        (ri_expected_roots input = [] \<or> ri_expected_roots input = journal_roots js))"
proof -
  have len: "length (journal_roots js) = length (ri_blocks input)"
    if "ri_blocks input = rev (map fst js)" for js :: "(block_view \<times> block_delta) list"
    using that by (simp add: journal_roots_def)
  have "cli_replay X (Some (Some input)) = Ok report \<longleftrightarrow>
      (\<exists>s hs cs. replay_blocks X (ri_expected_roots input) (enumerate_from 0 (ri_blocks input))
          (chain_state_new X (ri_binding input)) = Ok (s, hs, cs) \<and>
        (ri_expected_roots input = [] \<or> length (ri_expected_roots input) = length hs) \<and>
        report = \<lparr>rp_protocol_id = protocol_id X (binding_of s), rp_heights = hs, rp_event_counts = cs,
          rp_final_state = s\<rparr>)"
    by (auto simp: cli_replay_def ok_or_def res_simps)
  also have "\<dots> \<longleftrightarrow> (\<exists>js. chain_journal X (ri_binding input) js (rp_final_state report) \<and>
        ri_blocks input = rev (map fst js) \<and>
        rp_heights report = journal_roots js \<and> rp_event_counts report = journal_counts js \<and>
        rp_protocol_id report = protocol_id X (binding_of (rp_final_state report)) \<and>
        (ri_expected_roots input = [] \<or> ri_expected_roots input = journal_roots js))"
    unfolding replay_blocks_journal using len by (cases report) fastforce
  finally show ?thesis .
qed

section \<open>Merkle levels\<close>

lemma hash_pairs_short: "length xs div 2 = 0 \<Longrightarrow> hash_pairs X domain xs = []"
  by (metis length_hash_pairs length_0_conv)

lemma parents_match_hash_pairs:
  "length ps = length xs div 2 \<Longrightarrow> parents_match X domain xs ps \<longleftrightarrow> hash_pairs X domain xs = ps"
  by (induction X domain xs ps rule: parents_match.induct)
    (auto simp: node_preimage_def hash_pairs_short)

lemma verify_level_iff:
  "verify_level X domain lower upper = Ok u \<longleftrightarrow>
     (\<exists>xs. parse_hash_array X lower = Ok xs \<and> parse_hash_array X upper = Ok (hash_pairs X domain (pad_level xs)))"
  unfolding verify_level_def Let_def pad_level_def [symmetric] by (auto simp: res_simps parents_match_hash_pairs)

lemma merkle_loop_step:
  assumes "length xs \<noteq> 1"
  shows "merkle_loop X d (hash_pairs X d (pad_level xs)) = merkle_loop X d xs"
proof (cases "xs = []")
  case False
  with assms have "1 < length xs" by (cases xs) auto
  then show ?thesis by (subst (2) merkle_loop.simps) simp
qed (simp add: pad_level_def)

text \<open>Verified levels are the levels of the Merkle loop, as long as no single node is hashed again.\<close>

lemma verify_windows_levels:
  assumes "verify_windows X domain levels = Ok ()" and "levels \<noteq> []" and "parse_hash_array X (last levels) = Ok final"
  shows "\<exists>hss. list_all2 (\<lambda>v hs. parse_hash_array X v = Ok hs) levels hss \<and> last hss = final \<and>
    ((\<forall>hs\<in>set (butlast hss). length hs \<noteq> 1) \<longrightarrow> merkle_loop X domain (hd hss) = merkle_loop X domain final)"
  using assms
proof (induction X domain levels rule: verify_windows.induct)
  case (1 X domain lower upper levels)
  obtain xs where xs: "parse_hash_array X lower = Ok xs"
      "parse_hash_array X upper = Ok (hash_pairs X domain (pad_level xs))"
      and rest: "verify_windows X domain (upper # levels) = Ok ()"
    using "1.prems"(1) by (auto simp: res_simps verify_level_iff)
  have "verify_level X domain lower upper = Ok ()" using xs verify_level_iff by blast
  from "1.IH" [OF this rest] "1.prems"(3) obtain hss where
      hss: "list_all2 (\<lambda>v hs. parse_hash_array X v = Ok hs) (upper # levels) hss" "last hss = final"
        "(\<forall>hs\<in>set (butlast hss). length hs \<noteq> 1) \<longrightarrow> merkle_loop X domain (hd hss) = merkle_loop X domain final"
    by auto
  then have "hss \<noteq> []" "hd hss = hash_pairs X domain (pad_level xs)" using xs(2) by (cases hss; simp)+
  then show ?case
    using hss xs(1) merkle_loop_step [of xs X domain] by (intro exI [of _ "xs # hss"]) auto
next
  case "2_2"
  then show ?case by (intro exI [of _ "[final]"]) simp
qed simp_all

text \<open>
  Merkle levels are accepted only with the reported root at the front of the last level; when that
  level is a single node, and no other is, this root is the Merkle root that the reducer's function
  computes from the first level.
\<close>

theorem accepted_levels_give_the_root:
  assumes "verify_merkle_levels X v domain expected = Ok root"
  shows "root = expected \<and> (\<exists>levels hss. as_array v = Some levels \<and>
    list_all2 (\<lambda>v hs. parse_hash_array X v = Ok hs) levels hss \<and> root = hd (last hss) \<and>
    (length (last hss) = 1 \<and> (\<forall>hs\<in>set (butlast hss). length hs \<noteq> 1) \<longrightarrow> merkle X (hd hss) domain = (Ok root :: (unit, hash32) res)))"
proof -
  obtain levels final where l: "as_array v = Some levels" "levels \<noteq> []" "verify_windows X domain levels = Ok ()"
      "parse_hash_array X (last levels) = Ok final" "final \<noteq> []" "root = final ! 0" "root = expected"
    using assms by (auto simp: verify_merkle_levels_def res_simps ok_or_def get_at_def split: option.splits if_splits)
  obtain hss where hss: "list_all2 (\<lambda>v hs. parse_hash_array X v = Ok hs) levels hss" "last hss = final"
      "(\<forall>hs\<in>set (butlast hss). length hs \<noteq> 1) \<longrightarrow> merkle_loop X domain (hd hss) = merkle_loop X domain final"
    using verify_windows_levels [OF l(3,2,4)] by blast
  have "merkle_loop X domain final = final" if "length final = 1" using that by (simp add: merkle_loop.simps)
  then show ?thesis
    using l hss by (auto simp: merkle_def index_at_def hd_conv_nth intro!: exI [of _ hss])
qed

text \<open>Two leaves and their parent.\<close>

definition demo_text :: "hash32 \<Rightarrow> json" where
  "demo_text h = JString (hash32_to_hex demo_externals h)"

definition demo_node_hash :: hash32 where
  "demo_node_hash = hash32_sha256 demo_externals (node_preimage [0] (demo_hash 3) (demo_hash 4))"

definition demo_levels :: json where
  "demo_levels = JArray [JArray [demo_text (demo_hash 3), demo_text (demo_hash 4)], JArray [demo_text demo_node_hash]]"

theorem accepted_levels_give_the_root_witness:
  "merkle demo_externals [demo_hash 3, demo_hash 4] [0] = (Ok demo_node_hash :: (unit, hash32) res)"
proof -
  have "verify_merkle_levels demo_externals demo_levels [0] demo_node_hash = Ok demo_node_hash"
    by code_simp
  from accepted_levels_give_the_root [OF this] obtain levels hss where h: "as_array demo_levels = Some levels"
      "list_all2 (\<lambda>v hs. parse_hash_array demo_externals v = Ok hs) levels hss"
      "length (last hss) = 1 \<and> (\<forall>hs\<in>set (butlast hss). length hs \<noteq> 1) \<longrightarrow>
        merkle demo_externals (hd hss) [0] = (Ok demo_node_hash :: (unit, hash32) res)" by blast
  have p: "parse_hash_array demo_externals (JArray [demo_text (demo_hash 3), demo_text (demo_hash 4)]) =
        Ok [demo_hash 3, demo_hash 4]"
      "parse_hash_array demo_externals (JArray [demo_text demo_node_hash]) = Ok [demo_node_hash]"
    by code_simp+
  have "hss = [[demo_hash 3, demo_hash 4], [demo_node_hash]]"
    using h(1,2) by (auto simp: demo_levels_def list_all2_Cons1 p)
  then show ?thesis using h(3) by simp
qed

text \<open>
  C39. The last level need not be a single node: a list whose only level has two nodes is accepted with
  the first of them as the root, without any hashing.
\<close>

theorem unreduced_levels_are_accepted:
  assumes "hex_laws X"
  shows "verify_merkle_levels X (JArray [JArray [JString (hash32_to_hex X a), JString (hash32_to_hex X b)]]) domain a = Ok a"
  using assms
  by (simp add: verify_merkle_levels_def ok_or_def parse_hash_array_def parse_json_hash_def hash32_from_hex_def
      hash32_to_hex_def hex_laws_def get_at_def ensure_def)

theorem unreduced_levels_are_accepted_witness:
  "verify_merkle_levels demo_externals (JArray [JArray [demo_text (demo_hash 3), demo_text (demo_hash 4)]]) [0] (demo_hash 3)
     = Ok (demo_hash 3)"
  using unreduced_levels_are_accepted [OF demo_hex_laws] by (simp add: demo_text_def)

section \<open>Locked inputs\<close>

lemma safe_path_iff:
  "list_all is_normal (components p) \<longleftrightarrow>
     \<not> is_absolute p \<and> ''..'' \<notin> set (split_on CHR ''/'' p) \<and> hd (split_on CHR ''/'' p) \<noteq> ''.''"
proof -
  have seg: "list_all is_normal (segment_component (i, seg)) \<longleftrightarrow> seg \<noteq> ''..'' \<and> (i = 0 \<longrightarrow> seg \<noteq> ''.'')" for i seg
    by (auto simp: segment_component_def)
  have "list_all is_normal (concat (map segment_component (enumerate_from n segs))) \<longleftrightarrow>
      ''..'' \<notin> set segs \<and> (n = 0 \<longrightarrow> segs \<noteq> [] \<longrightarrow> hd segs \<noteq> ''.'')" for n segs
    by (induction segs arbitrary: n) (auto simp: seg)
  then show ?thesis by (auto simp: components_def)
qed

lemma verify_entries_Ok:
  "verify_entries X read entries = Ok hashes \<longleftrightarrow> hashes = entries \<and>
     list_all (\<lambda>(p, h). \<not> is_absolute p \<and> ''..'' \<notin> set (split_on CHR ''/'' p) \<and> hd (split_on CHR ''/'' p) \<noteq> ''.'' \<and>
       map_option (hash32_sha256 X) (read p) = Some h) entries"
proof (induction entries arbitrary: hashes)
  case (Cons e entries)
  obtain p h where e: "e = (p, h)" by (cases e)
  show ?case
    by (cases "read p") (auto simp: e res_simps safe_path_iff Let_def ok_or_def Cons.IH)
qed auto

text \<open>
  The input check succeeds exactly when the lock has the right schema, is not empty, and every
  entry names a file below the root, by a relative path without parent or leading current
  directory, whose SHA-256 digest is the locked one; the report lists exactly the entries.
\<close>

theorem locked_inputs_are_verified:
  "verify_inputs X (Some (Some lock)) read = Ok report \<longleftrightarrow>
     il_schema lock = ''urn:tandem:rust-protocol-input-lock'' \<and> il_inputs lock \<noteq> [] \<and>
     list_all (\<lambda>(p, h). \<not> is_absolute p \<and> ''..'' \<notin> set (split_on CHR ''/'' p) \<and> hd (split_on CHR ''/'' p) \<noteq> ''.'' \<and>
       map_option (hash32_sha256 X) (read p) = Some h) (il_inputs lock) \<and>
     report = \<lparr>ir_files_verified = length (il_inputs lock), ir_hashes = il_inputs lock\<rparr>"
  by (auto simp: verify_inputs_def ok_or_def res_simps verify_entries_Ok)

end
