(* ===== verification/Startup.thy ===== *)
theory Startup
  imports Config Signer Ingest
begin

text \<open>
  Process start-up, \<open>crates/tandem-verifier/src/main.rs\<close>, with the constructors it calls
  (\<open>Store::connect\<close>, \<open>BitcoinCoreRpc::new\<close>, \<open>Ingestion::new\<close>) and the choice of a wake-up
  source. Whether the HTTP client can be built, the pool connects and is migrated, the ZMQ socket
  connects and subscribes, and the listener can be bound are fields of the host. The state of the database is returned also beside an
  error.
\<close>

record ('u, 's) process_host = "('u, 's) host" +
  zmq_feature :: bool
  zmq_connect :: "string \<Rightarrow> bool"
  zmq_subscribe :: "string \<Rightarrow> string \<Rightarrow> bool"
  client_builds :: bool
  pool_connects :: "string \<Rightarrow> bool"
  listener_binds :: "'s \<Rightarrow> bool"

datatype startup_error =
    ConfigRejected config_error | SignerRejected signer_error | StoreUnreachable | StoreRejected store_error
  | ClientUnavailable | ZmqUnreachable | ZmqNotSubscribed | ZmqUnsupported | AddressUnavailable

datatype wakeup = PollWakeup (interval: u64) | ZmqWakeup (endpoint: string)

definition zmq_wakeup_connect :: "('u, 's) process_host \<Rightarrow> string \<Rightarrow> (startup_error, wakeup) res" where
  "zmq_wakeup_connect H url =
     (if \<not> zmq_connect H url then Err ZmqUnreachable
      else if \<not> zmq_subscribe H url ''rawblock'' then Err ZmqNotSubscribed
      else Ok (ZmqWakeup url))"

definition build_wakeup :: "('u, 's) process_host \<Rightarrow> ('u, 's) config \<Rightarrow> (startup_error, wakeup) res" where
  "build_wakeup H cfg =
     (case cfg_zmq_rawblock_url cfg of
        Some url \<Rightarrow> if zmq_feature H then zmq_wakeup_connect H url else Err ZmqUnsupported
      | None \<Rightarrow> Ok (PollWakeup (cfg_poll_interval cfg)))"

text \<open>\<open>read_to_string\<close>: the file must be UTF-8.\<close>

definition read_to_string :: "('u, 's, 'z) host_scheme \<Rightarrow> string \<Rightarrow> string option" where
  "read_to_string H path =
     (case read_file H path of
        None \<Rightarrow> None
      | Some bs \<Rightarrow> if utf8_ok bs then Some (map (\<lambda>b. char_of (unat b)) bs) else None)"

definition store_connect ::
    "externals \<Rightarrow> 'j serde \<Rightarrow> ('u, 's) process_host \<Rightarrow> outage \<Rightarrow> string \<Rightarrow> binding \<Rightarrow> 'j database
      \<Rightarrow> 'j database \<times> (startup_error, chain_state) res" where
  "store_connect X D H f url b db =
     (if pool_connects H url
      then let (db', r) = bind_or_load X D f b db in (db', map_err StoreRejected r)
      else (db, Err StoreUnreachable))"

record 'u core_client =
  cc_url :: 'u
  cc_user :: string
  cc_password :: string
  cc_request_id :: u64

definition core_new :: "('u, 's) process_host \<Rightarrow> ('u, 's) config \<Rightarrow> (startup_error, 'u core_client) res" where
  "core_new H cfg =
     (if client_builds H
      then Ok \<lparr>cc_url = cfg_bitcoin_rpc_url cfg, cc_user = cfg_bitcoin_rpc_user cfg,
               cc_password = cfg_bitcoin_rpc_password cfg, cc_request_id = 1\<rparr>
      else Err ClientUnavailable)"

text \<open>What the spawned worker and the router hold.\<close>

record ('j, 'u, 's) service =
  sv_config :: "('u, 's) config"
  sv_signer :: agreement_signer
  sv_client :: "'u core_client"
  sv_node :: "'j node"
  sv_release :: release_identity
  sv_health :: worker_health
  sv_wakeup :: wakeup

definition start ::
    "externals \<Rightarrow> 'j serde \<Rightarrow> ('u, 's) process_host \<Rightarrow> args \<Rightarrow> outage \<Rightarrow> 'j database
      \<Rightarrow> 'j database \<times> (startup_error, ('j, 'u, 's) service) res" where
  "start X D H args f db =
     (case map_err ConfigRejected (from_args X (host.truncate H) args) of
        Ok cfg \<Rightarrow>
          (case map_err SignerRejected
              (signer_load X (read_to_string H (cfg_signing_key_file cfg)) (cfg_signing_key_id cfg)) of
             Ok signer \<Rightarrow>
               let (db', connected) = store_connect X D H f (cfg_database_url cfg) (cfg_binding cfg) db in
               (db',
                res_bind connected (\<lambda>s.
                res_bind (core_new H cfg) (\<lambda>client.
                res_bind (build_wakeup H cfg) (\<lambda>wakeup.
                Ok \<lparr>sv_config = cfg, sv_signer = signer, sv_client = client,
                    sv_node = \<lparr>nd_state = s, nd_db = db', nd_clock = 0\<rparr>,
                    sv_release = release_identity_of cfg,
                    sv_health = \<lparr>last_successful_height = None, last_error = None, catching_up = False\<rparr>,
                    sv_wakeup = wakeup\<rparr>))))
           | Err e \<Rightarrow> (db, Err e)
           | Panic \<Rightarrow> (db, Panic))
      | Err e \<Rightarrow> (db, Err e)
      | Panic \<Rightarrow> (db, Panic))"

lemma start_Ok:
  assumes "start X D H args f db = (db', Ok sv)"
  obtains "from_args X (host.truncate H) args = Ok (sv_config sv)"
    and "bind_or_load X D f (cfg_binding (sv_config sv)) db = (db', Ok (nd_state (sv_node sv)))"
    and "nd_db (sv_node sv) = db'" and "sv_release sv = release_identity_of (sv_config sv)"
    and "as_key_id (sv_signer sv) = cfg_signing_key_id (sv_config sv)"
  using assms
  by (auto simp: start_def store_connect_def signer_load_def Let_def res_simps
      split: res.splits if_splits prod.splits)

text \<open>A process that started has bound or loaded the journal of its deployment.\<close>

lemma start_holds:
  assumes "serde_laws D" and "db = empty_database \<or> store_ok X D bnd js s db"
    and "start X D H args f db = (db', Ok sv)"
  shows "\<exists>js. store_ok X D (cfg_binding (sv_config sv)) js (nd_state (sv_node sv)) db'"
    and "db \<noteq> empty_database \<longrightarrow> cfg_binding (sv_config sv) = bnd"
proof -
  let ?b = "cfg_binding (sv_config sv)"
  have bound: "bind_or_load X D f ?b db = (db', Ok (nd_state (sv_node sv)))"
    by (rule start_Ok [OF assms(3)])
  have "(\<exists>js. store_ok X D ?b js (nd_state (sv_node sv)) db') \<and> (db \<noteq> empty_database \<longrightarrow> ?b = bnd)"
  proof (cases "db = empty_database")
    case True
    have "f = Reachable"
      using bound True by (auto simp: bind_or_load_def transact_def split: res.splits if_splits)
    then show ?thesis using bind_or_load_fresh [OF assms(1), of X ?b] bound True by auto
  next
    case False
    with assms(2) have ok: "store_ok X D bnd js s db" by blast
    then show ?thesis
      using bind_or_load_bound [OF store_okD(1) [OF ok]] bound by (auto split: if_splits)
  qed
  then show "\<exists>js. store_ok X D ?b js (nd_state (sv_node sv)) db'"
    and "db \<noteq> empty_database \<longrightarrow> ?b = bnd" by blast+
qed

text \<open>The same command line starts again on every database that its deployment can load.\<close>

lemma start_again:
  assumes "start X D H args f db = (db', Ok sv)"
    and "bind_or_load X D Reachable (cfg_binding (sv_config sv)) db2 = (db2, Ok s2)"
  shows "start X D H args Reachable db2 = (db2, Ok (sv\<lparr>sv_node := \<lparr>nd_state = s2, nd_db = db2, nd_clock = 0\<rparr>\<rparr>))"
  using assms
  by (auto simp: start_def store_connect_def Let_def res_simps split: res.splits if_splits prod.splits)

lemma start_idle:
  assumes "start X D H args f db = (db', Ok sv)"
  shows "\<not> catching_up (sv_health sv)"
  using assms
  by (auto simp: start_def Let_def res_simps split: res.splits prod.splits)

end
