(* ===== verification/Startup_Properties.thy ===== *)
theory Startup_Properties
  imports Startup Config_Properties
begin

text \<open>A started process: configuration, database and worker together.\<close>

section \<open>A process\<close>

definition demo_process :: "(string, string) process_host" where
  "demo_process = host.extend demo_host
     \<lparr>zmq_feature = False, zmq_connect = (\<lambda>_. False), zmq_subscribe = (\<lambda>_ _. False), client_builds = True,
      pool_connects = (\<lambda>_. True), listener_binds = (\<lambda>_. True)\<rparr>"

lemma demo_process_host: "host.truncate demo_process = demo_host"
  by (simp add: demo_process_def host.defs demo_host_def)

lemma demo_seed_bytes: "utf8_ok (ascii (hex_text (replicate 32 7)))"
  "map (\<lambda>b. char_of (unat b)) (ascii (hex_text (replicate 32 7))) = hex_text (replicate 32 7)"
  by code_simp+

lemma demo_seed_text: "read_to_string demo_process ''seed'' = Some (hex_text (replicate 32 7))"
  using demo_seed_bytes by (simp add: read_to_string_def demo_process_def host.defs demo_host_def)

lemma demo_seed_trimmed:
  "trim (hex_text (replicate 32 7)) = hex_text (replicate 32 7)" "length (hex_text (replicate 32 7)) = 64"
  by code_simp+

text \<open>The process started on an empty database, and a round of its worker against a node of another chain.\<close>

definition mainnet_db :: "demo_value database" where
  "mainnet_db = fst (bind_or_load demo_externals demo_serde Reachable demo_mainnet empty_database)"

lemma mainnet_db_bound:
  "bind_or_load demo_externals demo_serde Reachable demo_mainnet empty_database =
     (mainnet_db, Ok (chain_state_new demo_externals demo_mainnet))"
  using bind_or_load_fresh [OF demo_serde_laws, of demo_externals demo_mainnet] by (auto simp: mainnet_db_def)

definition demo_service :: "(demo_value, string, string) service" where
  "demo_service =
     \<lparr>sv_config = mainnet_config,
      sv_signer = \<lparr>as_key_id = ''verifier-1'', as_signing_key = array_of (replicate 32 7)\<rparr>,
      sv_client = \<lparr>cc_url = ''http'', cc_user = ''u'', cc_password = ''p'', cc_request_id = 1\<rparr>,
      sv_node = \<lparr>nd_state = chain_state_new demo_externals demo_mainnet, nd_db = mainnet_db, nd_clock = 0\<rparr>,
      sv_release = release_identity_of mainnet_config,
      sv_health = \<lparr>last_successful_height = None, last_error = None, catching_up = False\<rparr>,
      sv_wakeup = PollWakeup 5000\<rparr>"

lemma demo_start:
  "start demo_externals demo_serde demo_process demo_args Reachable empty_database = (mainnet_db, Ok demo_service)"
proof -
  have "signer_load demo_externals (Some (hex_text (replicate 32 7))) ''verifier-1'' =
      Ok \<lparr>as_key_id = ''verifier-1'', as_signing_key = array_of (replicate 32 7)\<rparr>"
    unfolding signer_load_def by (simp add: ok_or_def demo_seed_trimmed demo_externals_def hex_parse_text)
  moreover have "pool_connects demo_process url" "client_builds demo_process" for url
    by (simp_all add: demo_process_def host.defs)
  ultimately show ?thesis
    unfolding start_def demo_process_host demo_args_accepted
    by (simp add: demo_seed_text mainnet_config_def store_connect_def mainnet_db_bound core_new_def build_wakeup_def
        demo_service_def)
qed

section \<open>The started service\<close>

text \<open>
  C8. A process that starts serves the deployment it is configured for: a database that already holds
  a chain is bound to that deployment, and the worker, however the source behaves and whatever
  fails, as long as no acknowledgement of a commit is lost, has after every round exactly the
  stored state of that deployment.
\<close>

theorem started_service_follows_its_configuration:
  assumes "serde_laws D" and "db = empty_database \<or> store_ok X D bnd js s db"
    and "start X D H args f db = (db', Ok sv)" and "acknowledged W"
    and "run_rounds X D W (sv_release sv) n (sv_node sv, sv_health sv) = Some (nd', health')"
  shows "synced X D (cfg_binding (sv_config sv)) nd' \<and> (db \<noteq> empty_database \<longrightarrow> cfg_binding (sv_config sv) = bnd)"
proof -
  have "nd_db (sv_node sv) = db'" by (rule start_Ok [OF assms(3)])
  then have "synced X D (cfg_binding (sv_config sv)) (sv_node sv)"
    using start_holds(1) [OF assms(1-3)] assms(1) by (simp add: synced_def store_holds_def)
  then show ?thesis
    using synced_run_rounds [OF assms(5), of "cfg_binding (sv_config sv)"] assms(4) start_holds(2) [OF assms(1-3)] by simp
qed

theorem started_service_follows_its_configuration_witness:
  "\<exists>nd health. run_rounds demo_externals demo_serde demo_world (sv_release demo_service) 1
      (sv_node demo_service, sv_health demo_service) = Some (nd, health) \<and>
    synced demo_externals demo_serde demo_mainnet nd"
proof -
  have b: "cfg_binding (sv_config demo_service) = demo_mainnet" by (simp add: demo_service_def mainnet_config_def)
  obtain nd health where r: "run_rounds demo_externals demo_serde demo_world (sv_release demo_service) 1
      (sv_node demo_service, sv_health demo_service) = Some (nd, health)"
    by (simp add: run_round_def run_once_def demo_service_def chain_state_new_def demo_mainnet_def demo_world_def
        ready_for_def ask_def ok_or_def)
  with started_service_follows_its_configuration
      [OF demo_serde_laws disjI1 [OF refl] demo_start demo_acknowledged r]
  show ?thesis by (simp only: b) blast
qed

end
