(* ===== verification/Acceptance.thy ===== *)
theory Acceptance
  imports Validation
begin

text \<open>
  What the protocol asks of an operation, stated once for each kind: the bytes of its marker and the
  form of its transaction, with amounts as natural numbers. The validators accept exactly these.
\<close>

section \<open>Markers\<close>

definition operation_header :: "externals \<Rightarrow> binding \<Rightarrow> u8 \<Rightarrow> u8 \<Rightarrow> bytes" where
  "operation_header X b opcode flags =
     MAGIC @ [VERSION, network_code (bnd_network b), opcode, flags] @ bytes_of (namespace X b)"

text \<open>The kind byte of a MARK or CLOSE is free within its range and not interpreted.\<close>

fun operation_payload :: "externals \<Rightarrow> binding \<Rightarrow> u8 \<Rightarrow> validated_operation \<Rightarrow> bytes" where
  "operation_payload X b kind (VoCreate ks) = operation_header X b 1 1"
| "operation_payload X b kind (VoMark ob seq c) =
     operation_header X b 2 1 @ to_le_bytes seq @ [kind, 0] @ bytes_of c"
| "operation_payload X b kind (VoRotate ob seq ks) = operation_header X b 3 1 @ to_le_bytes seq"
| "operation_payload X b kind (VoClose ob seq c) =
     operation_header X b 4 0xff @ to_le_bytes seq @ [kind, 0, 0, 0] @ bytes_of c"

fun kind_allowed :: "validated_operation \<Rightarrow> u8 \<Rightarrow> bool" where
  "kind_allowed (VoMark ob seq c) kind = (kind \<le> 5)"
| "kind_allowed (VoClose ob seq c) kind = (kind \<le> 3)"
| "kind_allowed _ kind = True"

section \<open>Forms\<close>

definition standard_form :: "u64 \<Rightarrow> tx_view \<Rightarrow> nat \<Rightarrow> nat \<Rightarrow> bool" where
  "standard_form h tx ins outs \<longleftrightarrow>
     tx_version tx = 2 \<and> lock_time tx = 0 \<and> length (inputs tx) = ins \<and> length (outputs tx) = outs \<and>
     (\<forall>i\<in>set (inputs tx). sequence i = RBF_SEQUENCE \<and> has_earlier_confirmation i h \<and> signatures_valid i) \<and>
     out_value (outputs tx ! 0) = 0 \<and> \<not> has_other_op_return tx 0"

definition carrier_output :: "externals \<Rightarrow> key_pair \<Rightarrow> output_view \<Rightarrow> bool" where
  "carrier_output X ks out \<longleftrightarrow> out_value out = CARRIER_VALUE \<and> script_pubkey out = carrier_script X ks"

definition change_output :: "externals \<Rightarrow> key33 \<Rightarrow> output_view \<Rightarrow> bool" where
  "change_output X k out \<longleftrightarrow> 1000 \<le> unat (out_value out) \<and> script_pubkey out = p2wpkh_script X k"

text \<open>Two payers cover \<open>base\<close> each and split a positive fee, the first paying the odd satoshi.\<close>

definition split_payment :: "nat \<Rightarrow> input_view \<Rightarrow> output_view \<Rightarrow> input_view \<Rightarrow> output_view \<Rightarrow> bool" where
  "split_payment base i0 o0 i1 o1 \<longleftrightarrow>
     (\<exists>fee>0. 2 * base + fee < 2 ^ 64 \<and>
        unat (prevout_value i0) = unat (out_value o0) + base + (fee + 1) div 2 \<and>
        unat (prevout_value i1) = unat (out_value o1) + base + fee div 2)"

definition continues :: "externals \<Rightarrow> tx_view \<Rightarrow> object_state \<Rightarrow> u32 \<Rightarrow> bool" where
  "continues X tx ob seq \<longleftrightarrow>
     carrier_keys X (inputs tx ! 0) = Some (ob_keys ob) \<and> prevout (inputs tx ! 0) = ob_current_outpoint ob \<and>
     unat seq = unat (ob_state_seq ob) + 1"

fun operation_form :: "externals \<Rightarrow> chain_state \<Rightarrow> u64 \<Rightarrow> tx_view \<Rightarrow> validated_operation \<Rightarrow> bool" where
  "operation_form X s h tx (VoCreate ks) \<longleftrightarrow>
     standard_form h tx 2 4 \<and> checked X (key0 ks) (key1 ks) = Some ks \<and>
     p2wpkh_key X (inputs tx ! 0) = Some (key0 ks) \<and> p2wpkh_key X (inputs tx ! 1) = Some (key1 ks) \<and>
     carrier_output X ks (outputs tx ! 1) \<and>
     change_output X (key0 ks) (outputs tx ! 2) \<and> change_output X (key1 ks) (outputs tx ! 3) \<and>
     split_payment 10000 (inputs tx ! 0) (outputs tx ! 2) (inputs tx ! 1) (outputs tx ! 3) \<and>
     (\<exists>ih ho hc. protocol_status s = ProtocolActive ih ho hc \<and> unat ho \<le> unat h)"
| "operation_form X s h tx (VoMark ob seq c) \<longleftrightarrow>
     standard_form h tx 2 3 \<and> continues X tx ob seq \<and> c \<noteq> hash32_ZERO \<and>
     (\<exists>sponsor. p2wpkh_key X (inputs tx ! 1) = Some sponsor \<and> contains_key (ob_keys ob) sponsor \<and>
        change_output X sponsor (outputs tx ! 2)) \<and>
     carrier_output X (ob_keys ob) (outputs tx ! 1) \<and>
     unat (out_value (outputs tx ! 2)) < unat (prevout_value (inputs tx ! 1))"
| "operation_form X s h tx (VoRotate ob seq ks) \<longleftrightarrow>
     standard_form h tx 3 4 \<and> continues X tx ob seq \<and> ks \<noteq> ob_keys ob \<and> checked X (key0 ks) (key1 ks) = Some ks \<and>
     p2wpkh_key X (inputs tx ! 1) = Some (key0 ks) \<and> p2wpkh_key X (inputs tx ! 2) = Some (key1 ks) \<and>
     carrier_output X ks (outputs tx ! 1) \<and>
     change_output X (key0 ks) (outputs tx ! 2) \<and> change_output X (key1 ks) (outputs tx ! 3) \<and>
     split_payment 0 (inputs tx ! 1) (outputs tx ! 2) (inputs tx ! 2) (outputs tx ! 3)"
| "operation_form X s h tx (VoClose ob seq c) \<longleftrightarrow>
     standard_form h tx 1 3 \<and> continues X tx ob seq \<and>
     script_pubkey (outputs tx ! 1) = p2wpkh_script X (key0 (ob_keys ob)) \<and>
     script_pubkey (outputs tx ! 2) = p2wpkh_script X (key1 (ob_keys ob)) \<and>
     out_value (outputs tx ! 1) = out_value (outputs tx ! 2) \<and>
     0 < unat (out_value (outputs tx ! 1)) \<and> 2 * unat (out_value (outputs tx ! 1)) < 20000"

fun operates_on :: "(nat \<times> object_state) option \<Rightarrow> validated_operation \<Rightarrow> bool" where
  "operates_on carrier (VoCreate ks) = True"
| "operates_on carrier op = (carrier = Some (0, vo_object op))"

section \<open>Amounts\<close>

lemma unat_amount [simp]: "n < 18446744073709551616 \<Longrightarrow> unat (word_of_nat n :: u64) = n"
  by (simp add: unat_of_nat)

lemma split_amounts:
  assumes "split_payment base i0 o0 i1 o1" and "base \<le> 10000"
  obtains d0 d1 total fee half :: u64
  where "checked_sub (prevout_value i0) (out_value o0) = Some d0" and "checked_sub (prevout_value i1) (out_value o1) = Some d1"
    and "checked_add d0 d1 = Some total" and "checked_sub total (word_of_nat (2 * base)) = Some fee" and "0 < fee"
    and "plain_add (fee div 2) (fee mod 2) = (Ok half :: (reason, u64) res)"
    and "plain_add (word_of_nat base) half = (Ok d0 :: (reason, u64) res)"
    and "plain_add (word_of_nat base) (fee div 2) = (Ok d1 :: (reason, u64) res)"
    and "base = 0 \<longrightarrow> total = fee \<and> d0 = half \<and> d1 = fee div 2"
proof -
  obtain fee where fee: "0 < fee" "2 * base + fee < 2 ^ 64"
      "unat (prevout_value i0) = unat (out_value o0) + base + (fee + 1) div 2"
      "unat (prevout_value i1) = unat (out_value o1) + base + fee div 2"
    using assms(1) by (auto simp: split_payment_def)
  let ?w = "\<lambda>n. word_of_nat n :: u64"
  have b: "unat (?w fee) = fee" "unat (?w (2 * base)) = 2 * base" "unat (?w base) = base"
      "unat (?w (2 * base + fee)) = 2 * base + fee"
      "unat (?w (base + (fee + 1) div 2)) = base + (fee + 1) div 2" "unat (?w (base + fee div 2)) = base + fee div 2"
      "unat (?w ((fee + 1) div 2)) = (fee + 1) div 2"
    by (rule unat_amount, use fee(2) assms(2) in simp)+
  have half: "(fee + 1) div 2 = fee div 2 + fee mod 2" "fee = (fee + 1) div 2 + fee div 2" by presburger+
  have e: "unat (?w fee div 2) = fee div 2" "unat (?w fee mod 2) = fee mod 2" using b(1) by (simp_all add: unat_div unat_mod)
  show thesis
  proof (rule that)
    show "checked_sub (prevout_value i0) (out_value o0) = Some (?w (base + (fee + 1) div 2))"
      "checked_sub (prevout_value i1) (out_value o1) = Some (?w (base + fee div 2))"
      using fee(3,4) b by (simp_all add: checked_sub_Some_iff)
    show "checked_add (?w (base + (fee + 1) div 2)) (?w (base + fee div 2)) = Some (?w (2 * base + fee))"
      unfolding checked_add_Some_iff b using half(2) by linarith
    show "checked_sub (?w (2 * base + fee)) (?w (2 * base)) = Some (?w fee)"
      unfolding checked_sub_Some_iff b by simp
    show "0 < ?w fee" using fee(1) b(1) by (simp add: word_less_nat_alt)
    show "plain_add (?w fee div 2) (?w fee mod 2) = (Ok (?w ((fee + 1) div 2)) :: (reason, u64) res)"
      unfolding plain_add_iffs b e by (rule half(1))
    show "plain_add (?w base) (?w ((fee + 1) div 2)) = (Ok (?w (base + (fee + 1) div 2)) :: (reason, u64) res)"
      "plain_add (?w base) (?w fee div 2) = (Ok (?w (base + fee div 2)) :: (reason, u64) res)"
      unfolding plain_add_iffs b e by simp_all
    show "base = 0 \<longrightarrow> ?w (2 * base + fee) = ?w fee \<and> ?w (base + (fee + 1) div 2) = ?w ((fee + 1) div 2) \<and>
        ?w (base + fee div 2) = ?w fee div 2"
      using b e by (auto simp: word_unat_eq_iff simp del: of_nat_Suc)
  qed
qed

lemma positive_difference: "unat b < unat (a :: u64) \<Longrightarrow> \<exists>c. checked_sub a b = Some c \<and> 0 < c"
  using checked_sub_None_iff [of a b]
  by (cases "checked_sub a b") (auto simp: word_less_nat_alt dest: checked_sub_Some_iff [THEN iffD1])

lemma revealed_keys [dest]:
  "p2wpkh_key X i = Some k \<Longrightarrow> p2wpkh_revealed_key i = Some k"
  "carrier_keys X i = Some ks \<Longrightarrow> carrier_revealed_keys i = Some (key0 ks, key1 ks)"
  by (auto dest: p2wpkh_key_Some carrier_keys_Some)

lemma set_of_two: "length xs = 2 \<Longrightarrow> set xs = {xs ! 0, xs ! 1}"
  by (auto simp: numeral_2_eq_2 length_Suc_conv)

text \<open>Evaluation of the checks when their outcome is known.\<close>

lemmas check_evals = index_at_def ok_or_def opt_filter_def check_tx_header_def check_output_shape_def check_provenance_def
  check_signatures_def list_ex_iff list_all_iff CARRIER_VALUE_def CHANGE_FLOOR_def word_less_nat_alt word_le_nat_alt

lemmas form_simps = standard_form_def carrier_output_def change_output_def continues_def

lemma validate_create_iff:
  assumes "length (pm_payload m) = 40"
  shows "validate_create X s h tx m = Ok (VoCreate ks) \<longleftrightarrow>
    pm_payload m ! 7 = 1 \<and> pm_vout m = 0 \<and> operation_form X s h tx (VoCreate ks)" (is "?L \<longleftrightarrow> ?R")
proof
  assume ?L
  then show ?R
    unfolding validate_create_def
    apply (simp only: res_simps)
    apply (clarsimp simp: checked_Some_iff list_ex_iff chk_simps fee_simps form_simps split_payment_def)
    subgoal for _ _ _ _ total fee
      using u64_bound [of total] by (auto simp: checked_Some_iff fee_simps chk_simps intro!: exI [of _ "unat fee"])
    done
next
  assume r: ?R
  then obtain d0 d1 total fee half where "checked_sub (prevout_value (inputs tx ! 0)) (out_value (outputs tx ! 2)) = Some d0"
      "checked_sub (prevout_value (inputs tx ! 1)) (out_value (outputs tx ! 3)) = Some d1"
      "checked_add d0 d1 = Some total" "checked_sub total (word_of_nat (2 * 10000)) = Some fee" "0 < fee"
      "plain_add (fee div 2) (fee mod 2) = (Ok half :: (reason, u64) res)"
      "plain_add (word_of_nat 10000) half = (Ok d0 :: (reason, u64) res)"
      "plain_add (word_of_nat 10000) (fee div 2) = (Ok d1 :: (reason, u64) res)"
    by (auto elim!: split_amounts)
  then show ?L
    using r assms
    by (auto simp: validate_create_def form_simps check_evals set_of_two unat_u64_of_u32)
qed

lemma validate_mark_iff:
  assumes "length (pm_payload m) = 78"
  shows "validate_mark X h tx m carrier = Ok (VoMark ob seq c) \<longleftrightarrow>
    pm_payload m ! 7 = 1 \<and> pm_payload m ! 44 \<le> 5 \<and> pm_payload m ! 45 = 0 \<and>
    from_le_bytes (take 4 (drop 40 (pm_payload m))) = seq \<and> array_of (take 32 (drop 46 (pm_payload m))) = c \<and>
    pm_vout m = 0 \<and> carrier = Some (0, ob) \<and> operation_form X s h tx (VoMark ob seq c)" (is "?L \<longleftrightarrow> ?R")
proof
  assume ?L
  then show ?R
    unfolding validate_mark_def Let_def
    by (simp only: res_simps)
      (clarsimp simp: chk_simps fee_simps form_simps hash32_is_zero_iff list_ex_iff split: option.splits prod.splits if_splits)
next
  assume r: ?R
  then obtain fee where "checked_sub (prevout_value (inputs tx ! 1)) (out_value (outputs tx ! 2)) = Some fee" "0 < fee"
    using positive_difference [of "out_value (outputs tx ! 2)" "prevout_value (inputs tx ! 1)"] by auto
  moreover have "checked_add (ob_state_seq ob) 1 = Some seq" using r by (simp add: checked_add_Some_iff continues_def)
  ultimately show ?L
    using r assms
    by (auto simp: validate_mark_def form_simps check_evals check_transition_input_scripts_def u32_at_def hash_at_def
        slice_at_def hash32_is_zero_iff)
qed

text \<open>The commitment is the last thing checked: a MARK that is otherwise in order fails on it alone.\<close>

lemma validate_mark_zero:
  assumes "length (pm_payload m) = 78" and "pm_payload m ! 7 = 1" and "pm_payload m ! 44 \<le> 5" and "pm_payload m ! 45 = 0"
    and "from_le_bytes (take 4 (drop 40 (pm_payload m))) = seq" and "array_of (take 32 (drop 46 (pm_payload m))) = hash32_ZERO"
    and "pm_vout m = 0" and "operation_form X s h tx (VoMark ob seq c)"
  shows "validate_mark X h tx m (Some (0, ob)) = Err BadCommitment"
proof -
  obtain fee where "checked_sub (prevout_value (inputs tx ! 1)) (out_value (outputs tx ! 2)) = Some fee" "0 < fee"
    using positive_difference [of "out_value (outputs tx ! 2)" "prevout_value (inputs tx ! 1)"] assms(8) by auto
  moreover have "checked_add (ob_state_seq ob) 1 = Some seq" using assms(8) by (simp add: checked_add_Some_iff continues_def)
  ultimately show ?thesis
    using assms
    by (auto simp: validate_mark_def form_simps check_evals check_transition_input_scripts_def u32_at_def hash_at_def
        slice_at_def hash32_is_zero_iff)
qed

lemma fee_of_word:
  "0 < unat (w :: u64) \<Longrightarrow>
     \<exists>fee>0. fee < 18446744073709551616 \<and> Suc (unat w) div 2 = Suc fee div 2 \<and> unat w div 2 = fee div 2"
  using u64_bound [of w] by (intro exI [of _ "unat w"]) simp

lemma validate_rotate_iff:
  assumes "length (pm_payload m) = 44"
  shows "validate_rotate X h tx m carrier = Ok (VoRotate ob seq ks) \<longleftrightarrow>
    pm_payload m ! 7 = 1 \<and> from_le_bytes (take 4 (drop 40 (pm_payload m))) = seq \<and>
    pm_vout m = 0 \<and> carrier = Some (0, ob) \<and> operation_form X s h tx (VoRotate ob seq ks)" (is "?L \<longleftrightarrow> ?R")
proof
  assume ?L
  then show ?R
    unfolding validate_rotate_def Let_def
    by (simp only: res_simps)
      (clarsimp simp: checked_Some_iff list_ex_iff form_simps split: option.splits prod.splits if_splits,
       auto simp: checked_Some_iff fee_simps chk_simps split_payment_def intro!: fee_of_word)
next
  assume r: ?R
  then obtain d0 d1 fee where "checked_sub (prevout_value (inputs tx ! 1)) (out_value (outputs tx ! 2)) = Some d0"
      "checked_sub (prevout_value (inputs tx ! 2)) (out_value (outputs tx ! 3)) = Some d1"
      "checked_add d0 d1 = Some fee" "0 < fee"
      "plain_add (fee div 2) (fee mod 2) = (Ok d0 :: (reason, u64) res)" "d1 = fee div 2"
    by (auto elim!: split_amounts)
  moreover have "checked_add (ob_state_seq ob) 1 = Some seq" using r by (simp add: checked_add_Some_iff continues_def)
  ultimately show ?L
    using r assms
    by (auto simp: validate_rotate_def form_simps check_evals check_transition_input_scripts_def u32_at_def slice_at_def)
qed

lemma pay_out_iff:
  "(\<exists>total. checked_add v v = Some total \<and> (\<exists>fee. checked_sub CARRIER_VALUE total = Some fee \<and> 0 < fee)) \<longleftrightarrow>
     2 * unat (v :: u64) < 20000" (is "?L \<longleftrightarrow> ?R")
proof
  assume ?L
  then show ?R by (auto simp: chk_simps fee_simps)
next
  assume r: ?R
  then obtain total where total: "checked_add v v = Some total"
    using checked_add_None_iff [of v v] by (cases "checked_add v v") auto
  then have "unat total < unat CARRIER_VALUE" using r by (auto simp: checked_add_Some_iff CARRIER_VALUE_def)
  then show ?L using total positive_difference by blast
qed

lemma validate_close_iff:
  assumes "length (pm_payload m) = 80"
  shows "validate_close X h tx m carrier = Ok (VoClose ob seq c) \<longleftrightarrow>
    pm_payload m ! 7 = 0xff \<and> pm_payload m ! 44 \<le> 3 \<and> take 3 (drop 45 (pm_payload m)) = [0, 0, 0] \<and>
    from_le_bytes (take 4 (drop 40 (pm_payload m))) = seq \<and> array_of (take 32 (drop 48 (pm_payload m))) = c \<and>
    pm_vout m = 0 \<and> carrier = Some (0, ob) \<and> operation_form X s h tx (VoClose ob seq c)" (is "?L \<longleftrightarrow> ?R")
proof
  assume ?L
  then show ?R
    unfolding validate_close_def Let_def
    by (simp only: res_simps)
      (clarsimp simp: chk_simps fee_simps form_simps list_ex_iff word_neq_0_conv split: option.splits prod.splits if_splits,
       auto simp: length_Suc_conv unsigned_eq_0_iff)
next
  assume r: ?R
  then obtain total fee where total: "checked_add (out_value (outputs tx ! 1)) (out_value (outputs tx ! 1)) = Some total"
      "checked_sub CARRIER_VALUE total = Some fee" "0 < fee"
    using pay_out_iff [of "out_value (outputs tx ! 1)"] by auto
  moreover have "checked_add (ob_state_seq ob) 1 = Some seq" using r by (simp add: checked_add_Some_iff continues_def)
  ultimately show ?L
    using r assms total
    by (auto simp: validate_close_def form_simps check_evals check_transition_input_scripts_def u32_at_def hash_at_def
        slice_at_def)
qed

section \<open>Payloads\<close>

lemma header_split:
  assumes "40 \<le> length p"
  shows "p = take 4 p @ [p ! 4, p ! 5, p ! 6, p ! 7] @ take 32 (drop 8 p) @ drop 40 p"
proof -
  have "drop 4 p = [p ! 4, p ! 5, p ! 6, p ! 7] @ drop 8 p"
    using assms Cons_nth_drop_Suc [of 4 p] Cons_nth_drop_Suc [of 5 p] Cons_nth_drop_Suc [of 6 p] Cons_nth_drop_Suc [of 7 p]
    by simp
  moreover have "drop 8 p = take 32 (drop 8 p) @ drop 40 p"
    using append_take_drop_id [of 32 "drop 8 p"] by simp
  ultimately show ?thesis by (metis append_take_drop_id append.assoc)
qed

lemma header_fields:
  assumes "40 \<le> length p" and "take 4 p = MAGIC"
  shows "p = operation_header X b opcode flags @ rest \<longleftrightarrow>
    p ! 4 = VERSION \<and> p ! 5 = network_code (bnd_network b) \<and> p ! 6 = opcode \<and> p ! 7 = flags \<and>
    array_of (take 32 (drop 8 p)) = namespace X b \<and> drop 40 p = rest" (is "?L \<longleftrightarrow> ?R")
proof
  assume p: ?L
  show ?R unfolding p by (simp add: operation_header_def MAGIC_def nth_append)
next
  assume r: ?R
  have "bytes_of (array_of (take 32 (drop 8 p)) :: hash32) = take 32 (drop 8 p)" using assms(1) by simp
  then have "bytes_of (namespace X b) = take 32 (drop 8 p)" using r by simp
  then show ?L using header_split [OF assms(1)] r assms(2) by (simp add: operation_header_def)
qed

text \<open>The tails after the header.\<close>

lemma sequence_tail: "length t = 4 \<Longrightarrow> t = to_le_bytes (seq :: u32) \<longleftrightarrow> from_le_bytes t = seq"
  using to_from_le_bytes [of t, where 'n = 32] by auto

lemma commitment_tail:
  assumes "length t = 4 + length flags + 32"
  shows "t = to_le_bytes (seq :: u32) @ flags @ bytes_of (c :: hash32) \<longleftrightarrow>
    from_le_bytes (take 4 t) = seq \<and> take (length flags) (drop 4 t) = flags \<and> array_of (drop (4 + length flags) t) = c"
    (is "?L \<longleftrightarrow> ?R")
proof
  assume t: ?L
  show ?R unfolding t by simp
next
  assume r: ?R
  have "t = take 4 t @ take (length flags) (drop 4 t) @ drop (4 + length flags) t"
    by (metis append_take_drop_id drop_drop add.commute)
  moreover have "take 4 t = to_le_bytes seq" using r assms sequence_tail [of "take 4 t" seq] by simp
  moreover have "bytes_of (array_of (drop (4 + length flags) t) :: hash32) = drop (4 + length flags) t" using assms by simp
  then have "bytes_of c = drop (4 + length flags) t" using r by simp
  ultimately show ?L using r by simp
qed

lemma mark_tail:
  assumes "length p = 78"
  shows "drop 40 p = to_le_bytes (seq :: u32) @ [kind, 0] @ bytes_of (c :: hash32) \<longleftrightarrow>
    from_le_bytes (take 4 (drop 40 p)) = seq \<and> p ! 44 = kind \<and> p ! 45 = 0 \<and> array_of (take 32 (drop 46 p)) = c"
proof -
  have "take (Suc (Suc 0)) (drop 44 p) = [p ! 44, p ! 45]" using assms by (simp add: take_drop_step)
  then show ?thesis using assms commitment_tail [of "drop 40 p" "[kind, 0]" seq c] by auto
qed

lemma close_tail:
  assumes "length p = 80"
  shows "drop 40 p = to_le_bytes (seq :: u32) @ [kind, 0, 0, 0] @ bytes_of (c :: hash32) \<longleftrightarrow>
    from_le_bytes (take 4 (drop 40 p)) = seq \<and> p ! 44 = kind \<and> take 3 (drop 45 p) = [0, 0, 0] \<and>
    array_of (take 32 (drop 48 p)) = c"
proof -
  have "take (Suc n) (drop 44 p) = p ! 44 # take n (drop 45 p)" for n using assms by (simp add: take_drop_step)
  then show ?thesis using assms commitment_tail [of "drop 40 p" "[kind, 0, 0, 0]" seq c]
    by (auto simp: numeral_3_eq_3)
qed

lemma accepted_header:
  assumes "well_parsed m" and "pm_opcode m = Some opcode" and "opcode \<noteq> OpInit"
  shows "pm_payload m = operation_header X (binding_of s) (event_type_code (event_type_of_opcode opcode)) flags @ rest \<longleftrightarrow>
    pm_version m = VERSION \<and> pm_network m = network_code (bnd_network (binding_of s)) \<and> pm_payload m ! 7 = flags \<and>
    array_of (take 32 (drop 8 (pm_payload m))) = namespace X (binding_of s) \<and> drop 40 (pm_payload m) = rest"
proof -
  have "pm_payload m ! 6 = event_type_code (event_type_of_opcode opcode)"
    using assms(1,2) by (simp add: well_parsed_def flip: opcode_from_byte_iff)
  then show ?thesis
    using assms payload_len_namespace [of opcode] by (subst header_fields) (auto simp: well_parsed_def)
qed

section \<open>Acceptance\<close>

fun opcode_of :: "validated_operation \<Rightarrow> opcode" where
  "opcode_of (VoCreate ks) = OpCreate"
| "opcode_of (VoMark ob seq c) = OpMark"
| "opcode_of (VoRotate ob seq ks) = OpRotate"
| "opcode_of (VoClose ob seq c) = OpClose"

lemma accepted_opcode:
  "validate_single X s h tx m carrier = Ok op \<Longrightarrow> pm_opcode m = Some (opcode_of op)"
  by (erule validate_single_Ok)
    (auto elim: validate_create_Ok validate_mark_Ok validate_rotate_Ok validate_close_Ok)

lemma payload_opcode:
  assumes "well_parsed m" and "pm_payload m = operation_payload X b kind op"
  shows "pm_opcode m = Some (opcode_of op)"
  using assms
  by (cases op) (simp_all add: well_parsed_def operation_header_def MAGIC_def opcode_from_byte_def nth_append)

lemma validate_single_dispatch:
  assumes "well_parsed m" and "pm_opcode m = Some opcode" and "opcode \<noteq> OpInit"
  shows "validate_single X s h tx m carrier = Ok op \<longleftrightarrow>
    pm_version m = VERSION \<and> pm_network m = network_code (bnd_network (binding_of s)) \<and>
    array_of (take 32 (drop 8 (pm_payload m))) = namespace X (binding_of s) \<and>
    (case opcode of
       OpInit \<Rightarrow> False
     | OpCreate \<Rightarrow> validate_create X s h tx m = Ok op
     | OpMark \<Rightarrow> validate_mark X h tx m carrier = Ok op
     | OpRotate \<Rightarrow> validate_rotate X h tx m carrier = Ok op
     | OpClose \<Rightarrow> validate_close X h tx m carrier = Ok op)"
  using assms payload_len_namespace [of opcode] well_parsed_length [OF assms(1,2)]
  by (auto simp: validate_single_def res_simps split: opcode.splits)

lemma validate_single_iff:
  assumes "well_parsed m"
  shows "validate_single X s h tx m carrier = Ok op \<longleftrightarrow>
    pm_vout m = 0 \<and> operates_on carrier op \<and> operation_form X s h tx op \<and>
    (\<exists>kind. kind_allowed op kind \<and> pm_payload m = operation_payload X (binding_of s) kind op)"
proof (cases "pm_opcode m = Some (opcode_of op)")
  case False
  then show ?thesis using accepted_opcode [of X s h tx m carrier op] payload_opcode [OF assms] by blast
next
  case op: True
  note len = well_parsed_length [OF assms op] and dispatch = validate_single_dispatch [OF assms op]
    and header = accepted_header [OF assms op]
  let ?p = "pm_payload m"
  show ?thesis
  proof (cases op)
    case (VoCreate ks)
    then show ?thesis
      using len dispatch header [of X s 1 "[]"] by (auto simp: validate_create_iff)
  next
    case (VoMark ob seq c)
    then show ?thesis
      using len dispatch header [of X s 1] mark_tail [of ?p seq _ c] by (auto simp: validate_mark_iff [where s = s])
  next
    case (VoRotate ob seq ks)
    then show ?thesis
      using len dispatch header [of X s 1] sequence_tail [of "drop 40 ?p" seq]
      by (auto simp: validate_rotate_iff [where s = s])
  next
    case (VoClose ob seq c)
    then show ?thesis
      using len dispatch header [of X s "0xff"] close_tail [of ?p seq _ c] by (auto simp: validate_close_iff [where s = s])
  qed
qed

section \<open>Transactions\<close>

text \<open>A transaction whose only marker parses and is accepted as an operation.\<close>

definition accepted_as ::
    "externals \<Rightarrow> chain_state \<Rightarrow> u64 \<Rightarrow> tx_view \<Rightarrow> (nat \<times> object_state) option \<Rightarrow> validated_operation \<Rightarrow> bool" where
  "accepted_as X s h tx carrier op \<longleftrightarrow>
     (\<exists>c m. marker_candidates tx (binding_of s) = [c] \<and> parse c = Ok m \<and> validate_single X s h tx m carrier = Ok op)"

lemma single_candidate:
  assumes "outputs tx \<noteq> []" and "find_marker_candidate (script_pubkey (outputs tx ! 0)) 0 = Some c"
    and "\<not> is_init_candidate c" and "\<not> has_other_op_return tx 0"
  shows "marker_candidates tx b = [c]"
proof -
  obtain out outs where o: "outputs tx = out # outs" using assms(1) by (cases "outputs tx") auto
  define f where "f = (\<lambda>(index, out :: output_view). case u32_of_usize index of None \<Rightarrow> None
      | Some vout \<Rightarrow> (case find_marker_candidate (script_pubkey out) vout of None \<Rightarrow> None
        | Some c \<Rightarrow> if is_init_candidate c \<and> tx_txid tx \<noteq> init_txid b then None else Some c))"
  have none: "find_marker_candidate (script_pubkey (outs ! j)) v = None" if "j < length outs" "u32_of_usize (Suc j) = Some v" for j v
  proof -
    have "v \<noteq> 0" using that(2) by (auto simp: u32_of_usize_Some_iff)
    moreover have "(Suc j, outs ! j) \<in> set (enumerate_from 0 (outputs tx))"
      using that(1) by (auto simp: o set_enumerate_from)
    ultimately have "\<not> is_op_return (script_pubkey (outs ! j))"
      using assms(4) that(2) by (force simp: has_other_op_return_def list_ex_iff)
    then show ?thesis by (simp add: find_marker_candidate_def is_op_return_def)
  qed
  have "y \<notin> set (List.map_filter f (enumerate_from 1 outs))" for y
    unfolding set_map_filter_iff by (auto simp: set_enumerate_from f_def none split: option.splits)
  then have "List.map_filter f (enumerate_from 1 outs) = []" by (metis list.set_intros(1) list.exhaust)
  then have "List.map_filter f (enumerate_from 0 (outputs tx)) = [c]"
    using assms(2,3) by (simp add: o List.map_filter_simps f_def u32_of_usize_def)
  then show ?thesis by (simp add: marker_candidates_def f_def)
qed

lemma operation_payload_ok:
  "payload_ok (operation_payload X b kind op)"
  "opcode_from_byte (operation_payload X b kind op ! 6) \<noteq> Some OpInit"
  by (cases op; simp add: payload_ok_def operation_header_def MAGIC_def opcode_from_byte_def nth_append)+

lemma operation_candidate:
  assumes "marker_script (operation_payload X b kind op) = (Ok (script_pubkey (outputs tx ! 0)) :: (reason, bytes) res)"
    and "outputs tx \<noteq> []" and "\<not> has_other_op_return tx 0"
  shows "\<exists>c. marker_candidates tx b' = [c] \<and> parse c = Ok (marker_of 0 (operation_payload X b kind op)) \<and>
    well_parsed (marker_of 0 (operation_payload X b kind op))"
proof -
  let ?p = "operation_payload X b kind op"
  have "\<exists>c. find_marker_candidate (script_pubkey (outputs tx ! 0)) 0 = Some c \<and> parse c = Ok (marker_of 0 ?p)"
    using operation_payload_ok(1) assms(1) by (subst find_parse_iff) (simp add: marker_of_def marker_script_Ok_iff)
  then obtain c where c: "find_marker_candidate (script_pubkey (outputs tx ! 0)) 0 = Some c" "parse c = Ok (marker_of 0 ?p)"
    by blast
  have "\<not> is_init_candidate c"
    using c(2) operation_payload_ok(2) [of X b kind op]
    by (auto simp: parse_Ok_iff marker_of_def is_init_candidate_def opcode_byte_def get_at_def opcode_from_byte_def)
  then show ?thesis using single_candidate [OF assms(2) c(1) _ assms(3)] c(2) parse_found_well_parsed(1) [OF c] by blast
qed

lemma accepted_as_iff:
  "accepted_as X s h tx carrier op \<longleftrightarrow> operates_on carrier op \<and> operation_form X s h tx op \<and>
     (\<exists>kind. kind_allowed op kind \<and>
        marker_script (operation_payload X (binding_of s) kind op) = (Ok (script_pubkey (outputs tx ! 0)) :: (reason, bytes) res))"
    (is "?L \<longleftrightarrow> ?R")
proof
  assume ?L
  then obtain c m where cm: "marker_candidates tx (binding_of s) = [c]" "parse c = Ok m" "validate_single X s h tx m carrier = Ok op"
    by (auto simp: accepted_as_def)
  then obtain i where i: "i < length (outputs tx)" "u32_of_usize i = Some (mc_vout c)"
      "find_marker_candidate (script_pubkey (outputs tx ! i)) (mc_vout c) = Some c"
    using marker_candidates_found [of c tx "binding_of s"] by auto
  note wp = parse_found_well_parsed [OF i(3) cm(2)]
  have v: "pm_vout m = 0" "operates_on carrier op" "operation_form X s h tx op"
      "\<exists>kind. kind_allowed op kind \<and> pm_payload m = operation_payload X (binding_of s) kind op"
    using cm(3) by (simp_all add: validate_single_iff [OF wp(1)])
  then have "i = 0" using i(2) wp(2) by (simp add: u32_of_usize_Some_iff)
  then show ?R using v find_parse_canonical [OF i(3) cm(2)] by auto
next
  assume r: ?R
  then obtain kind where kind: "kind_allowed op kind"
      "marker_script (operation_payload X (binding_of s) kind op) = (Ok (script_pubkey (outputs tx ! 0)) :: (reason, bytes) res)"
    by blast
  let ?p = "operation_payload X (binding_of s) kind op"
  have "outputs tx \<noteq> []" "\<not> has_other_op_return tx 0" using r by (cases op; auto simp: standard_form_def)+
  then obtain c where c: "marker_candidates tx (binding_of s) = [c]" "parse c = Ok (marker_of 0 ?p)" "well_parsed (marker_of 0 ?p)"
    using operation_candidate [OF kind(2)] by blast
  have "validate_single X s h tx (marker_of 0 ?p) carrier = Ok op"
    using r kind(1) c(3) by (subst validate_single_iff) (auto simp: marker_of_def)
  then show ?L using c(1,2) by (auto simp: accepted_as_def)
qed

section \<open>Refunds\<close>

text \<open>
  The delay counts from the block that confirmed the carrier; a sum that does not fit 64 bits counts
  as elapsed.
\<close>

definition refund_mature :: "u64 \<Rightarrow> u64 \<Rightarrow> bool" where
  "refund_mature confirmed h \<longleftrightarrow>
     confirmed < h \<and> (unat confirmed + 52560 \<le> unat h \<or> 2 ^ 64 \<le> unat confirmed + 52560)"

definition refund_form :: "externals \<Rightarrow> u64 \<Rightarrow> tx_view \<Rightarrow> object_state \<Rightarrow> bool" where
  "refund_form X h tx ob \<longleftrightarrow>
     tx_version tx = 2 \<and> lock_time tx = 0 \<and> length (inputs tx) = 1 \<and> length (outputs tx) = 2 \<and>
     (\<forall>out\<in>set (outputs tx). \<not> is_op_return (script_pubkey out)) \<and>
     sequence (inputs tx ! 0) = 52560 \<and> prevout (inputs tx ! 0) = ob_current_outpoint ob \<and>
     carrier_keys X (inputs tx ! 0) = Some (ob_keys ob) \<and> signatures_valid (inputs tx ! 0) \<and>
     (\<exists>confirmed. prevout_height (inputs tx ! 0) = Some confirmed \<and> refund_mature confirmed h) \<and>
     script_pubkey (outputs tx ! 0) = p2wpkh_script X (key0 (ob_keys ob)) \<and>
     script_pubkey (outputs tx ! 1) = p2wpkh_script X (key1 (ob_keys ob)) \<and>
     out_value (outputs tx ! 0) = out_value (outputs tx ! 1) \<and>
     0 < unat (out_value (outputs tx ! 0)) \<and> 2 * unat (out_value (outputs tx ! 0)) < 20000"

lemma refund_mature_iff:
  "refund_mature c h \<longleftrightarrow> c < h \<and> \<not> Some h < checked_add c (u64_of_u32 REFUND_DELAY)"
proof -
  have d: "unat (u64_of_u32 REFUND_DELAY) = 52560" by (simp add: unat_u64_of_u32 REFUND_DELAY_def)
  show ?thesis
  proof (cases "checked_add c (u64_of_u32 REFUND_DELAY)")
    case None
    then have "2 ^ 64 \<le> unat c + 52560" using d checked_add_None_iff [of c "u64_of_u32 REFUND_DELAY"] by simp
    then show ?thesis using None by (simp add: refund_mature_def)
  next
    case (Some w)
    then have "unat w = unat c + 52560" using d checked_add_Some_iff [of c "u64_of_u32 REFUND_DELAY" w] by simp
    then show ?thesis using Some u64_bound [of w] by (auto simp: refund_mature_def word_less_nat_alt)
  qed
qed

lemma validate_refund_iff: "validate_refund X h tx ob = Ok () \<longleftrightarrow> refund_form X h tx ob" (is "?L \<longleftrightarrow> ?R")
proof
  assume ?L
  then show ?R
    unfolding validate_refund_def Let_def has_earlier_confirmation_def
    by (simp only: res_simps)
      (clarsimp simp: refund_form_def refund_mature_iff REFUND_DELAY_def chk_simps fee_simps list_ex_iff word_neq_0_conv
        unsigned_eq_0_iff split: option.splits)
next
  assume r: ?R
  then obtain total fee where "checked_add (out_value (outputs tx ! 1)) (out_value (outputs tx ! 1)) = Some total"
      "checked_sub CARRIER_VALUE total = Some fee" "0 < fee"
    using pay_out_iff [of "out_value (outputs tx ! 1)"] by (auto simp: refund_form_def)
  then show ?L
    using r
    by (auto simp: validate_refund_def refund_form_def refund_mature_iff has_earlier_confirmation_def check_evals REFUND_DELAY_def)
qed

lemma validate_refund_outcome:
  "validate_refund X h tx ob = Ok () \<or> validate_refund X h tx ob = Err BadRefundShapeOrMaturity"
proof (cases "validate_refund X h tx ob")
  case (Err e)
  then have "e = BadRefundShapeOrMaturity"
    unfolding validate_refund_def Let_def by (auto simp: res_simps index_at_def split: if_splits option.splits)
  then show ?thesis using Err by simp
qed (use validate_refund_no_panic [of X h tx ob] in simp_all)

section \<open>INIT\<close>

definition init_payload :: "binding \<Rightarrow> init_params \<Rightarrow> bytes" where
  "init_payload b ip =
     MAGIC @ [VERSION, network_code (bnd_network b), 0] @ to_le_bytes (ip_h_open ip) @ to_le_bytes (ip_h_close ip) @
     to_le_bytes CARRIER_VALUE @ to_le_bytes REFUND_DELAY @ bytes_of (spec_hash b)"

definition init_form :: "externals \<Rightarrow> binding \<Rightarrow> u64 \<Rightarrow> tx_view \<Rightarrow> init_params \<Rightarrow> bool" where
  "init_form X b h tx ip \<longleftrightarrow>
     (\<exists>c m. marker_candidates tx b = [c] \<and> parse c = Ok m \<and> pm_vout m = 0 \<and> pm_payload m = init_payload b ip) \<and>
     tx_version tx = 2 \<and> lock_time tx = 0 \<and> length (inputs tx) = 1 \<and> length (outputs tx) = 2 \<and>
     sequence (inputs tx ! 0) = u32_MAX \<and> has_earlier_confirmation (inputs tx ! 0) h \<and> signatures_valid (inputs tx ! 0) \<and>
     out_value (outputs tx ! 0) = 0 \<and> \<not> has_other_op_return tx 0 \<and>
     (\<exists>key. p2wpkh_key X (inputs tx ! 0) = Some key \<and> change_output X key (outputs tx ! 1)) \<and>
     unat (out_value (outputs tx ! 1)) < unat (prevout_value (inputs tx ! 0)) \<and>
     unat (ip_h_close ip) = unat (ip_h_open ip) + 4320 \<and> unat h + 1008 \<le> unat (ip_h_open ip)"

lemma init_fields:
  assumes "length p = 59" and "take 4 p = MAGIC"
  shows "p = init_payload b ip \<longleftrightarrow>
    p ! 4 = VERSION \<and> p ! 5 = network_code (bnd_network b) \<and> p ! 6 = 0 \<and>
    from_le_bytes (take 4 (drop 7 p)) = ip_h_open ip \<and> from_le_bytes (take 4 (drop 11 p)) = ip_h_close ip \<and>
    from_le_bytes (take 8 (drop 15 p)) = CARRIER_VALUE \<and> from_le_bytes (take 4 (drop 23 p)) = REFUND_DELAY \<and>
    array_of (take 32 (drop 27 p)) = spec_hash b" (is "?L \<longleftrightarrow> ?R")
proof
  assume p: ?L
  show ?R unfolding p by (simp add: init_payload_def MAGIC_def nth_append)
next
  assume r: ?R
  have step: "drop n p = take k (drop n p) @ drop (n + k) p" for n k
    using append_take_drop_id [of k "drop n p"] by (simp add: add.commute)
  have "take 3 (drop 4 p) = [p ! 4, p ! 5, p ! 6]" using assms(1) by (simp add: take_drop_step numeral_3_eq_3)
  moreover have "bytes_of (array_of (take 32 (drop 27 p)) :: hash32) = take 32 (drop 27 p)" using assms(1) by simp
  then have "take 32 (drop 27 p) = bytes_of (spec_hash b)" using r by simp
  moreover have "take 4 (drop 7 p) = to_le_bytes (ip_h_open ip)" "take 4 (drop 11 p) = to_le_bytes (ip_h_close ip)"
      "take 4 (drop 23 p) = to_le_bytes REFUND_DELAY"
    using assms(1) r by (simp_all add: sequence_tail)
  moreover have "take 8 (drop 15 p) = to_le_bytes CARRIER_VALUE"
    using assms(1) r to_from_le_bytes [of "take 8 (drop 15 p)", where 'n = 64] by simp
  moreover have "p = take 4 p @ drop 4 p" "drop 59 p = []" using assms(1) by simp_all
  ultimately show ?L
    using r assms(2) step [of 4 3] step [of 7 4] step [of 11 4] step [of 15 8] step [of 23 4] step [of 27 32]
    by (simp add: init_payload_def)
qed

lemma init_heights_iff:
  "(\<exists>expected. checked_add h_open FOUNDING_WINDOW = Some expected \<and>
      (\<exists>height. u32_of_u64 h = Some height \<and>
         (\<exists>earliest. checked_add height INIT_LEAD = Some earliest \<and> expected = h_close \<and> \<not> h_open < earliest))) \<longleftrightarrow>
     unat h_close = unat h_open + 4320 \<and> unat h + 1008 \<le> unat (h_open :: u32)" (is "?L \<longleftrightarrow> ?R")
proof
  assume ?L
  then show ?R by (auto simp: chk_simps FOUNDING_WINDOW_def INIT_LEAD_def word_less_nat_alt not_less)
next
  assume r: ?R
  have "unat h_open < 4294967296" using unsigned_less [of h_open] by simp
  then obtain height where height: "u32_of_u64 h = Some height" using r u32_of_u64_None_iff [of h] by (cases "u32_of_u64 h") auto
  then have uh: "unat height = unat h" by (simp add: u32_of_u64_Some_iff)
  then obtain earliest where e: "checked_add height INIT_LEAD = Some earliest"
    using r \<open>unat h_open < _\<close> checked_add_None_iff [of height INIT_LEAD]
    by (cases "checked_add height INIT_LEAD") (auto simp: INIT_LEAD_def)
  then have "\<not> h_open < earliest" using r uh by (simp add: checked_add_Some_iff INIT_LEAD_def word_less_nat_alt)
  moreover have "checked_add h_open FOUNDING_WINDOW = Some h_close"
    using r by (simp add: checked_add_Some_iff FOUNDING_WINDOW_def)
  ultimately show ?L using height e by blast
qed

definition init_marker_fields :: "externals \<Rightarrow> binding \<Rightarrow> init_params \<Rightarrow> parsed_marker \<Rightarrow> bool" where
  "init_marker_fields X b ip m \<longleftrightarrow>
     validate_marker_header X m b OpInit = Ok () \<and>
     u32_at m 7 = (Ok (ip_h_open ip) :: (reason, u32) res) \<and> u32_at m 11 = (Ok (ip_h_close ip) :: (reason, u32) res) \<and>
     u64_at m 15 = (Ok CARRIER_VALUE :: (reason, u64) res) \<and> u32_at m 23 = (Ok REFUND_DELAY :: (reason, u32) res) \<and>
     hash_at m 27 = (Ok (spec_hash b) :: (reason, hash32) res)"

lemma init_marker_fields_iff:
  assumes "marker_candidates tx b = [c]" and "parse c = Ok m"
  shows "init_marker_fields X b ip m \<longleftrightarrow> pm_payload m = init_payload b ip"
proof -
  obtain script v where f: "find_marker_candidate script v = Some c"
    using assms(1) by (metis list.set_intros(1) marker_candidates_found)
  have wp: "well_parsed m" by (rule parse_found_well_parsed(1) [OF f assms(2)])
  show ?thesis
  proof (cases "pm_opcode m = Some OpInit")
    case True
    then have "length (pm_payload m) = 59" using well_parsed_length [OF wp True] by simp
    then show ?thesis
      using wp True
      by (subst init_fields)
        (auto simp: init_marker_fields_def validate_marker_header_def well_parsed_def res_simps opcode_from_byte_def
          split: if_splits)
  next
    case False
    moreover have "pm_opcode m = Some OpInit" if "pm_payload m = init_payload b ip"
      using wp that by (simp add: well_parsed_def init_payload_def MAGIC_def opcode_from_byte_def)
    ultimately show ?thesis by (auto simp: init_marker_fields_def dest: validate_marker_header_Ok)
  qed
qed

lemma validate_configured_init_iff: "validate_configured_init X b h tx = Ok ip \<longleftrightarrow> init_form X b h tx ip" (is "?L \<longleftrightarrow> ?R")
proof
  assume l: ?L
  then have one: "length (marker_candidates tx b) = 1" by (rule validate_configured_init_Ok)
  then obtain c where c: "marker_candidates tx b = [c]" by (auto simp: length_Suc_conv)
  have "\<exists>m. parse c = Ok m \<and> pm_vout m = 0 \<and> init_marker_fields X b ip m"
    using l unfolding validate_configured_init_def Let_def c
    by (simp only: res_simps) (clarsimp simp: init_marker_fields_def chk_simps res_simps)
  then show ?R
    using l c unfolding validate_configured_init_def Let_def
    by (simp only: res_simps)
      (clarsimp simp: init_form_def init_marker_fields_iff,
       auto simp: chk_simps fee_simps change_output_def FOUNDING_WINDOW_def INIT_LEAD_def)
next
  assume r: ?R
  then obtain c m where cm: "marker_candidates tx b = [c]" "parse c = Ok m" "pm_vout m = 0" "pm_payload m = init_payload b ip"
    by (auto simp: init_form_def)
  have f: "init_marker_fields X b ip m" using init_marker_fields_iff [OF cm(1,2)] cm(4) by simp
  obtain expected height earliest where "checked_add (ip_h_open ip) FOUNDING_WINDOW = Some expected" "u32_of_u64 h = Some height"
      "checked_add height INIT_LEAD = Some earliest" "expected = ip_h_close ip" "\<not> ip_h_open ip < earliest"
    using init_heights_iff [of "ip_h_open ip" h "ip_h_close ip"] r unfolding init_form_def by blast
  moreover obtain fee where "checked_sub (prevout_value (inputs tx ! 0)) (out_value (outputs tx ! 1)) = Some fee" "0 < fee"
    using positive_difference r unfolding init_form_def by blast
  ultimately show ?L
    using r f cm
    by (auto simp: validate_configured_init_def init_form_def init_marker_fields_def check_evals change_output_def)
qed

end
