(* ===== verification/Lifecycle.thy ===== *)
theory Lifecycle
  imports Acceptance Fixtures
begin

text \<open>
  The life cycle of an object, for every deployment on the test network, every pair of valid keys
  and every implementation of the external crates: the transactions of the fixtures have the forms
  of the protocol, so each of them takes effect, and the tests of the reducer pass.
\<close>

section \<open>The fixtures have the forms of the protocol\<close>

lemma p2wpkh_key_input [simp]: "is_valid X key \<Longrightarrow> p2wpkh_key X (p2wpkh_input X key n h v seq) = Some key"
  by (simp add: p2wpkh_key_def p2wpkh_revealed_key_def p2wpkh_input_def p2wpkh_script_def array_try_from_def)

lemma carrier_keys_input [simp]:
  "checked X (key0 ks) (key1 ks) = Some ks \<Longrightarrow> carrier_keys X (carrier_input X ks p h seq) = Some ks"
  using carrier_keys_encoded [of "carrier_input X ks p h seq" "[0x30, 0x01]" "[0x30, 0x01]" ks X]
  by (simp add: carrier_input_def)

lemma input_fields [simp]:
  "sequence (p2wpkh_input X key n h v seq) = seq" "signatures_valid (p2wpkh_input X key n h v seq)"
  "prevout_value (p2wpkh_input X key n h v seq) = v" "prevout (p2wpkh_input X key n h v seq) = OutPointRef (filled n) 0"
  "has_earlier_confirmation (p2wpkh_input X key n h v seq) height = (h < height)"
  "sequence (carrier_input X ks p h seq) = seq" "signatures_valid (carrier_input X ks p h seq)"
  "prevout (carrier_input X ks p h seq) = p" "prevout_height (carrier_input X ks p h seq) = Some h"
  "has_earlier_confirmation (carrier_input X ks p h seq) height = (h < height)"
  by (simp_all add: p2wpkh_input_def carrier_input_def has_earlier_confirmation_def)

lemma no_op_return [simp]: "\<not> is_op_return (p2wpkh_script X k)" "\<not> is_op_return (carrier_script X ks)"
  by (simp_all add: is_op_return_def p2wpkh_script_def carrier_script_def get_at_def)

lemma script_of_ok:
  assumes "length p \<le> 80"
  shows "marker_script p = (Ok (script_of p) :: ('e, bytes) res)"
  using assms by (simp add: script_of_def marker_script_def u8_of_usize_def)

lemma valid_keys: "checked X (key0 ks) (key1 ks) = Some ks \<Longrightarrow> is_valid X (key0 ks) \<and> is_valid X (key1 ks)"
  by (simp add: checked_def split: if_splits)

lemma u32_of_usize_0 [simp]: "u32_of_usize 0 = Some 0"
  by (simp add: u32_of_usize_def)

lemma create_form:
  assumes "checked X (key0 ks) (key1 ks) = Some ks" and "protocol_status s = ProtocolActive ih ho hc" and "unat ho \<le> unat h"
    and "1000 < h"
  shows "operation_form X s h (create_transaction X b ks) (VoCreate ks)"
  using assms valid_keys [OF assms(1)]
  by (auto simp: create_transaction_def form_simps split_payment_def has_other_op_return_def CARRIER_VALUE_def
      intro!: exI [of _ "3030 :: nat"])

lemma mark_form:
  assumes "checked X (key0 ks) (key1 ks) = Some ks" and "ob_keys ob = ks" and "ob_current_outpoint ob = p"
    and "unat seq = unat (ob_state_seq ob) + 1" and "c \<noteq> hash32_ZERO" and "confirmed < h" and "1000 < h"
  shows "operation_form X s h (mark_transaction X b ks p confirmed n seq c') (VoMark ob seq c)"
  using assms valid_keys [OF assms(1)]
  by (auto simp: mark_transaction_def form_simps has_other_op_return_def contains_key_def)

lemma close_form:
  assumes "checked X (key0 ks) (key1 ks) = Some ks" and "ob_keys ob = ks" and "ob_current_outpoint ob = p"
    and "ob_state_seq ob = 1" and "1109 < h"
  shows "operation_form X s h (close_transaction X b ks p) (VoClose ob 2 (filled 44))"
  using assms by (auto simp: close_transaction_def form_simps has_other_op_return_def)

lemma refund_fixture_form:
  assumes "checked X (key0 ks) (key1 ks) = Some ks" and "ob_keys ob = ks" and "ob_current_outpoint ob = p"
  shows "refund_form X h (refund_transaction X ks p confirmed) ob \<longleftrightarrow> refund_mature confirmed h"
  using assms by (simp add: refund_form_def refund_transaction_def REFUND_DELAY_def)

lemma init_fixture_form:
  assumes "is_valid X key" and "bnd_network b = Regtest"
  shows "init_form X b 100 (init_transaction X b key) \<lparr>ip_h_open = 1108, ip_h_close = 5428\<rparr>"
proof -
  let ?ip = "\<lparr>ip_h_open = 1108, ip_h_close = 5428\<rparr>" and ?tx = "init_transaction X b key"
  have p: "payload_ok (init_payload b ?ip)"
    by (simp add: payload_ok_def init_payload_def MAGIC_def opcode_from_byte_def)
  have s: "script_pubkey (outputs ?tx ! 0) = script_of (init_payload b ?ip)"
    using assms(2) by (simp add: init_transaction_def init_payload_def)
  have "\<exists>c. find_marker_candidate (script_pubkey (outputs ?tx ! 0)) 0 = Some c \<and> parse c = Ok (marker_of 0 (init_payload b ?ip))"
    using p by (subst find_parse_iff) (simp add: s marker_of_def script_of_ok payload_ok_def)
  then obtain c where c: "find_marker_candidate (script_pubkey (outputs ?tx ! 0)) 0 = Some c"
      "parse c = Ok (marker_of 0 (init_payload b ?ip))" by blast
  have "find_marker_candidate (p2wpkh_script X key) v = None" for v
    by (simp add: find_marker_candidate_def p2wpkh_script_def get_at_def)
  then have "marker_candidates ?tx b = [c]"
    using c(1) by (simp add: marker_candidates_def init_transaction_def List.map_filter_simps split: option.splits)
  moreover have "\<not> has_other_op_return ?tx 0" by (simp add: has_other_op_return_def init_transaction_def)
  ultimately show ?thesis
    using assms c(2) unfolding init_form_def
    by (auto simp: init_transaction_def change_output_def marker_of_def)
qed

section \<open>Accepted transactions\<close>

lemma filled_bytes: "bytes_of (filled n) = replicate 32 n"
  by (simp add: filled_def)

lemma filled_eq_ZERO: "filled n = hash32_ZERO \<longleftrightarrow> n = 0"
  by (simp add: hash32_ZERO_def zero_array_def filled_bytes flip: bytes_of_eq_iff)

lemma fixture_txids [simp]:
  "tx_txid (create_transaction X b ks) = filled 20" "tx_txid (close_transaction X b ks p) = filled 40"
  "tx_txid (mark_transaction X b ks p confirmed n seq c) = filled n"
  by (simp_all add: create_transaction_def close_transaction_def mark_transaction_def)

lemma accepted_asI:
  assumes "operates_on carrier op" and "operation_form X s h tx op" and "kind_allowed op kind"
    and "script_pubkey (outputs tx ! 0) = script_of (operation_payload X (binding_of s) kind op)"
  shows "accepted_as X s h tx carrier op"
proof -
  have "length (operation_payload X (binding_of s) kind op) \<le> 80"
    using operation_payload_ok(1) by (simp add: payload_ok_def)
  then show ?thesis unfolding accepted_as_iff using assms script_of_ok by metis
qed

lemma create_accepted:
  assumes "checked X (key0 ks) (key1 ks) = Some ks" and "protocol_status s = ProtocolActive ih ho hc" and "unat ho \<le> unat h"
    and "1000 < h" and "bnd_network (binding_of s) = Regtest"
  shows "accepted_as X s h (create_transaction X (binding_of s) ks) None (VoCreate ks)"
  by (rule accepted_asI [OF _ create_form [OF assms(1-4)], where kind = 0])
    (simp_all add: assms(5) operation_header_def create_transaction_def)

lemma mark_accepted:
  assumes "checked X (key0 ks) (key1 ks) = Some ks" and "ob_keys ob = ks" and "ob_current_outpoint ob = p"
    and "unat seq = unat (ob_state_seq ob) + 1" and "c \<noteq> hash32_ZERO" and "confirmed < h" and "1000 < h"
    and "bnd_network (binding_of s) = Regtest"
  shows "accepted_as X s h (mark_transaction X (binding_of s) ks p confirmed n seq c) (Some (0, ob)) (VoMark ob seq c)"
  by (rule accepted_asI [OF _ mark_form [OF assms(1-7)], where kind = 0])
    (simp_all add: assms(8) operation_header_def mark_transaction_def)

lemma close_accepted:
  assumes "checked X (key0 ks) (key1 ks) = Some ks" and "ob_keys ob = ks" and "ob_current_outpoint ob = p"
    and "ob_state_seq ob = 1" and "1109 < h" and "bnd_network (binding_of s) = Regtest"
  shows "accepted_as X s h (close_transaction X (binding_of s) ks p) (Some (0, ob)) (VoClose ob 2 (filled 44))"
  by (rule accepted_asI [OF _ close_form [OF assms(1-5)], where kind = 0])
    (simp_all add: assms(6) operation_header_def close_transaction_def filled_bytes)

lemma process_accepted:
  assumes "accepted_as X s (bv_height b) tx carrier op"
    and "carrier_spends s tx = (case carrier of None \<Rightarrow> [] | Some c \<Rightarrow> [c])"
  shows "\<exists>ei. process_transaction X s b tx i =
    (res_bind (apply_valid_operation X s b tx i ei op) (\<lambda>(s', e). Ok (s', [e])) :: ('e, chain_state \<times> event list) res)"
proof -
  obtain c m where c: "marker_candidates tx (binding_of s) = [c]" "parse c = Ok m" "validate_single X s (bv_height b) tx m carrier = Ok op"
    using assms(1) by (auto simp: accepted_as_def)
  have "length (carrier_spends s tx) \<le> 1" "spent_carrier s tx = carrier"
    using assms(2) by (cases carrier; simp add: spent_carrier_def)+
  then show ?thesis using c by (auto simp: process_marked [OF c(1)])
qed

section \<open>Blocks\<close>

text \<open>The state at a height of the test chain, up to its chained root.\<close>

definition at_height ::
    "binding \<Rightarrow> u64 \<Rightarrow> (hash32, object_state) btreemap \<Rightarrow> (outpoint_ref, hash32) btreemap \<Rightarrow> chain_state \<Rightarrow> bool" where
  "at_height b h obs act s \<longleftrightarrow>
     binding_of s = b \<and> protocol_status s = ProtocolActive 100 1108 5428 \<and> tip_height s = Some h \<and>
     tip_hash s = Some (height_hash h) \<and> objects s = obs \<and> active s = act"

lemma connect_events:
  assumes "validate_linkage s b = Ok ()" and "length (transactions b) \<le> 1" and "block_events X s b = (s1, Ok es)"
  shows "\<exists>s' d. connect_block X s b = Some (s', d) \<and> bd_events d = es \<and> undo_block s' d = Some s \<and>
    binding_of s' = binding_of s1 \<and> protocol_status s' = protocol_status s1 \<and>
    tip_height s' = Some (bv_height b) \<and> tip_hash s' = Some (bv_hash b) \<and> objects s' = objects s1 \<and> active s' = active s1"
proof -
  obtain d where d: "finish_block X s b s1 es =
       (s1\<lparr>tip_height := Some (bv_height b), tip_hash := Some (bv_hash b),
          cs_chained_root := hr_chained_root (bd_roots d)\<rparr>, Ok d)" "bd_events d = es"
    by (rule finish_block_Ok)
  let ?s = "s1\<lparr>tip_height := Some (bv_height b), tip_hash := Some (bv_hash b), cs_chained_root := hr_chained_root (bd_roots d)\<rparr>"
  have "apply_block X s b = (?s, Ok d)" using assms d(1) by (simp add: apply_block_def)
  then have "connect_block X s b = Some (?s, d)" "undo_block ?s d = Some s"
    by (simp_all add: connect_block_iff undo_block_def disconnect_apply)
  then show ?thesis using d(2) by (intro exI [of _ ?s] exI [of _ d]) simp
qed

lemma chain_linkage:
  assumes "tip_height s = Some h" and "tip_hash s = Some (height_hash h)" and "checked_add h 1 = Some h'"
  shows "validate_linkage s (chain_block h' txs) = Ok ()"
  using assms by (auto simp: validate_linkage_def chain_block_def ok_or_def checked_add_def split: if_splits)

lemma connect_active:
  assumes "at_height b h obs act s" and "checked_add h 1 = Some h'"
    and "process_transaction X s (chain_block h' [tx]) tx 0 = (Ok (s1, es) :: (reducer_error, chain_state \<times> event list) res)"
    and "binding_of s1 = b" and "protocol_status s1 = ProtocolActive 100 1108 5428"
  shows "\<exists>s' d. connect_block X s (chain_block h' [tx]) = Some (s', d) \<and> bd_events d = es \<and> undo_block s' d = Some s \<and>
    at_height b h' (objects s1) (active s1) s'"
proof -
  have "validate_linkage s (chain_block h' [tx]) = Ok ()"
    using assms(1,2) by (intro chain_linkage) (simp_all add: at_height_def)
  moreover have "block_events X s (chain_block h' [tx]) = (s1, Ok es)"
    using assms(1,3) by (simp add: block_events_def at_height_def chain_block_def)
  ultimately show ?thesis
    using connect_events [of s "chain_block h' [tx]" X s1 es] assms(4,5) by (simp add: at_height_def chain_block_def)
qed

lemma connect_empty:
  assumes "at_height b h obs act s" and "checked_add h 1 = Some h'"
  shows "\<exists>s' d. connect_block X s (chain_block h' []) = Some (s', d) \<and> bd_events d = [] \<and> at_height b h' obs act s'"
proof -
  have "validate_linkage s (chain_block h' []) = Ok ()"
    using assms(1,2) by (intro chain_linkage) (simp_all add: at_height_def)
  moreover have "block_events X s (chain_block h' []) = (s, Ok [])"
    using assms(1) by (simp add: block_events_def at_height_def chain_block_def)
  ultimately show ?thesis
    using connect_events [of s "chain_block h' []" X s "[]"] assms(1) by (auto simp: at_height_def chain_block_def)
qed

lemma empty_blocks_run:
  assumes "at_height b h obs act s" and "unat h + n < 2 ^ 63"
  shows "\<exists>s'. empty_blocks X n (h + 1) s = Some s' \<and> at_height b (h + word_of_nat n) obs act s'"
  using assms
proof (induction n arbitrary: h s)
  case (Suc n)
  obtain f where f: "checked_add h 1 = Some f"
    using Suc.prems(2) checked_add_None_iff [of h 1] by (cases "checked_add h 1") auto
  then have "f = h + 1" by (simp add: checked_add_def split: if_splits)
  then have h: "checked_add h 1 = Some (h + 1)" "unat (h + 1) = Suc (unat h)"
    using f by (simp_all add: checked_add_Some_iff)
  obtain s1 d where "connect_block X s (chain_block (h + 1) []) = Some (s1, d)" "bd_events d = []" "at_height b (h + 1) obs act s1"
    using connect_empty [OF Suc.prems(1) h(1)] by blast
  then show ?case using Suc.IH [of "h + 1" s1] Suc.prems(2) h(2) by (simp add: add.assoc)
qed simp

section \<open>The steps of the life cycle\<close>

lemma init_step:
  assumes "is_valid X key" and "bnd_network b = Regtest"
  shows "\<exists>s d. connect_block X (chain_state_new X b) (chain_block 100 [init_transaction X b key]) = Some (s, d) \<and>
    first_event (\<lambda>e. ev_event_type e = EvInit) d \<and> at_height b 100 bt_new bt_new s"
proof -
  let ?s = "chain_state_new X b" and ?tx = "init_transaction X b key" and ?b = "chain_block 100 [init_transaction X b key]"
  let ?s1 = "?s\<lparr>protocol_status := ProtocolActive 100 1108 5428\<rparr>"
  have v: "validate_configured_init X b 100 ?tx = Ok \<lparr>ip_h_open = 1108, ip_h_close = 5428\<rparr>"
    using init_fixture_form [OF assms] by (simp add: validate_configured_init_iff)
  have "block_events X ?s ?b = (?s1, Ok [valid_init_event X ?s1 ?b ?tx 0])"
    using v by (simp add: block_events_def chain_state_new_def chain_block_def init_transaction_def)
  moreover have "validate_linkage ?s ?b = Ok ()" by (simp add: validate_linkage_def chain_state_new_def)
  ultimately show ?thesis
    using connect_events [of ?s ?b X ?s1 "[valid_init_event X ?s1 ?b ?tx 0]"]
    by (auto simp: first_event_def valid_init_event_def at_height_def chain_state_new_def chain_block_def)
qed

text \<open>The object the fixtures create; \<open>holds_one\<close>: it is the only object of the state.\<close>

definition lifecycle_object :: "externals \<Rightarrow> binding \<Rightarrow> key_pair \<Rightarrow> object_state" where
  "lifecycle_object X b ks =
     \<lparr>ob_object_key = object_key X (namespace X b) (filled 20), ob_genesis = OutPointRef (filled 20) 1, ob_founding = True,
      ob_status = StActive, ob_create_height = 1108, ob_state_seq = 0, ob_current_outpoint = OutPointRef (filled 20) 1,
      ob_keys = ks, ob_terminal_txid = hash32_ZERO, ob_chapter_count = 0\<rparr>"

definition holds_one :: "binding \<Rightarrow> u64 \<Rightarrow> object_state \<Rightarrow> chain_state \<Rightarrow> bool" where
  "holds_one b h ob s \<longleftrightarrow>
     at_height b h (bt_insert (ob_object_key ob) ob bt_new) (bt_insert (ob_current_outpoint ob) (ob_object_key ob) bt_new) s"

lemma singleton_values: "bt_values (bt_insert k v bt_new) = [v]"
  by (simp add: bt_values_def bt_entries_insert bt_entries_new)

lemma remove_singleton: "bt_remove k (bt_insert k v bt_new) = bt_new"
  by (rule bt.remove_insert_fresh) simp

text \<open>An accepted transaction that is alone in the next block takes effect there.\<close>

lemma accepted_step:
  assumes "at_height b h obs act s" and "checked_add h 1 = Some h'" and "accepted_as X s h' tx carrier op"
    and "carrier_spends s tx = (case carrier of None \<Rightarrow> [] | Some c \<Rightarrow> [c])"
    and "\<And>ei. \<exists>s1 e. apply_valid_operation X s (chain_block h' [tx]) tx 0 ei op = (Ok (s1, e) :: (reducer_error, chain_state \<times> event) res) \<and>
      P e \<and> binding_of s1 = binding_of s \<and> protocol_status s1 = protocol_status s \<and> objects s1 = obs' \<and> active s1 = act'"
  shows "\<exists>s' d. connect_block X s (chain_block h' [tx]) = Some (s', d) \<and> first_event P d \<and> undo_block s' d = Some s \<and>
    at_height b h' obs' act' s'"
proof -
  obtain ei where "process_transaction X s (chain_block h' [tx]) tx 0 =
      (res_bind (apply_valid_operation X s (chain_block h' [tx]) tx 0 ei op) (\<lambda>(s', e). Ok (s', [e])) :: (reducer_error, chain_state \<times> event list) res)"
    using process_accepted [of X s "chain_block h' [tx]" tx carrier op 0] assms(3,4) by (auto simp: chain_block_def)
  then obtain s1 e where p: "process_transaction X s (chain_block h' [tx]) tx 0 = (Ok (s1, [e]) :: (reducer_error, chain_state \<times> event list) res)"
      and e: "P e" "binding_of s1 = binding_of s" "protocol_status s1 = protocol_status s" "objects s1 = obs'" "active s1 = act'"
    using assms(5) [of ei] by auto
  have "binding_of s1 = b" "protocol_status s1 = ProtocolActive 100 1108 5428"
    using assms(1) e(2,3) by (simp_all add: at_height_def)
  from connect_active [OF assms(1,2) p this] show ?thesis using e by (auto simp: first_event_def)
qed

lemma create_step:
  assumes "checked X (key0 ks) (key1 ks) = Some ks" and "bnd_network b = Regtest" and "at_height b 1107 bt_new bt_new s"
  shows "\<exists>s' d. connect_block X s (chain_block 1108 [create_transaction X b ks]) = Some (s', d) \<and>
    first_event (\<lambda>e. ev_event_type e = EvCreate) d \<and> undo_block s' d = Some s \<and> holds_one b 1108 (lifecycle_object X b ks) s'"
proof -
  have s: "binding_of s = b" "protocol_status s = ProtocolActive 100 1108 5428" "objects s = bt_new" "active s = bt_new"
    using assms(3) by (simp_all add: at_height_def)
  show ?thesis unfolding holds_one_def
  proof (rule accepted_step [OF assms(3), where op = "VoCreate ks" and carrier = None])
    show "checked_add (1107 :: u64) 1 = Some 1108" by (simp add: checked_add_def)
    show "accepted_as X s 1108 (create_transaction X b ks) None (VoCreate ks)"
      using create_accepted [OF assms(1) s(2), of 1108] assms(2) s(1) by simp
  qed (auto simp: carrier_spends_def apply_valid_operation_def Let_def s valid_event_base_def lifecycle_object_def
      chain_block_def create_transaction_def List.map_filter_simps word_less_nat_alt word_le_nat_alt unat_u64_of_u32)
qed

definition marked_object :: "object_state \<Rightarrow> u8 \<Rightarrow> object_state" where
  "marked_object ob n = ob\<lparr>ob_current_outpoint := OutPointRef (filled n) 1, ob_state_seq := 1, ob_chapter_count := 1\<rparr>"

text \<open>The carrier spend of the fixtures: input 0 spends the only carrier, a payer's input spends output 0.\<close>

lemma one_spend:
  assumes "holds_one b h ob s" and "inputs tx = carrier_input X ks p c sq # ins" and "ob_current_outpoint ob = p"
    and "\<forall>i\<in>set ins. prevout i \<noteq> p"
  shows "carrier_spends s tx = [(0, ob)]"
proof -
  have "carrier_spends s (tx\<lparr>inputs := []\<rparr>) = []" by (simp add: carrier_spends_def List.map_filter_simps)
  have "List.map_filter (\<lambda>(index, inp). case bt_get (active s) (prevout inp) of None \<Rightarrow> None
      | Some key \<Rightarrow> (case bt_get (objects s) key of None \<Rightarrow> None | Some ob \<Rightarrow> Some (index, ob))) (enumerate_from 1 ins) = []"
    using assms(1,3,4)
    by (auto simp: List.map_filter_def filter_empty_conv set_enumerate_from holds_one_def at_height_def)
  then show ?thesis
    using assms(1,2,3) by (simp add: carrier_spends_def List.map_filter_simps holds_one_def at_height_def)
qed

lemma mark_step:
  assumes "checked X (key0 ks) (key1 ks) = Some ks" and "bnd_network b = Regtest"
    and "holds_one b 1108 (lifecycle_object X b ks) s"
  shows "\<exists>s' d. connect_block X s (chain_block 1109
        [mark_transaction X b ks (OutPointRef (filled 20) 1) 1108 30 1 (filled 42)]) = Some (s', d) \<and>
    first_event (\<lambda>e. ev_event_type e = EvMark) d \<and> undo_block s' d = Some s \<and>
    holds_one b 1109 (marked_object (lifecycle_object X b ks) 30) s'"
proof -
  let ?ob = "lifecycle_object X b ks" and ?tx = "mark_transaction X b ks (OutPointRef (filled 20) 1) 1108 30 1 (filled 42)"
  have s: "binding_of s = b" "objects s = bt_insert (ob_object_key ?ob) ?ob bt_new"
      "active s = bt_insert (ob_current_outpoint ?ob) (ob_object_key ?ob) bt_new"
    using assms(3) by (simp_all add: holds_one_def at_height_def)
  have "filled 42 \<noteq> hash32_ZERO" by (simp add: filled_eq_ZERO)
  then have a: "accepted_as X s 1109 ?tx (Some (0, ?ob)) (VoMark ?ob 1 (filled 42))"
    using mark_accepted [OF assms(1), of ?ob "OutPointRef (filled 20) 1" 1 "filled 42" 1108 1109 s 30] assms(2) s(1)
    by (simp add: lifecycle_object_def)
  have c: "carrier_spends s ?tx = [(0, ?ob)]"
    by (rule one_spend [OF assms(3)]) (auto simp: mark_transaction_def lifecycle_object_def)
  show ?thesis unfolding holds_one_def
  proof (rule accepted_step [OF assms(3) [unfolded holds_one_def] _ a])
    show "checked_add (1108 :: u64) 1 = Some 1109" by (simp add: checked_add_def)
  qed (auto simp: c apply_valid_operation_def Let_def s valid_event_base_def lifecycle_object_def marked_object_def
      remove_singleton checked_add_def)
qed

lemma close_step:
  assumes "checked X (key0 ks) (key1 ks) = Some ks" and "bnd_network b = Regtest" and "holds_one b 1109 ob s"
    and "ob_keys ob = ks" and "ob_current_outpoint ob = p" and "ob_state_seq ob = 1"
  shows "\<exists>s' d. connect_block X s (chain_block 1110 [close_transaction X b ks p]) = Some (s', d) \<and>
    first_event (\<lambda>e. ev_event_type e = EvClose) d \<and> undo_block s' d = Some s \<and>
    (\<exists>ob'. ob_status ob' = StClosed \<and> bt_values (objects s') = [ob'])"
proof -
  let ?tx = "close_transaction X b ks p"
  let ?ob = "ob\<lparr>ob_status := StClosed, ob_current_outpoint := outpoint_ZERO, ob_terminal_txid := filled 40, ob_state_seq := 2\<rparr>"
  have s: "binding_of s = b" "objects s = bt_insert (ob_object_key ob) ob bt_new"
      "active s = bt_insert (ob_current_outpoint ob) (ob_object_key ob) bt_new"
    using assms(3) by (simp_all add: holds_one_def at_height_def)
  have a: "accepted_as X s 1110 ?tx (Some (0, ob)) (VoClose ob 2 (filled 44))"
    using close_accepted [OF assms(1) assms(4-6), of 1110 s] assms(2) s(1) by simp
  have c: "carrier_spends s ?tx = [(0, ob)]"
    by (rule one_spend [OF assms(3) _ assms(5)]) (auto simp: close_transaction_def)
  have "\<exists>s' d. connect_block X s (chain_block 1110 [?tx]) = Some (s', d) \<and>
      first_event (\<lambda>e. ev_event_type e = EvClose) d \<and> undo_block s' d = Some s \<and>
      at_height b 1110 (bt_insert (ob_object_key ob) ?ob bt_new) bt_new s'"
  proof (rule accepted_step [OF assms(3) [unfolded holds_one_def] _ a])
    show "checked_add (1109 :: u64) 1 = Some 1110" by (simp add: checked_add_def)
  qed (auto simp: c apply_valid_operation_def Let_def s valid_event_base_def terminate_object_def bt_update_def
      remove_singleton)
  then show ?thesis by (force simp: at_height_def singleton_values)
qed

text \<open>A MARK without a commitment ends the object it spends.\<close>

lemma bad_mark_invalid:
  assumes "checked X (key0 ks) (key1 ks) = Some ks" and "bnd_network b = Regtest" and "binding_of s = b"
    and "ob_keys ob = ks" and "ob_current_outpoint ob = p" and "ob_state_seq ob = 1"
  shows "\<exists>c m. marker_candidates (mark_transaction X b ks p 1109 32 2 hash32_ZERO) b = [c] \<and> parse c = Ok m \<and>
    validate_single X s 1110 (mark_transaction X b ks p 1109 32 2 hash32_ZERO) m (Some (0, ob)) = Err BadCommitment"
proof -
  let ?tx = "mark_transaction X b ks p 1109 32 2 hash32_ZERO" and ?op = "VoMark ob 2 hash32_ZERO"
  let ?p = "operation_payload X b 0 ?op"
  have f: "operation_form X s 1110 ?tx (VoMark ob 2 (filled 1))"
    by (rule mark_form [OF assms(1,4,5)]) (use assms(6) in \<open>simp_all add: filled_eq_ZERO\<close>)
  have "length ?p \<le> 80" using operation_payload_ok(1) [of X b 0 ?op] by (simp only: payload_ok_def)
  then have "marker_script ?p = (Ok (script_pubkey (outputs ?tx ! 0)) :: (reason, bytes) res)"
    by (subst script_of_ok) (simp_all add: mark_transaction_def operation_header_def assms(2))
  moreover have "outputs ?tx \<noteq> []" "\<not> has_other_op_return ?tx 0" using f by (auto simp: standard_form_def)
  ultimately obtain c where c: "marker_candidates ?tx b = [c]" "parse c = Ok (marker_of 0 ?p)" "well_parsed (marker_of 0 ?p)"
    using operation_candidate [of X b 0 ?op ?tx b] by blast
  have h: "?p = operation_header X b 2 1 @ to_le_bytes (2 :: u32) @ [0, 0] @ bytes_of hash32_ZERO" by simp
  have op: "pm_opcode (marker_of 0 ?p) = Some OpMark" using payload_opcode [OF c(3), of X b 0 ?op] by (simp add: marker_of_def del: operation_payload.simps)
  have len: "length ?p = 78" using well_parsed_length [OF c(3) op] by (simp add: marker_of_def)
  have fields: "?p ! 4 = VERSION" "?p ! 5 = network_code (bnd_network b)" "?p ! 7 = 1"
      "array_of (take 32 (drop 8 ?p)) = namespace X b" "drop 40 ?p = to_le_bytes (2 :: u32) @ [0, 0] @ bytes_of hash32_ZERO"
    using accepted_header [OF c(3) op, of X s 1] assms(3) by (auto simp: marker_of_def)
  have tail: "?p ! 44 = 0" "?p ! 45 = 0" "from_le_bytes (take 4 (drop 40 ?p)) = (2 :: u32)" "array_of (take 32 (drop 46 ?p)) = hash32_ZERO"
    using mark_tail [of ?p 2 0 hash32_ZERO] fields(5) len by auto
  have "validate_mark X 1110 ?tx (marker_of 0 ?p) (Some (0, ob)) = Err BadCommitment"
    by (rule validate_mark_zero [OF _ _ _ _ _ _ _ f]) (use len fields tail in \<open>simp_all add: marker_of_def\<close>)
  then have "validate_single X s 1110 ?tx (marker_of 0 ?p) (Some (0, ob)) = Err BadCommitment"
    using fields op len assms(3) by (simp add: validate_single_def marker_of_def ok_or_def hash_at_def slice_at_def)
  then show ?thesis using c(1,2) by blast
qed

lemma bad_mark_step:
  assumes "checked X (key0 ks) (key1 ks) = Some ks" and "bnd_network b = Regtest" and "holds_one b 1109 ob s"
    and "ob_keys ob = ks" and "ob_current_outpoint ob = OutPointRef t 1" and "ob_state_seq ob = 1"
  shows "\<exists>s' d. connect_block X s (chain_block 1110 [mark_transaction X b ks (OutPointRef t 1) 1109 32 2 hash32_ZERO]) = Some (s', d) \<and>
    first_event (\<lambda>e. ev_reason e = BadCommitment \<and> ev_validity_class e = TerminalNoncanonical) d \<and> undo_block s' d = Some s"
proof -
  let ?tx = "mark_transaction X b ks (OutPointRef t 1) 1109 32 2 hash32_ZERO"
  have s: "binding_of s = b" "protocol_status s = ProtocolActive 100 1108 5428"
    using assms(3) by (simp_all add: holds_one_def at_height_def)
  obtain c m where cm: "marker_candidates ?tx b = [c]" "parse c = Ok m"
      "validate_single X s 1110 ?tx m (Some (0, ob)) = Err BadCommitment"
    using bad_mark_invalid [OF assms(1,2) s(1) assms(4-6)] by auto
  have "carrier_spends s ?tx = [(0, ob)]"
    by (rule one_spend [OF assms(3) _ assms(5)]) (auto simp: mark_transaction_def)
  then have p: "process_transaction X s (chain_block 1110 [?tx]) ?tx 0 =
      (terminate_carriers s (chain_block 1110 [?tx]) ?tx 0 (mc_vout c) BadCommitment
        (case population_namespace c of None \<Rightarrow> hash32_ZERO | Some h \<Rightarrow> h) [(0, ob)] :: (reducer_error, chain_state \<times> event list) res)"
    using cm s by (simp add: process_transaction_def Let_def index_at_def chain_block_def)
  define e where "e = exit_event (chain_block 1110 [?tx]) ?tx 0 (mc_vout c) 0 BadCommitment
        (case population_namespace c of None \<Rightarrow> hash32_ZERO | Some h \<Rightarrow> h) ob"
  let ?s = "terminate_object s ob StExitedNoncanonical (tx_txid ?tx)"
  have p': "process_transaction X s (chain_block 1110 [?tx]) ?tx 0 = (Ok (?s, [e]) :: (reducer_error, chain_state \<times> event list) res)"
    unfolding p by (simp add: terminate_carriers_def e_def)
  have "checked_add (1109 :: u64) 1 = Some 1110" by (simp add: checked_add_def)
  from connect_active [OF assms(3) [unfolded holds_one_def] this p'] show ?thesis
    using s by (auto simp: first_event_def e_def exit_event_def terminate_object_def)
qed

lemma refund_fixture:
  assumes "checked X (key0 ks) (key1 ks) = Some ks" and "ob_keys ob = ks" and "ob_current_outpoint ob = p"
  shows "validate_refund X 53669 (refund_transaction X ks p 1109) ob = Ok ()"
    and "validate_refund X 53668 (refund_transaction X ks p 1109) ob = Err BadRefundShapeOrMaturity"
proof -
  note f = refund_fixture_form [OF assms, of _ 1109]
  show "validate_refund X 53669 (refund_transaction X ks p 1109) ob = Ok ()"
    by (simp add: validate_refund_iff f refund_mature_def)
  have "validate_refund X 53668 (refund_transaction X ks p 1109) ob \<noteq> Ok ()"
    by (simp add: validate_refund_iff f refund_mature_def)
  moreover have "validate_refund X h tx ob \<noteq> Err e" if "e \<noteq> BadRefundShapeOrMaturity" for h tx e
    using that by (auto simp: validate_refund_def res_simps ok_or_def split: option.splits)
  moreover have "validate_refund X 53668 (refund_transaction X ks p 1109) ob \<noteq> Panic"
    by (rule validate_refund_no_panic)
  ultimately show "validate_refund X 53668 (refund_transaction X ks p 1109) ob = Err BadRefundShapeOrMaturity"
    by (cases "validate_refund X 53668 (refund_transaction X ks p 1109) ob") auto
qed

section \<open>The whole life cycle\<close>

lemma full_lifecycle_passes:
  assumes k: "checked X (key0 ks) (key1 ks) = Some ks" and b: "bnd_network b = Regtest"
  shows "full_lifecycle X b ks"
proof -
  let ?ob = "marked_object (lifecycle_object X b ks) 30"
  obtain s1 d1 where i: "connect_block X (chain_state_new X b) (chain_block 100 [init_transaction X b (key0 ks)]) = Some (s1, d1)"
      "first_event (\<lambda>e. ev_event_type e = EvInit) d1" "at_height b 100 bt_new bt_new s1"
    using init_step [of X "key0 ks" b] valid_keys [OF k] b by blast
  obtain s2 where e: "empty_blocks X 1007 101 s1 = Some s2" "at_height b 1107 bt_new bt_new s2"
    using empty_blocks_run [OF i(3), of 1007 X] by auto
  obtain s3 d3 where c: "connect_block X s2 (chain_block 1108 [create_transaction X b ks]) = Some (s3, d3)"
      "first_event (\<lambda>e. ev_event_type e = EvCreate) d3" "undo_block s3 d3 = Some s2" "holds_one b 1108 (lifecycle_object X b ks) s3"
    using create_step [OF k b e(2)] by blast
  obtain s4 d4 where m: "connect_block X s3 (chain_block 1109 [mark_transaction X b ks (OutPointRef (filled 20) 1) 1108 30 1 (filled 42)]) = Some (s4, d4)"
      "first_event (\<lambda>e. ev_event_type e = EvMark) d4" "undo_block s4 d4 = Some s3" "holds_one b 1109 ?ob s4"
    using mark_step [OF k b c(4)] by blast
  have ob: "ob_keys ?ob = ks" "ob_current_outpoint ?ob = OutPointRef (filled 30) 1" "ob_state_seq ?ob = 1" "ob_chapter_count ?ob = 1"
    by (simp_all add: marked_object_def lifecycle_object_def)
  obtain s5 d5 where bad: "connect_block X s4 (chain_block 1110 [mark_transaction X b ks (OutPointRef (filled 30) 1) 1109 32 2 hash32_ZERO]) = Some (s5, d5)"
      "first_event (\<lambda>e. ev_reason e = BadCommitment \<and> ev_validity_class e = TerminalNoncanonical) d5" "undo_block s5 d5 = Some s4"
    using bad_mark_step [OF k b m(4) ob(1-3)] by blast
  obtain s6 d6 ob' where cl: "connect_block X s4 (chain_block 1110 [close_transaction X b ks (OutPointRef (filled 30) 1)]) = Some (s6, d6)"
      "first_event (\<lambda>e. ev_event_type e = EvClose) d6" "undo_block s6 d6 = Some s4" "ob_status ob' = StClosed" "bt_values (objects s6) = [ob']"
    using close_step [OF k b m(4) ob(1-3)] by blast
  have v: "bt_values (objects s3) = [lifecycle_object X b ks]" "bt_values (objects s4) = [?ob]" "bt_values (objects s2) = []" "tip_height s2 = Some 1107"
    using c(4) m(4) e(2) by (simp_all add: holds_one_def at_height_def singleton_values) (simp add: bt_values_def bt_entries_new)
  have "close_and_reverse X b ks (OutPointRef (filled 30) 1) d3 d4 s4"
    using cl m(3) c(3) v by (simp add: close_and_reverse_def state_counters_def)
  then have "refund_and_bad_mark X b ks d3 d4 s4"
    using refund_fixture [OF k ob(1,2)] bad v(2) ob(2-4) by (simp add: refund_and_bad_mark_def)
  then show ?thesis
    using i e c m v(1) by (simp add: full_lifecycle_def state_counters_def lifecycle_object_def)
qed

text \<open>The keys of the test are accepted by an implementation of the curve or the test fails before it starts.\<close>

lemma lifecycle_test_passes:
  assumes "key_pair_fixture X \<noteq> None"
  shows "full_lifecycle_reduces_terminates_and_reverses X"
proof -
  obtain ks where ks: "key_pair_fixture X = Some ks" using assms by blast
  then have "checked X (key0 ks) (key1 ks) = Some ks"
    by (auto simp: key_pair_fixture_def checked_def split: res.splits if_splits)
  then show ?thesis using full_lifecycle_passes [of X ks binding_fixture] ks
    by (simp add: full_lifecycle_reduces_terminates_and_reverses_def binding_fixture_def)
qed

lemma fails_closed_passes: "state_fails_closed_without_configured_init X"
  by (simp add: state_fails_closed_without_configured_init_def apply_block_def validate_linkage_def chain_state_new_def
      block_events_def)

lemma unknown_ignored_passes: "unknown_transactions_do_not_emit_events X"
proof -
  let ?s = "(chain_state_new X binding_fixture)\<lparr>protocol_status := ProtocolActive 1 1009 5329,
            tip_height := Some 1, tip_hash := Some (filled 4)\<rparr>"
  let ?b = "\<lparr>bv_hash = filled 5, bv_previous_hash = filled 4, bv_height = 2,
            transactions = [\<lparr>tx_txid = filled 6, tx_wtxid = filled 6, tx_version = 2, lock_time = 0, inputs = [],
              outputs = [\<lparr>out_value = 0, script_pubkey = [0x6a, 0x01, 0x00]\<rparr>]\<rparr>]\<rparr>"
  have "find_marker_candidate [0x6a, 0x01, 0x00] v = None" for v by (simp add: find_marker_candidate_def push_prefix_def get_at_def)
  then have "block_events X ?s ?b = (?s, Ok [])"
    by (simp add: block_events_def process_transaction_def marker_candidates_def carrier_spends_def List.map_filter_simps)
  moreover have "validate_linkage ?s ?b = Ok ()" by (simp add: validate_linkage_def checked_add_def ok_or_def)
  ultimately show ?thesis
    using connect_events [of ?s ?b X ?s "[]"] unfolding unknown_transactions_do_not_emit_events_def Let_def by auto
qed

end
