(* ===== verification/Acceptance_Properties.thy ===== *)
theory Acceptance_Properties
  imports Lifecycle Concrete_Chain
begin

text \<open>Which transactions take effect, and which deployments start.\<close>

section \<open>Operations and refunds\<close>

definition operation_transaction ::
    "externals \<Rightarrow> chain_state \<Rightarrow> u64 \<Rightarrow> tx_view \<Rightarrow> (nat \<times> object_state) option \<Rightarrow> validated_operation \<Rightarrow> bool" where
  "operation_transaction X s h tx carrier op \<longleftrightarrow>
     operates_on carrier op \<and> operation_form X s h tx op \<and>
     (\<exists>kind. kind_allowed op kind \<and>
        marker_script (operation_payload X (binding_of s) kind op) = (Ok (script_pubkey (outputs tx ! 0)) :: (reason, bytes) res))"

text \<open>At most one active carrier is spent, in the form of an operation or of a refund.\<close>

definition takes_effect :: "externals \<Rightarrow> chain_state \<Rightarrow> u64 \<Rightarrow> tx_view \<Rightarrow> bool" where
  "takes_effect X s h tx \<longleftrightarrow>
     (\<exists>carrier op. carrier_spends s tx = (case carrier of None \<Rightarrow> [] | Some c \<Rightarrow> [c]) \<and> operation_transaction X s h tx carrier op) \<or>
     (\<exists>j ob. carrier_spends s tx = [(j, ob)] \<and> refund_form X h tx ob)"

lemma refund_unmarked:
  assumes "refund_form X h tx ob"
  shows "marker_candidates tx b = []"
proof -
  have "c \<notin> set (marker_candidates tx b)" for c
  proof
    assume "c \<in> set (marker_candidates tx b)"
    then obtain j where "j < length (outputs tx)" "find_marker_candidate (script_pubkey (outputs tx ! j)) (mc_vout c) = Some c"
      by (rule marker_candidates_found)
    then show False
      using assms by (auto simp: refund_form_def find_marker_candidate_def is_op_return_def split: if_splits)
  qed
  then show ?thesis by (metis list.set_intros(1) list.exhaust)
qed

lemma operation_performed:
  assumes "process_transaction X s b tx i = (Ok (s', es) :: ('e, chain_state \<times> event list) res)"
    and "carrier_spends s tx = (case carrier of None \<Rightarrow> [] | Some c \<Rightarrow> [c])" and "accepted_as X s (bv_height b) tx carrier op"
  shows "\<exists>e. es = [e] \<and> ev_validity_class e = ValidOperation"
proof -
  have "\<exists>ei. process_transaction X s b tx i =
      (res_bind (apply_valid_operation X s b tx i ei op) (\<lambda>(s', e). Ok (s', [e])) :: ('e, chain_state \<times> event list) res)"
    by (rule process_accepted [OF assms(3,2)])
  then obtain ei where "res_bind (apply_valid_operation X s b tx i ei op) (\<lambda>(s', e). Ok (s', [e])) =
      (Ok (s', es) :: ('e, chain_state \<times> event list) res)"
    using assms(1) by metis
  then obtain e where "apply_valid_operation X s b tx i ei op = (Ok (s', e) :: ('e, chain_state \<times> event) res)" "es = [e]"
    by (auto simp: res_simps)
  moreover have "ev_validity_class e = ValidOperation"
    using calculation(1)
    by (auto simp: apply_valid_operation_def Let_def valid_event_base_def res_simps
        split: validated_operation.splits protocol_status.splits option.splits)
  ultimately show ?thesis by simp
qed

lemma refund_performed:
  assumes "process_transaction X s b tx i = (Ok (s', es) :: ('e, chain_state \<times> event list) res)"
    and "carrier_spends s tx = [(j, ob)]" and "refund_form X (bv_height b) tx ob"
  shows "es = [valid_refund_event X s b tx i ob]"
proof -
  have "validate_refund X (bv_height b) tx ob = Ok ()" "length (inputs tx) = 1" "length (outputs tx) = 2"
    using assms(3) by (simp add: validate_refund_iff, simp_all add: refund_form_def)
  then show ?thesis using assms(1,2) refund_unmarked [OF assms(3)] by (simp add: process_transaction_def)
qed

lemma takes_effect_accepted:
  "takes_effect X s h tx \<longleftrightarrow>
     (\<exists>carrier op. carrier_spends s tx = (case carrier of None \<Rightarrow> [] | Some c \<Rightarrow> [c]) \<and> accepted_as X s h tx carrier op) \<or>
     (\<exists>j ob. carrier_spends s tx = [(j, ob)] \<and> refund_form X h tx ob)"
  by (simp only: takes_effect_def operation_transaction_def accepted_as_iff)

lemma effect_is_valid_event:
  assumes "process_transaction X s b tx i = (Ok (s', es) :: ('e, chain_state \<times> event list) res)"
    and "takes_effect X s (bv_height b) tx"
  shows "\<exists>e. es = [e] \<and> ev_validity_class e = ValidOperation"
  using assms(2) unfolding takes_effect_accepted
proof (elim disjE exE conjE)
  fix carrier op
  assume "carrier_spends s tx = (case carrier of None \<Rightarrow> [] | Some c \<Rightarrow> [c])" "accepted_as X s (bv_height b) tx carrier op"
  with assms(1) show ?thesis by (rule operation_performed)
next
  fix j ob
  assume "carrier_spends s tx = [(j, ob)]" "refund_form X (bv_height b) tx ob"
  from refund_performed [OF assms(1) this] show ?thesis by (simp add: valid_refund_event_def valid_event_base_def)
qed

lemma no_effect:
  assumes "process_transaction X s b tx i = (Ok (s', es) :: ('e, chain_state \<times> event list) res)"
    and "\<not> takes_effect X s (bv_height b) tx"
  shows "s' = terminate_all (tx_txid tx) (sort_key (\<lambda>(_, ob). ob_object_key ob) (carrier_spends s tx)) s \<and>
    (\<forall>e\<in>set es. ev_validity_class e \<noteq> ValidOperation)"
  using assms(1)
proof (cases rule: process_transaction_Ok)
  case (exits ei rsn ns)
  then show ?thesis
    by (auto simp: terminate_carriers_def terminate_loop_eq exit_events_def exit_event_def split: if_splits)
next
  case (refund j ob)
  then show ?thesis using assms(2) by (auto simp: takes_effect_accepted validate_refund_iff)
next
  case (operation c m carrier op e)
  then show ?thesis using assms(2) unfolding takes_effect_accepted accepted_as_def by blast
qed (simp_all add: bare_invalid_event_def)

text \<open>
  C2. The reducer accepts exactly the transactions of the protocol. In a consistent state a
  transaction gets a valid event if and only if it spends at most one active carrier and is one of
  five forms: a CREATE, MARK, ROTATE or CLOSE whose first output is the minimal push of exactly the
  marker bytes of the operation, or an unmarked refund, with every key, script, height and amount as
  the form prescribes in unbounded arithmetic. Otherwise the only change of state is that every
  object whose carrier it spends leaves the protocol.
\<close>

theorem transactions_take_effect_iff:
  assumes "chain_ok X s" and "length (inputs tx) \<le> 4294967296"
  shows "\<exists>s' es. process_transaction X s b tx i = (Ok (s', es) :: (reducer_error, chain_state \<times> event list) res) \<and>
    (takes_effect X s (bv_height b) tx \<longrightarrow> (\<exists>e. es = [e] \<and> ev_validity_class e = ValidOperation)) \<and>
    (\<not> takes_effect X s (bv_height b) tx \<longrightarrow>
       s' = terminate_all (tx_txid tx) (sort_key (\<lambda>(_, ob). ob_object_key ob) (carrier_spends s tx)) s \<and>
       (\<forall>e\<in>set es. ev_validity_class e \<noteq> ValidOperation))"
proof -
  obtain s' es where p: "process_transaction X s b tx i = (Ok (s', es) :: (reducer_error, chain_state \<times> event list) res)"
    using process_transaction_total [OF assms] by fastforce
  then show ?thesis using effect_is_valid_event [OF p] no_effect [OF p] by blast
qed

theorem transactions_take_effect_iff_witness:
  "takes_effect demo_externals open_state 1108 demo_create \<and>
   \<not> takes_effect demo_externals open_state 1107 demo_create"
proof -
  have ok: "chain_ok demo_externals open_state" using open_admissible by (simp add: admissible_def)
  have "length (inputs demo_create) \<le> 4294967296" by (simp add: demo_create_def create_transaction_def)
  note t = transactions_take_effect_iff [OF ok this, of "demo_block _ [demo_create]" 0]
  have "case (process_transaction demo_externals open_state (demo_block 1108 [demo_create]) demo_create 0
        :: (reducer_error, chain_state \<times> event list) res) of
      Ok (s', es) \<Rightarrow> map ev_validity_class es = [ValidOperation] | _ \<Rightarrow> False"
    by code_simp
  moreover have "case (process_transaction demo_externals open_state (demo_block 1107 [demo_create]) demo_create 0
        :: (reducer_error, chain_state \<times> event list) res) of
      Ok (s', es) \<Rightarrow> map ev_validity_class es = [InvalidNoState] | _ \<Rightarrow> False"
    by code_simp
  ultimately show ?thesis using t [of 1108] t [of 1107] by (auto simp: chain_block_def)
qed

section \<open>The configured INIT\<close>

text \<open>
  C20. The configured INIT is accepted exactly when it has the form of the protocol: its first output
  is the marker with the protocol's parameters, it pays its change back to the key it spends from
  with a positive fee, the founding window is 4,320 blocks and opens at least 1,008 blocks later.
\<close>

theorem init_is_accepted_iff:
  "validate_configured_init X b h tx = Ok ip \<longleftrightarrow> init_form X b h tx ip"
  by (rule validate_configured_init_iff)

section \<open>The life cycle\<close>

text \<open>
  C22. The tests of the reducer pass in general: for every implementation of the hash functions and
  of the curve, every deployment on the test network and every valid pair of keys. INIT activates
  the protocol, the 1,007 blocks until the window opens emit nothing, CREATE, MARK and CLOSE of one
  object take effect with their events, the refund is valid from 52,560 blocks after the carrier's
  confirmation and not a block before, a MARK with a zero commitment ends the object, and each
  rollback leads back. A block without the configured INIT is refused, and a transaction without a
  marker or carrier emits nothing.
\<close>

theorem lifecycle_runs_and_reverses:
  assumes "checked X (key0 ks) (key1 ks) = Some ks" and "bnd_network b = Regtest"
  shows "full_lifecycle X b ks \<and> state_fails_closed_without_configured_init X \<and> unknown_transactions_do_not_emit_events X"
  using full_lifecycle_passes [OF assms] fails_closed_passes unknown_ignored_passes by blast

theorem lifecycle_runs_and_reverses_witness:
  "full_lifecycle demo_externals demo_binding demo_keys"
proof -
  have "checked demo_externals (key0 demo_keys) (key1 demo_keys) = Some demo_keys" by code_simp
  then show ?thesis using lifecycle_runs_and_reverses [of demo_externals demo_keys demo_binding] by (simp add: demo_binding_def)
qed

end
