(* ===== verification/Ingest_Liveness.thy ===== *)
theory Ingest_Liveness
  imports Agreement
begin

text \<open>
  Progress of the worker. A pass over a source that serves one well-formed chain and a database that
  answers succeeds, wherever the worker starts: the stored journal is rolled back to the chain and
  extended to its best block. Together with the synchronisation of the worker after failures this
  makes the service catch up as soon as its surroundings work again.
\<close>

section \<open>Surroundings that work\<close>

text \<open>
  A chain as Bitcoin builds it: linked, with heights that fit the database, blocks that fit their
  32-bit counts, block hashes that differ, the configured INIT in one block only, and transactions
  whose object keys differ from there on.
\<close>

definition honest_chain :: "externals \<Rightarrow> binding \<Rightarrow> (u64 \<Rightarrow> block_view) \<Rightarrow> u64 \<Rightarrow> u64 \<Rightarrow> bool" where
  "honest_chain X bnd chain first best \<longleftrightarrow>
     first \<le> best \<and> unat best < 2 ^ 63 \<and> chain_linked chain best \<and>
     (\<forall>h\<le>best. bv_height (chain h) = h \<and> length (transactions (chain h)) \<le> 4294967295 \<and>
        inputs_bounded (chain h) \<and> (has_init bnd (chain h) \<longleftrightarrow> h = first)) \<and>
     inj_on (bv_hash \<circ> chain) {..best} \<and>
     distinct_keys X bnd (block_txids (map chain (height_range first best)))"

text \<open>From call \<open>T\<close> on, the source answers from that chain and the database answers.\<close>

definition cooperates :: "'w world_scheme \<Rightarrow> nat \<Rightarrow> binding \<Rightarrow> (u64 \<Rightarrow> block_view) \<Rightarrow> u64 \<Rightarrow> u64 \<Rightarrow> bool" where
  "cooperates W T bnd chain first best \<longleftrightarrow>
     (\<forall>t\<ge>T. db_outage W t = Reachable \<and>
        (\<exists>status. src_status W t = Some status \<and> ready_for status (bnd_network bnd)) \<and>
        src_best_height W t = Some best \<and>
        src_transaction_height W t (init_txid bnd) = Some (Some first) \<and>
        (\<exists>txs. src_mempool W t = Some txs \<and> distinct (map tx_txid txs)) \<and>
        (\<forall>h\<le>best. src_block_hash W t h = Some (bv_hash (chain h)) \<and> (first \<le> h \<longrightarrow> src_block W t h = Some (chain h))))"

text \<open>
  Equal hashes mean equal blocks, between some blocks and the chain. Below the first height only the
  predecessor and the transaction ids count, which a block hash commits to.
\<close>

definition identified :: "(u64 \<Rightarrow> block_view) \<Rightarrow> u64 \<Rightarrow> u64 \<Rightarrow> block_view \<Rightarrow> bool" where
  "identified chain first best b \<longleftrightarrow> (\<forall>h\<le>best. bv_hash b = bv_hash (chain h) \<longrightarrow>
     (if first \<le> h then b = chain h
      else bv_previous_hash b = bv_previous_hash (chain h) \<and>
        map tx_txid (transactions b) = map tx_txid (transactions (chain h))))"

definition hashes_identify :: "block_view set \<Rightarrow> (u64 \<Rightarrow> block_view) \<Rightarrow> u64 \<Rightarrow> u64 \<Rightarrow> bool" where
  "hashes_identify bs chain first best \<longleftrightarrow> (\<forall>b\<in>bs. identified chain first best b)"

section \<open>Rolling back to the chain\<close>

lemma cooperatesD:
  assumes "cooperates W T bnd chain first best" and "T \<le> t"
  shows "db_outage W t = Reachable" and "src_best_height W t = Some best"
    and "\<exists>status. src_status W t = Some status \<and> ready_for status (bnd_network bnd)"
    and "src_transaction_height W t (init_txid bnd) = Some (Some first)"
    and "\<exists>txs. src_mempool W t = Some txs \<and> distinct (map tx_txid txs)"
    and "h \<le> best \<Longrightarrow> src_block_hash W t h = Some (bv_hash (chain h))"
    and "first \<le> h \<Longrightarrow> h \<le> best \<Longrightarrow> src_block W t h = Some (chain h)"
  using assms by (auto simp: cooperates_def)

lemma tip_matches_reachable:
  assumes "cooperates W T bnd chain first best" and "T \<le> nd_clock nd" and "tip_hash (nd_state nd) = Some th"
  obtains nd' m where "tip_matches W best tip nd = (nd', Ok m)" and "nd_state nd' = nd_state nd"
    and "nd_db nd' = nd_db nd" and "T \<le> nd_clock nd'" and "m \<longrightarrow> tip \<le> best \<and> th = bv_hash (chain tip)"
proof (cases "best < tip")
  case True
  then show thesis using assms(2) by (intro that [of nd False]) (simp_all add: tip_matches_def)
next
  case False
  then show thesis
    using assms(2,3) cooperatesD(6) [OF assms(1,2), of tip]
    by (intro that [of "nd\<lparr>nd_clock := Suc (nd_clock nd)\<rparr>" "bv_hash (chain tip) = th"])
      (auto simp: tip_matches_def ask_def ok_or_def)
qed

lemma roll_back_reachable:
  assumes "cooperates W T bnd chain first best" and "T \<le> nd_clock nd"
    and "store_holds X D bnd ((b, d) # js) s (nd_db nd)"
  obtains nd' where "roll_back D W nd = (nd', Ok ())" and "store_holds X D bnd js (nd_state nd') (nd_db nd')"
    and "T \<le> nd_clock nd'"
proof -
  let ?st = "db_stamp W (nd_clock nd)"
  have h: "serde_laws D" "store_ok X D bnd ((b, d) # js) s (nd_db nd)" using assms(3) by (simp_all add: store_holds_def)
  obtain db r where r: "rollback_tip D Reachable ?st (nd_db nd) = (db, r)" by force
  with h have "store_ok X D bnd js (bd_before d) db \<and> r = Ok (Some (bd_before d))"
    by (cases rule: rollback_tip_cases) auto
  then show thesis
    using r h(1) assms(2) cooperatesD(1) [OF assms(1,2)]
    by (intro that [of "nd\<lparr>nd_db := db, nd_clock := Suc (nd_clock nd), nd_state := bd_before d\<rparr>"])
      (simp_all add: roll_back_def on_store_def store_holds_def)
qed

lemma store_holds_journal: "store_holds X D bnd js s db \<Longrightarrow> chain_journal X bnd js s"
  unfolding store_holds_def by (blast dest: store_okD(2))

lemma reconcile_succeeds:
  assumes "cooperates W T bnd chain first best" and "T \<le> nd_clock nd"
    and "store_holds X D bnd js (nd_state nd) (nd_db nd)"
  shows "\<exists>nd' js'. reconcile_reorg D W best nd = (nd', Ok ()) \<and> store_holds X D bnd js' (nd_state nd') (nd_db nd') \<and>
    set js' \<subseteq> set js \<and> T \<le> nd_clock nd' \<and> (js' = [] \<or> (\<exists>h\<le>best. at_block chain h (nd_state nd')))"
  using assms(2,3)
proof (induction js arbitrary: nd)
  case Nil
  then have "tip_height (nd_state nd) = None"
    using chain_journal_tip(1) [OF store_holds_journal [OF Nil.prems(2)]] by simp
  with Nil show ?case by (auto simp: reconcile_reorg.simps [of D W best nd])
next
  case (Cons j js)
  obtain b d where j: "j = (b, d)" by (cases j)
  have tip: "tip_height (nd_state nd) = Some (bd_height d)" "tip_hash (nd_state nd) = Some (bd_block_hash d)"
    using chain_journal_tip [OF store_holds_journal [OF Cons.prems(2)]] by (simp_all add: j)
  obtain nd1 m where m: "tip_matches W best (bd_height d) nd = (nd1, Ok m)" "nd_state nd1 = nd_state nd"
      "nd_db nd1 = nd_db nd" "T \<le> nd_clock nd1" "m \<longrightarrow> bd_height d \<le> best \<and> bd_block_hash d = bv_hash (chain (bd_height d))"
    by (rule tip_matches_reachable [OF assms(1) Cons.prems(1) tip(2), where tip = "bd_height d"])
  show ?case
  proof (cases m)
    case True
    then show ?thesis
      using m tip Cons.prems(2)
      by (auto simp: reconcile_reorg.simps [of D W best nd] at_block_def intro!: exI [of _ "j # js"])
  next
    case False
    have "store_holds X D bnd ((b, d) # js) (nd_state nd1) (nd_db nd1)"
      using Cons.prems(2) m by (simp add: j)
    then obtain nd2 where r: "roll_back D W nd1 = (nd2, Ok ())" "store_holds X D bnd js (nd_state nd2) (nd_db nd2)"
        "T \<le> nd_clock nd2"
      using roll_back_reachable [OF assms(1) m(4)] by metis
    show ?thesis
    proof (cases "protocol_status (nd_state nd2) = AwaitingInit")
      case True
      then have "js = []"
        by (rule chain_journal_awaiting(1) [OF store_holds_journal [OF r(2)]])
      with r True m False tip show ?thesis by (auto simp: reconcile_reorg.simps [of D W best nd])
    next
      case not_awaiting: False
      from Cons.IH [OF r(3,2)] show ?thesis
        using r(1) not_awaiting m(1,2) False tip by (auto simp: reconcile_reorg.simps [of D W best nd])
    qed
  qed
qed

section \<open>The journal is a segment of the chain\<close>

lemma height_range_snoc:
  assumes "unat h = Suc (unat h')" and "first \<le> h"
  shows "height_range first h = height_range first h' @ [h]"
proof -
  have "word_of_nat (Suc (unat h')) = h" using assms(1) [symmetric] by simp
  then show ?thesis using assms by (simp add: height_range_def word_le_nat_alt)
qed

lemma honest_chainD:
  assumes "honest_chain X bnd chain first best" and "h \<le> best"
  shows "bv_height (chain h) = h" and "length (transactions (chain h)) \<le> 4294967295"
    and "inputs_bounded (chain h)" and "has_init bnd (chain h) \<longleftrightarrow> h = first"
  using assms by (auto simp: honest_chain_def)

lemma segment_of_chain:
  assumes "honest_chain X bnd chain first best"
    and "chain_journal X bnd js s" and "js \<noteq> []" and "at_block chain h s" and "h \<le> best"
    and "hashes_identify (fst ` set js) chain first best"
  shows "first \<le> h \<and> map fst js = rev (map chain (height_range first h))"
  using assms(2-)
proof (induction js arbitrary: s h)
  case (Cons j js)
  obtain b d where j: "j = (b, d)" by (cases j)
  then have t: "chain_journal X bnd js (bd_before d)" "apply_block X (bd_before d) b = (s, Ok d)"
    using Cons.prems(1) by (auto simp: chain_journal_Cons simp del: journal_of.simps)
  have link: "validate_linkage (bd_before d) b = Ok ()" "bd_block_hash d = bv_hash b"
    by (rule apply_block_Ok [OF t(2)], simp)+
  have d: "bd_height d = h" "bv_hash b = bv_hash (chain h)"
    using Cons.prems(3) apply_block_tip(1,2) [OF t(2)] link(2) by (auto simp: at_block_def)
  have "identified chain first best b" using Cons.prems(5) j by (simp add: hashes_identify_def)
  then have b: "first \<le> h \<Longrightarrow> b = chain h" and prev: "bv_previous_hash b = bv_previous_hash (chain h)"
    and "map tx_txid (transactions b) = map tx_txid (transactions (chain h))"
    using d(2) Cons.prems(4) by (cases "first \<le> h"; fastforce simp: identified_def)+
  then have init: "has_init bnd b \<longleftrightarrow> has_init bnd (chain h)" by (simp only: has_init_def)
  show ?case
  proof (cases "js = []")
    case True
    then have "has_init bnd b" using first_block_has_init [of X bnd b d s] Cons.prems(1) j by simp
    then have "h = first" using honest_chainD(4) [OF assms(1) Cons.prems(4)] init by simp
    then show ?thesis using True j b by (simp add: height_range_def)
  next
    case False
    then obtain h' where h': "tip_height (bd_before d) = Some h'"
      using chain_journal_tip(1) [OF t(1)] by (cases js) auto
    then have u: "unat h = Suc (unat h')" and "tip_hash (bd_before d) = Some (bv_previous_hash b)"
      using link(1) apply_block_tip(4) [OF t(2) h'] d(1)
      by (auto simp: validate_linkage_def res_simps split: if_splits)
    then have "at_block chain h' (bd_before d)"
      using h' prev assms(1) Cons.prems(4) by (simp add: at_block_def honest_chain_def chain_linked_def)
    moreover have "h' \<le> best" using u Cons.prems(4) by (simp add: word_le_nat_alt)
    ultimately have "first \<le> h'" "map fst js = rev (map chain (height_range first h'))"
      using Cons.IH [OF t(1) False] Cons.prems(5) by (auto simp: hashes_identify_def)
    moreover have "first \<le> h" using \<open>first \<le> h'\<close> u by (simp add: word_le_nat_alt)
    ultimately show ?thesis using b [OF \<open>first \<le> h\<close>] j height_range_snoc [OF u \<open>first \<le> h\<close>] by simp
  qed
qed simp

section \<open>Extending the journal\<close>

text \<open>The journal that ends below height \<open>n\<close>.\<close>

definition segment :: "(u64 \<Rightarrow> block_view) \<Rightarrow> u64 \<Rightarrow> nat \<Rightarrow> block_view list" where
  "segment chain first n = map (\<lambda>k. chain (word_of_nat k)) [unat first..<n]"

lemma segment_Suc: "unat first \<le> n \<Longrightarrow> segment chain first (Suc n) = segment chain first n @ [chain (word_of_nat n)]"
  by (simp add: segment_def)

lemma segment_range: "map chain (height_range first h) = segment chain first (Suc (unat h))"
  by (simp add: segment_def height_range_def)

lemma block_txids_append: "block_txids (bs @ cs) = block_txids cs @ block_txids bs"
  by (simp add: block_txids_def)

lemma distinct_keys_suffix: "distinct_keys X b (hs @ ks) \<Longrightarrow> distinct_keys X b ks"
  by (simp add: distinct_keys_def)

lemma segment_split: "unat first \<le> n \<Longrightarrow> n \<le> m \<Longrightarrow>
    \<exists>bs. segment chain first m = segment chain first n @ bs"
  using upt_add_eq_append [of "unat first" n "m - n"] by (auto simp: segment_def)

text \<open>The journal of a segment, and the block after it: its height, its parent and its transactions.\<close>

definition follows :: "externals \<Rightarrow> binding \<Rightarrow> (u64 \<Rightarrow> block_view) \<Rightarrow> u64 \<Rightarrow> u64 \<Rightarrow> nat
      \<Rightarrow> (block_view \<times> block_delta) list \<Rightarrow> chain_state \<Rightarrow> bool" where
  "follows X bnd chain first best n js s \<longleftrightarrow>
     honest_chain X bnd chain first best \<and> chain_journal X bnd js s \<and> map fst js = rev (segment chain first n) \<and>
     unat first \<le> n \<and> n \<le> unat best"

lemma next_height:
  assumes "n \<le> unat (best :: u64)" and "k \<le> n"
  shows "unat (word_of_nat k :: u64) = k" and "(word_of_nat k :: u64) \<le> best"
  using assms u64_bound [of best] by (simp_all add: unat_of_nat word_le_nat_alt)

lemma next_block_keys:
  assumes "follows X bnd chain first best n js s"
  shows "distinct_keys X bnd (map tx_txid (transactions (chain (word_of_nat n))) @ block_txids (segment chain first n))"
proof -
  have n: "unat first \<le> n" "n \<le> unat best" using assms by (simp_all add: follows_def)
  obtain bs where "segment chain first (Suc (unat best)) = segment chain first (Suc n) @ bs"
    using segment_split [of first "Suc n" "Suc (unat best)"] n by auto
  then have "distinct_keys X bnd (block_txids bs @ block_txids (segment chain first (Suc n)))"
    using assms by (simp add: follows_def honest_chain_def segment_range block_txids_append)
  from distinct_keys_suffix [OF this] show ?thesis
    by (simp add: segment_Suc [OF n(1)] block_txids_append) (simp add: block_txids_def)
qed

lemma next_block_admissible:
  assumes "follows X bnd chain first best n js s"
  shows "admissible X (block_txids (segment chain first n)) s (chain (word_of_nat n))" and "binding_of s = bnd"
proof -
  have j: "chain_journal X bnd js s" "map fst js = rev (segment chain first n)" using assms by (simp_all add: follows_def)
  have "replay (connect_block X) (chain_state_new X bnd) (segment chain first n) = Some s"
    using journal_replay [OF j(1)] j(2) by simp
  then have "chain_ok X s" "history_ok (block_txids (segment chain first n)) s" "binding_of s = bnd"
    using replay_chain_ok [of X "chain_state_new X bnd" "segment chain first n" s "[]"]
      distinct_keys_suffix [OF next_block_keys [OF assms]] by auto
  then show "admissible X (block_txids (segment chain first n)) s (chain (word_of_nat n))" "binding_of s = bnd"
    using next_block_keys [OF assms] by (simp_all add: admissible_def)
qed

lemma next_block_linked:
  assumes "follows X bnd chain first best n js s"
  shows "validate_linkage s (chain (word_of_nat n)) = Ok ()"
proof (cases js)
  case Nil
  then show ?thesis using chain_journal_tip(1) [of X bnd js s] assms by (simp add: follows_def validate_linkage_def)
next
  case (Cons e js')
  have f: "honest_chain X bnd chain first best" "chain_journal X bnd js s" "map fst js = rev (segment chain first n)"
      "unat first \<le> n" "n \<le> unat best"
    using assms by (simp_all add: follows_def)
  obtain b d where e: "e = (b, d)" by (cases e)
  have "length js = n - unat first" using arg_cong [OF f(3), of length] by (simp add: segment_def)
  then have "unat first < n" using Cons by simp
  then obtain k where k: "n = Suc k" "unat first \<le> k" by (cases n) auto
  let ?k = "word_of_nat k :: u64" and ?h = "word_of_nat n :: u64"
  have u: "unat ?h = n" "?h \<le> best" "unat ?k = k" "?k \<le> best"
    by (rule next_height [OF f(5)], simp add: k(1))+
  have "b = chain ?k" using f(3) Cons e k by (simp add: segment_Suc)
  moreover have "bd_height d = bv_height b" "bd_block_hash d = bv_hash b"
    by (rule apply_block_Ok, use f(2) Cons e in \<open>auto simp: chain_journal_Cons simp del: journal_of.simps\<close>)+
  moreover have "checked_add ?k 1 = Some ?h" using u k by (simp add: checked_add_Some_iff)
  moreover have "bv_previous_hash (chain ?h) = bv_hash (chain ?k)"
    using f(1) u k by (simp add: honest_chain_def chain_linked_def)
  ultimately show ?thesis
    using chain_journal_tip [OF f(2)] Cons e honest_chainD(1) [OF f(1)] u by (simp add: validate_linkage_def ok_or_def)
qed

lemma next_block_applies:
  assumes "follows X bnd chain first best n js s"
  shows "\<exists>s' d. apply_block X s (chain (word_of_nat n)) = (s', Ok d)"
proof -
  let ?h = "word_of_nat n :: u64"
  have f: "honest_chain X bnd chain first best" "chain_journal X bnd js s" "map fst js = rev (segment chain first n)"
      "unat first \<le> n" "?h \<le> best"
    using assms next_height(2) [of n best n] by (simp_all add: follows_def)
  have "init_txid (binding_of s) \<in> tx_txid ` set (transactions (chain ?h))" if "protocol_status s = AwaitingInit"
  proof -
    from chain_journal_awaiting(1) [OF f(2) that] have "n = unat first"
      using arg_cong [OF f(3), of length] f(4) by (simp add: segment_def)
    then have "?h = first" by simp
    then show ?thesis using honest_chainD(4) [OF f(1,5)] next_block_admissible(2) [OF assms] by (simp add: has_init_def)
  qed
  then show ?thesis
    using apply_block_result(1) [OF next_block_admissible(1) [OF assms] honest_chainD(3) [OF f(1,5)]]
      next_block_linked [OF assms] honest_chainD(2) [OF f(1,5)] by blast
qed

lemma next_block_is_new:
  assumes "follows X bnd chain first best n js s" and "(b, d) \<in> set js"
  shows "bd_block_hash d \<noteq> bv_hash (chain (word_of_nat n))"
proof -
  have f: "honest_chain X bnd chain first best" "chain_journal X bnd js s" "map fst js = rev (segment chain first n)" "n \<le> unat best"
    using assms(1) by (simp_all add: follows_def)
  have "b \<in> set (segment chain first n)" using assms(2) f(3) by (metis fst_conv image_eqI list.set_map set_rev)
  then obtain k where k: "k < n" "b = chain (word_of_nat k)" by (auto simp: segment_def)
  let ?k = "word_of_nat k :: u64" and ?h = "word_of_nat n :: u64"
  have u: "unat ?k = k" "?k \<le> best" "unat ?h = n" "?h \<le> best" using next_height [OF f(4)] k(1) by auto
  then have "?k \<noteq> ?h" using k(1) by auto
  then have "bv_hash b \<noteq> bv_hash (chain ?h)"
    using f(1) u k(2) by (auto simp: honest_chain_def dest!: inj_onD [of _ _ ?k ?h])
  moreover have "bd_block_hash d = bv_hash b" using journal_entry [OF f(2) assms(2)] by (auto elim: apply_block_Ok)
  ultimately show ?thesis by simp
qed

lemma extend_journal:
  assumes "honest_chain X bnd chain first best" and "store_holds X D bnd js s db"
    and "map fst js = rev (segment chain first n)" and "unat first \<le> n" and "n \<le> unat best"
    and "commit_text (parser_commit release)" and "commit_text (indexer_commit release)"
  shows "\<exists>s' d db'. apply_block X s (chain (word_of_nat n)) = (s', Ok d) \<and>
    store_apply_block D Reachable s' d release db = (db', Ok ()) \<and>
    store_holds X D bnd ((chain (word_of_nat n), d) # js) s' db'"
proof -
  let ?h = "word_of_nat n :: u64"
  have f: "follows X bnd chain first best n js s"
    using assms(1,3-5) store_holds_journal [OF assms(2)] by (simp add: follows_def)
  obtain s' d where a: "apply_block X s (chain ?h) = (s', Ok d)" using next_block_applies [OF f] by blast
  have hd: "bd_height d = ?h" "bd_block_hash d = bv_hash (chain ?h)"
    by (rule apply_block_Ok [OF a], simp add: honest_chainD(1) [OF assms(1) next_height(2) [OF assms(5) order_refl]])+
  moreover have "unat (bd_height d) < 2 ^ 63"
    using hd(1) next_height(1) [OF assms(5) order_refl] assms(1,5) by (simp add: honest_chain_def)
  ultimately show ?thesis
    using store_apply_block_succeeds [of D X bnd js s db "block_txids (segment chain first n)" "chain ?h" s' d release]
      next_block_is_new [OF f] next_block_admissible(1) [OF f] assms(2,6,7) a
    by (auto simp: store_holds_def)
qed

lemma apply_one_succeeds:
  assumes "apply_block X (nd_state nd) b = (s', Ok d)"
    and "store_apply_block D Reachable s' d release (nd_db nd) = (db', Ok ())"
    and "db_outage W (nd_clock nd) = Reachable"
  shows "apply_one X D W release b nd =
    (nd\<lparr>nd_state := s', nd_db := db', nd_clock := Suc (nd_clock nd)\<rparr>, Ok ())"
  using assms by (simp add: apply_one_def on_store_def)

lemma apply_range_succeeds:
  assumes "honest_chain X bnd chain first best" and "cooperates W T bnd chain first best"
    and "commit_text (parser_commit release)" and "commit_text (indexer_commit release)"
    and "T \<le> nd_clock nd" and "store_holds X D bnd js (nd_state nd) (nd_db nd)"
    and "map fst js = rev (segment chain first n)" and "unat first \<le> n" and "n \<le> Suc (unat best)"
  shows "\<exists>nd' js'. apply_range X D W release (map word_of_nat [n..<Suc (unat best)]) nd = (nd', Ok ()) \<and>
    store_holds X D bnd js' (nd_state nd') (nd_db nd') \<and>
    map fst js' = rev (segment chain first (Suc (unat best))) \<and> T \<le> nd_clock nd'"
  using assms(5-)
proof (induction "Suc (unat best) - n" arbitrary: n nd js)
  case 0
  then have "n = Suc (unat best)" by simp
  with 0 show ?case by auto
next
  case (Suc m)
  then have n: "n \<le> unat best" by simp
  let ?b = "chain (word_of_nat n)"
  let ?nd1 = "nd\<lparr>nd_clock := Suc (nd_clock nd)\<rparr>"
  obtain s' d db' where e: "apply_block X (nd_state nd) ?b = (s', Ok d)"
      "store_apply_block D Reachable s' d release (nd_db nd) = (db', Ok ())"
      "store_holds X D bnd ((?b, d) # js) s' db'"
    using extend_journal [OF assms(1) Suc.prems(2-4) n assms(3,4)] by blast
  let ?nd2 = "?nd1\<lparr>nd_state := s', nd_db := db', nd_clock := Suc (Suc (nd_clock nd))\<rparr>"
  have "first \<le> (word_of_nat n :: u64)" "(word_of_nat n :: u64) \<le> best"
    using n Suc.prems(4) u64_bound [of best] by (simp_all add: word_le_nat_alt unat_of_nat)
  then have "ask (\<lambda>t. src_block W t (word_of_nat n)) nd = (?nd1, Ok ?b)"
    using cooperatesD(7) [OF assms(2) Suc.prems(1)] by (simp add: ask_def ok_or_def)
  moreover have "apply_one X D W release ?b ?nd1 = (?nd2, Ok ())"
    using apply_one_succeeds [of X ?nd1 ?b s' d D release db' W] e(1,2) Suc.prems(1) cooperatesD(1) [OF assms(2)]
    by simp
  moreover have "[n..<Suc (unat best)] = n # [Suc n..<Suc (unat best)]" using n by (simp add: upt_conv_Cons)
  moreover have "\<exists>nd' js'. apply_range X D W release (map word_of_nat [Suc n..<Suc (unat best)]) ?nd2 = (nd', Ok ()) \<and>
    store_holds X D bnd js' (nd_state nd') (nd_db nd') \<and>
    map fst js' = rev (segment chain first (Suc (unat best))) \<and> T \<le> nd_clock nd'"
    by (rule Suc.hyps(1) [of "Suc n" ?nd2 "(?b, d) # js"])
      (use Suc.hyps(2) Suc.prems e n in \<open>simp_all add: segment_Suc\<close>)
  ultimately show ?case by (simp del: upt_Suc)
qed

section \<open>The whole pass\<close>

lemma insert_mempool_rows_succeed:
  assumes "serde_laws D" and "distinct (map tx_txid txs)"
    and "\<forall>r\<in>set (mempool_overlay db). mr_txid r \<notin> (bytes_of \<circ> tx_txid) ` set txs"
  shows "\<exists>db'. insert_mempool_rows D txs db = Ok db'"
  using assms(2,3)
proof (induction txs arbitrary: db)
  case (Cons tx txs)
  obtain v where v: "tx_to_value D tx = Some v" using assms(1) unfolding serde_laws_def by blast
  let ?r = "\<lparr>mr_txid = bytes_of (tx_txid tx), mr_payload = v\<rparr>"
  have "insert_mempool ?r db = Ok (db\<lparr>mempool_overlay := mempool_overlay db @ [?r]\<rparr>)"
    using Cons.prems(2) by (force simp: insert_mempool_def octets32_def list_ex_iff)
  moreover have "\<exists>db'. insert_mempool_rows D txs (db\<lparr>mempool_overlay := mempool_overlay db @ [?r]\<rparr>) = Ok db'"
    using Cons.prems by (intro Cons.IH) (auto simp: bytes_of_eq_iff)
  ultimately show ?case by (auto simp: v ok_or_def)
qed simp

lemma refresh_succeeds:
  assumes "cooperates W T bnd chain first best" and "T \<le> nd_clock nd"
    and "store_holds X D bnd js (nd_state nd) (nd_db nd)"
  shows "\<exists>nd'. refresh_mempool D W nd = (nd', Ok ()) \<and> nd_state nd' = nd_state nd \<and>
    store_holds X D bnd js (nd_state nd') (nd_db nd')"
proof -
  obtain txs where txs: "src_mempool W (nd_clock nd) = Some txs" "distinct (map tx_txid txs)"
    using cooperatesD(5) [OF assms(1,2)] by blast
  obtain db' where "insert_mempool_rows D txs (nd_db nd\<lparr>mempool_overlay := []\<rparr>) = Ok db'"
    using insert_mempool_rows_succeed [of D txs "nd_db nd\<lparr>mempool_overlay := []\<rparr>"] txs(2) assms(3)
    by (auto simp: store_holds_def)
  moreover have "db_outage W (Suc (nd_clock nd)) = Reachable"
    using cooperatesD(1) [OF assms(1), of "Suc (nd_clock nd)"] assms(2) by simp
  ultimately have r: "replace_mempool D (db_outage W (Suc (nd_clock nd))) txs (nd_db nd) = (db', Ok ())"
    by (simp add: replace_mempool_def transact_def)
  moreover obtain rs where "db' = nd_db nd\<lparr>mempool_overlay := rs\<rparr>"
    using replace_mempool_database [OF r] by blast
  ultimately show ?thesis
    using txs(1) assms(3) by (auto simp: refresh_mempool_def ask_def ok_or_def on_store_def store_holds_def)
qed

text \<open>A reconciled worker continues after the segment it has, or with the block of the configured INIT.\<close>

lemma first_height_succeeds:
  assumes "honest_chain X bnd chain first best" and "cooperates W T bnd chain first best" and "T \<le> nd_clock nd"
    and "store_holds X D bnd js (nd_state nd) (nd_db nd)" and "hashes_identify (fst ` set js) chain first best"
    and "js = [] \<or> (\<exists>h\<le>best. at_block chain h (nd_state nd))"
  shows "\<exists>nd' f. first_height W nd = (nd', Ok (Some f)) \<and> nd_state nd' = nd_state nd \<and> nd_db nd' = nd_db nd \<and>
    T \<le> nd_clock nd' \<and> map fst js = rev (segment chain first (unat f)) \<and> first \<le> f \<and> unat f \<le> Suc (unat best)"
proof (cases "js = []")
  case True
  note j = store_holds_journal [OF assms(4)]
  have "tip_height (nd_state nd) = None" using True chain_journal_tip(1) [OF j] by simp
  moreover have "src_transaction_height W (nd_clock nd) (init_txid bnd) = Some (Some first)"
    by (rule cooperatesD(4) [OF assms(2,3)])
  ultimately show ?thesis
    using True assms(1,3) chain_journal_binding [OF j]
    by (intro exI [of _ "nd\<lparr>nd_clock := Suc (nd_clock nd)\<rparr>"] exI [of _ first])
      (simp add: first_height_def ask_def ok_or_def segment_def honest_chain_def word_le_nat_alt)
next
  case False
  then obtain h where h: "h \<le> best" "at_block chain h (nd_state nd)" using assms(6) by blast
  from segment_of_chain [OF assms(1) store_holds_journal [OF assms(4)] False h(2,1) assms(5)]
  have s: "first \<le> h" "map fst js = rev (segment chain first (Suc (unat h)))" by (simp_all add: segment_range)
  have "unat h < 2 ^ 63" using h(1) assms(1) by (simp add: honest_chain_def word_le_nat_alt)
  then obtain f where "checked_add h 1 = Some f" "unat f = Suc (unat h)"
    using checked_add_None_iff [of h 1] checked_add_Some_iff [of h 1] by (cases "checked_add h 1") auto
  then show ?thesis
    using s h assms(3) by (intro exI [of _ nd] exI [of _ f]) (simp add: first_height_def at_block_def ok_or_def word_le_nat_alt)
qed

lemma run_once_succeeds:
  assumes "honest_chain X bnd chain first best" and "cooperates W (nd_clock nd) bnd chain first best"
    and "commit_text (parser_commit release)" and "commit_text (indexer_commit release)"
    and "store_holds X D bnd js (nd_state nd) (nd_db nd)" and "hashes_identify (fst ` set js) chain first best"
  shows "\<exists>nd' js'. run_once X D W release nd = (nd', Ok ()) \<and>
    store_holds X D bnd js' (nd_state nd') (nd_db nd') \<and> map fst js' = rev (map chain (height_range first best))"
proof -
  let ?T = "nd_clock nd" and ?nd2 = "nd\<lparr>nd_clock := Suc (Suc (nd_clock nd))\<rparr>"
  obtain status where st: "src_status W ?T = Some status" "ready_for status (bnd_network bnd)"
    using cooperatesD(3) [OF assms(2)] by blast
  have best: "src_best_height W (Suc ?T) = Some best" using cooperatesD(2) [OF assms(2)] by simp
  have bnd: "binding_of (nd_state nd) = bnd" by (rule chain_journal_binding [OF store_holds_journal [OF assms(5)]])
  obtain nd3 js3 where rec: "reconcile_reorg D W best ?nd2 = (nd3, Ok ())"
      "store_holds X D bnd js3 (nd_state nd3) (nd_db nd3)" "set js3 \<subseteq> set js" "?T \<le> nd_clock nd3"
      "js3 = [] \<or> (\<exists>h\<le>best. at_block chain h (nd_state nd3))"
    using reconcile_succeeds [OF assms(2), of ?nd2 X D js] assms(5) by auto
  have "hashes_identify (fst ` set js3) chain first best" using assms(6) rec(3) by (auto simp: hashes_identify_def)
  then obtain nd4 f where f: "first_height W nd3 = (nd4, Ok (Some f))" "nd_state nd4 = nd_state nd3" "nd_db nd4 = nd_db nd3"
      "?T \<le> nd_clock nd4" and seg: "map fst js3 = rev (segment chain first (unat f))" "first \<le> f" "unat f \<le> Suc (unat best)"
    using first_height_succeeds [OF assms(1,2) rec(4,2) _ rec(5)] by blast
  have "\<exists>nd5 js5. (if f \<le> best then apply_range X D W release (height_range f best) nd4 else (nd4, Ok ())) = (nd5, Ok ()) \<and>
      store_holds X D bnd js5 (nd_state nd5) (nd_db nd5) \<and>
      map fst js5 = rev (segment chain first (Suc (unat best))) \<and> ?T \<le> nd_clock nd5"
  proof (cases "f \<le> best")
    case True
    then show ?thesis
      using apply_range_succeeds [OF assms(1-4) f(4), of D js3 "unat f"] rec(2) f(2,3) seg
      by (simp add: height_range_def word_le_nat_alt del: upt_Suc)
  next
    case False
    then have "unat f = Suc (unat best)" using seg(3) by (simp add: word_le_nat_alt)
    then show ?thesis using False rec(2) f(2-4) seg(1) by auto
  qed
  then obtain nd5 js5 where r5: "(if f \<le> best then apply_range X D W release (height_range f best) nd4 else (nd4, Ok ())) = (nd5, Ok ())"
      "store_holds X D bnd js5 (nd_state nd5) (nd_db nd5)"
      "map fst js5 = rev (segment chain first (Suc (unat best)))" "?T \<le> nd_clock nd5" by blast
  obtain nd' where nd': "refresh_mempool D W nd5 = (nd', Ok ())" "store_holds X D bnd js5 (nd_state nd') (nd_db nd')"
    using refresh_succeeds [OF assms(2) r5(4,2)] by blast
  have "run_once X D W release nd = (nd', Ok ())"
    using st best bnd rec(1) f(1) r5(1) nd'(1) by (simp add: run_once_def ask_def ok_or_def)
  then show ?thesis using nd'(2) r5(3) by (auto simp: segment_range)
qed

section \<open>Catching up\<close>

lemma rounds_catch_up:
  assumes "acknowledged W" and "store_holds X D bnd js (nd_state nd) (nd_db nd)"
    and "run_rounds X D W release n (nd, health) = Some (nd1, health1)"
    and "honest_chain X bnd chain first best" and "cooperates W (nd_clock nd1) bnd chain first best"
    and "commit_text (parser_commit release)" and "commit_text (indexer_commit release)"
    and "hashes_identify ({b. served W b} \<union> fst ` set js) chain first best"
  shows "\<exists>nd2 health2 js2. run_round X D W release (nd1, health1) = Some (nd2, health2) \<and>
    last_error health2 = None \<and> last_successful_height health2 = Some best \<and>
    store_holds X D bnd js2 (nd_state nd2) (nd_db nd2) \<and>
    map fst js2 = rev (map chain (height_range first best))"
proof -
  let ?P = "identified chain first best"
  have "synced_on ?P X D bnd nd"
    unfolding synced_on_def using assms(2,8)
    by (intro exI [of _ js] conjI ballI) (simp_all add: hashes_identify_def split_beta)
  moreover have "\<forall>b. served W b \<longrightarrow> ?P b" using assms(8) by (simp add: hashes_identify_def)
  ultimately have "synced_on ?P X D bnd nd1"
    using sync_on.R_run_rounds [OF assms(3), of ?P bnd] assms(1) by simp
  then obtain js1 where js1: "store_holds X D bnd js1 (nd_state nd1) (nd_db nd1)"
      "hashes_identify (fst ` set js1) chain first best"
    unfolding synced_on_def hashes_identify_def split_beta by blast
  obtain nd2 js2 where p: "run_once X D W release nd1 = (nd2, Ok ())"
      "store_holds X D bnd js2 (nd_state nd2) (nd_db nd2)" "map fst js2 = rev (map chain (height_range first best))"
    using run_once_succeeds [OF assms(4-7) js1] by blast
  have "first \<le> best" using assms(4) by (simp add: honest_chain_def)
  then have "hd (map fst js2) = chain best" "js2 \<noteq> []"
    using p(3) height_range_facts [of first best] by (auto simp: hd_rev last_map)
  then obtain d js3 where "js2 = (chain best, d) # js3" by (cases js2) auto
  then have "tip_height (nd_state nd2) = Some best"
    using chain_journal_tip(1) [OF store_holds_journal [OF p(2)]] journal_entry [OF store_holds_journal [OF p(2)]]
      honest_chainD(1) [OF assms(4), of best] by (fastforce elim: apply_block_Ok)
  then show ?thesis using p by (auto simp: run_round_def)
qed

end
