(* ===== verification/Honest_Core.thy ===== *)
theory Honest_Core
  imports Resolution Ingest_Liveness
begin

text \<open>
  The resolver in front of a node that tells the truth. \<open>core_chain\<close> is what such a node holds of its
  chain: the blocks, and the confirmed transactions its index returns. \<open>truthful\<close> says that its
  replies are these, with a mempool that may be another one in every call of the worker, and
  \<open>consistent\<close> that from some height on the transactions of the blocks and the outputs they spend are
  in the index. Nothing is asked of the index below that height: Core does not return the coinbase of
  its first block, and early chains repeat transaction ids. Then every call of the resolver for those
  heights succeeds and returns the view that the chain determines, whatever was cached, so that the
  resolver is a source over which the worker makes progress.
\<close>

section \<open>A node and what it holds\<close>

record core_chain =
  cc_block :: "u64 \<Rightarrow> bitcoin_block"
  cc_best :: u64
  cc_tx :: tx_cache

definition chain_hash :: "bitcoin \<Rightarrow> core_chain \<Rightarrow> u64 \<Rightarrow> hash32" where
  "chain_hash B N h = compute_block_hash B (bbl_header (cc_block N h))"

text \<open>A reply to \<open>getrawtransaction\<close> that describes an indexed transaction.\<close>

definition describes :: "externals \<Rightarrow> bitcoin \<Rightarrow> core \<Rightarrow> raw_transaction_verbose \<Rightarrow> resolved_transaction \<Rightarrow> bool" where
  "describes X B C v rt \<longleftrightarrow>
     (\<exists>raw. hex_decode X (rv_hex v) = Some raw \<and> deserialize_tx B raw = Some (rt_transaction rt)) \<and>
     (case rt_height rt of
        None \<Rightarrow> rv_confirmations v = None \<or> rv_blockhash v = None
      | Some h \<Rightarrow> \<exists>n block_hash. rv_confirmations v = Some n \<and> 0 < n \<and> rv_blockhash v = Some block_hash \<and>
          (\<forall>t. call (getblockheader C t block_hash) = Ok h))"

definition answers :: "externals \<Rightarrow> bitcoin \<Rightarrow> core \<Rightarrow> tx_cache \<Rightarrow> bool" where
  "answers X B C ix \<longleftrightarrow> (\<forall>txid rt. ix txid = Some rt \<longrightarrow>
     compute_txid B (rt_transaction rt) = txid \<and>
     (\<forall>t. \<exists>v. call (getrawtransaction C t (hash_text B txid)) = Ok v \<and> describes X B C v rt))"

text \<open>Every input finds its output.\<close>

definition inputs_indexed :: "bitcoin \<Rightarrow> tx_cache \<Rightarrow> bitcoin_tx \<Rightarrow> bool" where
  "inputs_indexed B ix tx \<longleftrightarrow>
     (\<forall>i\<in>set (btx_input tx). \<not> is_null B (bin_txid i) (bin_vout i) \<longrightarrow>
        (\<exists>rt. ix (bin_txid i) = Some rt \<and> unat (bin_vout i) < length (btx_output (rt_transaction rt))))"

text \<open>The confirmed transactions and those of a mempool.\<close>

definition with_pool :: "bitcoin \<Rightarrow> core_chain \<Rightarrow> bitcoin_tx list \<Rightarrow> tx_cache" where
  "with_pool B N pool =
     cc_tx N ++ map_of (map (\<lambda>tx. (compute_txid B tx, \<lparr>rt_transaction = tx, rt_height = None\<rparr>)) pool)"

definition tells_pool :: "externals \<Rightarrow> bitcoin \<Rightarrow> core_chain \<Rightarrow> core \<Rightarrow> bitcoin_tx list \<Rightarrow> bool" where
  "tells_pool X B N C pool \<longleftrightarrow>
     (\<forall>t. call (getrawmempool C t) = Ok (map (\<lambda>tx. hash_text B (compute_txid B tx)) pool)) \<and>
     distinct (map (compute_txid B) pool) \<and> answers X B C (with_pool B N pool) \<and>
     (\<forall>tx\<in>set pool. inputs_indexed B (with_pool B N pool) tx)"

definition truthful :: "externals \<Rightarrow> bitcoin \<Rightarrow> network \<Rightarrow> core_chain \<Rightarrow> core \<Rightarrow> bool" where
  "truthful X B net N C \<longleftrightarrow>
     (\<forall>t. (\<exists>info. call (getblockchaininfo C t) = Ok info \<and> bi_chain info = core_label net \<and>
        bi_blocks info = cc_best N \<and> bi_headers info = cc_best N \<and> \<not> bi_initialblockdownload info) \<and>
     (\<exists>indexes. call (getindexinfo C t ''txindex'') = Ok indexes \<and> map_of indexes ''txindex'' = Some True) \<and>
     call (getblockcount C t) = Ok (cc_best N) \<and>
     (\<forall>h\<le>cc_best N. call (getblockhash C t h) = Ok (hash_text B (chain_hash B N h)) \<and>
        (\<exists>text raw. call (getblock C t (hash_text B (chain_hash B N h))) = Ok text \<and>
           hex_decode X text = Some raw \<and> deserialize_block B raw = Some (cc_block N h)))) \<and>
     answers X B C (cc_tx N) \<and> (\<exists>pool. tells_pool X B N C pool)"

definition consistent :: "bitcoin \<Rightarrow> core_chain \<Rightarrow> u64 \<Rightarrow> bool" where
  "consistent B N first \<longleftrightarrow>
     (\<forall>h. first \<le> h \<and> h \<le> cc_best N \<longrightarrow> (\<forall>tx\<in>set (bbl_txdata (cc_block N h)).
        cc_tx N (compute_txid B tx) = Some \<lparr>rt_transaction = tx, rt_height = Some h\<rparr> \<and> inputs_indexed B (cc_tx N) tx))"

text \<open>The text form of a hash is the one both the service and the crate read.\<close>

definition hash_text_laws :: "externals \<Rightarrow> bitcoin \<Rightarrow> bool" where
  "hash_text_laws X B \<longleftrightarrow>
     (\<forall>h. wire_hash X (hash_text B h) = Ok h \<and> parse_txid B (hash_text B h) = Some h)"

section \<open>The view the chain determines\<close>

definition chain_input :: "bitcoin \<Rightarrow> tx_cache \<Rightarrow> bitcoin_tx \<Rightarrow> nat \<times> bitcoin_txin \<Rightarrow> input_view" where
  "chain_input B ix tx = (\<lambda>(index, input).
     if is_null B (bin_txid input) (bin_vout input) then null_input input
     else
       case ix (bin_txid input) of
         None \<Rightarrow> null_input input
       | Some rt \<Rightarrow>
           input_of B tx index input (btx_output (rt_transaction rt) ! unat (bin_vout input)) (rt_height rt))"

definition chain_tx :: "bitcoin \<Rightarrow> tx_cache \<Rightarrow> bitcoin_tx \<Rightarrow> tx_view" where
  "chain_tx B ix tx = view_of B tx (map (chain_input B ix tx) (enumerate_from 0 (btx_input tx)))"

definition chain_view :: "bitcoin \<Rightarrow> core_chain \<Rightarrow> u64 \<Rightarrow> block_view" where
  "chain_view B N h =
     \<lparr>bv_hash = chain_hash B N h,
      bv_previous_hash = bhd_prev_blockhash (bbl_header (cc_block N h)),
      bv_height = h,
      transactions = map (chain_tx B (cc_tx N)) (bbl_txdata (cc_block N h))\<rparr>"

section \<open>Every call succeeds\<close>

lemma raw_transaction_answers:
  assumes "answers X B C ix" and "ix txid = Some rt"
  shows "\<exists>t'. raw_transaction X B C txid t = (t', Ok rt)"
proof -
  obtain v where v: "call (getrawtransaction C t (hash_text B txid)) = Ok v" "describes X B C v rt"
    using assms unfolding answers_def by blast
  have txid: "compute_txid B (rt_transaction rt) = txid" using assms by (auto simp: answers_def)
  obtain raw where raw: "hex_decode X (rv_hex v) = Some raw" "deserialize_tx B raw = Some (rt_transaction rt)"
    using v(2) by (auto simp: describes_def)
  show ?thesis
  proof (cases "rt_height rt")
    case None
    then have "rv_confirmations v = None \<or> rv_blockhash v = None" using v(2) by (simp add: describes_def)
    then show ?thesis
      using v(1) txid raw None
      by (cases rt) (auto simp: raw_transaction_def ask_core_def ok_or_def split: option.splits)
  next
    case (Some h)
    then obtain n bh where "rv_confirmations v = Some n" "0 < n" "rv_blockhash v = Some bh"
        "\<forall>t. call (getblockheader C t bh) = Ok h"
      using v(2) by (auto simp: describes_def)
    then show ?thesis
      using v(1) txid raw Some by (cases rt) (auto simp: raw_transaction_def ask_core_def ok_or_def)
  qed
qed

lemma parent_of_answers:
  assumes "answers X B C ix" and "ix txid = Some rt"
    and "local \<subseteq>\<^sub>m ix" and "cache \<subseteq>\<^sub>m ix"
  shows "\<exists>t' cache'. parent_of X B C local cache txid t = (t', Ok (rt, cache')) \<and> cache' \<subseteq>\<^sub>m ix"
proof -
  have found: "m txid = None \<or> m txid = Some rt" if "m \<subseteq>\<^sub>m ix" for m
    using that assms(2) by (cases "m txid") (auto simp: map_le_def dom_def)
  obtain t' where "raw_transaction X B C txid t = (t', Ok rt)"
    using raw_transaction_answers [OF assms(1,2)] by blast
  moreover have "cache(txid \<mapsto> rt) \<subseteq>\<^sub>m ix" using assms(2,4) by (auto simp: map_le_def)
  ultimately show ?thesis
    using found [OF assms(3)] found [OF assms(4)] assms(4) by (auto simp: parent_of_def)
qed

lemma resolve_input_answers:
  assumes "answers X B C ix" and "local \<subseteq>\<^sub>m ix" and "cache \<subseteq>\<^sub>m ix"
    and "\<not> is_null B (bin_txid input) (bin_vout input) \<longrightarrow>
      (\<exists>rt. ix (bin_txid input) = Some rt \<and> unat (bin_vout input) < length (btx_output (rt_transaction rt)))"
  shows "\<exists>t' cache'. resolve_input X B C tx local index input cache t = (t', Ok (chain_input B ix tx (index, input), cache')) \<and>
    cache' \<subseteq>\<^sub>m ix"
proof (cases "is_null B (bin_txid input) (bin_vout input)")
  case True
  then show ?thesis using assms(3) by (simp add: resolve_input_def chain_input_def)
next
  case False
  then obtain rt where rt: "ix (bin_txid input) = Some rt" "unat (bin_vout input) < length (btx_output (rt_transaction rt))"
    using assms(4) by blast
  obtain t' cache' where "parent_of X B C local cache (bin_txid input) t = (t', Ok (rt, cache'))" "cache' \<subseteq>\<^sub>m ix"
    using parent_of_answers [OF assms(1) rt(1) assms(2,3)] by blast
  then show ?thesis using False rt by (simp add: resolve_input_def chain_input_def get_at_def ok_or_def)
qed

lemma resolve_inputs_answers:
  assumes "answers X B C ix" and "local \<subseteq>\<^sub>m ix" and "cache \<subseteq>\<^sub>m ix"
    and "\<forall>(i, input)\<in>set ins. \<not> is_null B (bin_txid input) (bin_vout input) \<longrightarrow>
      (\<exists>rt. ix (bin_txid input) = Some rt \<and> unat (bin_vout input) < length (btx_output (rt_transaction rt)))"
  shows "\<exists>t' cache'. resolve_inputs X B C tx local ins cache t = (t', Ok (map (chain_input B ix tx) ins, cache')) \<and>
    cache' \<subseteq>\<^sub>m ix"
  using assms(3,4)
proof (induction ins arbitrary: cache t)
  case (Cons i ins)
  obtain index input where i: "i = (index, input)" by (cases i)
  obtain t1 c1 where r: "resolve_input X B C tx local index input cache t = (t1, Ok (chain_input B ix tx i, c1))"
      "c1 \<subseteq>\<^sub>m ix"
    using resolve_input_answers [OF assms(1,2) Cons.prems(1), of input tx index t] Cons.prems(2) i by auto
  from Cons.IH [OF r(2), of t1] Cons.prems(2) obtain t2 c2 where
    "resolve_inputs X B C tx local ins c1 t1 = (t2, Ok (map (chain_input B ix tx) ins, c2))" "c2 \<subseteq>\<^sub>m ix" by auto
  with r(1) show ?case by (simp add: i)
qed simp

lemma resolve_transaction_answers:
  assumes "answers X B C ix" and "local \<subseteq>\<^sub>m ix" and "cache \<subseteq>\<^sub>m ix"
    and "inputs_indexed B ix tx"
  shows "\<exists>t' cache'. resolve_transaction X B C tx local cache t = (t', Ok (chain_tx B ix tx, cache')) \<and> cache' \<subseteq>\<^sub>m ix"
proof -
  have "\<forall>(i, input)\<in>set (enumerate_from 0 (btx_input tx)). \<not> is_null B (bin_txid input) (bin_vout input) \<longrightarrow>
      (\<exists>rt. ix (bin_txid input) = Some rt \<and> unat (bin_vout input) < length (btx_output (rt_transaction rt)))"
    using assms(4) by (auto simp: inputs_indexed_def set_enumerate_from)
  from resolve_inputs_answers [OF assms(1-3) this, of tx t] show ?thesis
    by (auto simp: resolve_transaction_def chain_tx_def)
qed

lemma resolve_block_answers:
  assumes "answers X B C ix" and "local \<subseteq>\<^sub>m ix" and "cache \<subseteq>\<^sub>m ix"
    and "\<forall>tx\<in>set txs. inputs_indexed B ix tx"
  shows "\<exists>t'. resolve_block X B C local txs cache t = (t', Ok (map (chain_tx B ix) txs))"
  using assms(3,4)
proof (induction txs arbitrary: cache t)
  case (Cons tx txs)
  obtain t1 c1 where r: "resolve_transaction X B C tx local cache t = (t1, Ok (chain_tx B ix tx, c1))" "c1 \<subseteq>\<^sub>m ix"
    using resolve_transaction_answers [OF assms(1,2) Cons.prems(1)] Cons.prems(2) by fastforce
  from Cons.IH [OF r(2), of t1] Cons.prems(2) r(1) show ?case by auto
qed simp

lemma local_transactions_indexed:
  assumes "\<forall>tx\<in>set txs. cc_tx N (compute_txid B tx) = Some \<lparr>rt_transaction = tx, rt_height = Some h\<rparr>"
  shows "local_transactions B h txs \<subseteq>\<^sub>m cc_tx N"
proof -
  have "fold (\<lambda>tx m. m(compute_txid B tx \<mapsto> \<lparr>rt_transaction = tx, rt_height = Some h\<rparr>)) txs m \<subseteq>\<^sub>m cc_tx N"
    if "m \<subseteq>\<^sub>m cc_tx N" for m
    using that assms by (induction txs arbitrary: m) (auto simp: map_le_def)
  then show ?thesis by (simp add: local_transactions_def)
qed

lemma rpc_block_truthful:
  assumes "truthful X B net N C" and "consistent B N first" and "first \<le> h" and "h \<le> cc_best N"
  shows "\<exists>t'. rpc_block X B C h t = (t', Ok (chain_view B N h))"
proof -
  let ?txs = "bbl_txdata (cc_block N h)"
  have hash: "call (getblockhash C t h) = Ok (hash_text B (chain_hash B N h))" for t
    using assms(1,4) by (simp add: truthful_def)
  obtain hex raw where raw: "call (getblock C (Suc t) (hash_text B (chain_hash B N h))) = Ok hex"
      "hex_decode X hex = Some raw" "deserialize_block B raw = Some (cc_block N h)"
    using assms(1,4) unfolding truthful_def by blast
  have txs: "\<forall>tx\<in>set ?txs. cc_tx N (compute_txid B tx) = Some \<lparr>rt_transaction = tx, rt_height = Some h\<rparr> \<and> inputs_indexed B (cc_tx N) tx"
    using assms(2-4) by (simp add: consistent_def)
  have ix: "answers X B C (cc_tx N)" using assms(1) by (simp add: truthful_def)
  obtain t' where "resolve_block X B C (local_transactions B h ?txs) ?txs Map.empty (Suc (Suc t)) =
      (t', Ok (map (chain_tx B (cc_tx N)) ?txs))"
    using resolve_block_answers [OF ix local_transactions_indexed [of ?txs N B h], of Map.empty ?txs] txs by auto
  then show ?thesis
    using hash raw by (simp add: rpc_block_def ask_core_def ok_or_def chain_view_def chain_hash_def)
qed

lemma rpc_status_truthful:
  assumes "truthful X B net N C"
  shows "\<exists>t' status. rpc_status C t = (t', Ok status) \<and> ready_for status net \<and> blocks status = cc_best N"
proof -
  obtain info where info: "call (getblockchaininfo C t) = Ok info" "bi_chain info = core_label net"
      "bi_blocks info = cc_best N" "bi_headers info = cc_best N" "\<not> bi_initialblockdownload info"
    using assms unfolding truthful_def by blast
  obtain indexes where "call (getindexinfo C (Suc t) ''txindex'') = Ok indexes" "map_of indexes ''txindex'' = Some True"
    using assms unfolding truthful_def by blast
  with info show ?thesis by (simp add: rpc_status_def ask_core_def ready_for_def)
qed

lemma rpc_block_hash_truthful:
  assumes "truthful X B net N C" and "hash_text_laws X B" and "h \<le> cc_best N"
  shows "rpc_block_hash X C h t = (Suc t, Ok (chain_hash B N h))"
proof -
  have "call (getblockhash C t h) = Ok (hash_text B (chain_hash B N h))" using assms(1,3) by (simp add: truthful_def)
  then show ?thesis using assms(2) by (simp add: rpc_block_hash_def ask_core_def hash_text_laws_def)
qed

lemma resolve_mempool_answers:
  assumes "answers X B C ix" and "hash_text_laws X B" and "cache \<subseteq>\<^sub>m ix"
    and "\<forall>tx\<in>set pool. (\<exists>h. ix (compute_txid B tx) = Some \<lparr>rt_transaction = tx, rt_height = h\<rparr>) \<and> inputs_indexed B ix tx"
  shows "\<exists>t' views. resolve_mempool X B C (map (\<lambda>tx. hash_text B (compute_txid B tx)) pool) cache t = (t', Ok views) \<and>
    map tx_txid views = map (compute_txid B) pool"
  using assms(3,4)
proof (induction pool arbitrary: cache t)
  case (Cons tx pool)
  obtain h where rt: "ix (compute_txid B tx) = Some \<lparr>rt_transaction = tx, rt_height = h\<rparr>" "inputs_indexed B ix tx"
    using Cons.prems(2) by auto
  obtain t1 where raw: "raw_transaction X B C (compute_txid B tx) t = (t1, Ok \<lparr>rt_transaction = tx, rt_height = h\<rparr>)"
    using raw_transaction_answers [OF assms(1) rt(1)] by blast
  obtain t2 c2 where r: "resolve_transaction X B C tx Map.empty cache t1 = (t2, Ok (chain_tx B ix tx, c2))" "c2 \<subseteq>\<^sub>m ix"
    using resolve_transaction_answers [OF assms(1) map_le_empty Cons.prems(1) rt(2)] by blast
  from Cons.IH [OF r(2), of t2] Cons.prems(2) obtain t3 views where
    "resolve_mempool X B C (map (\<lambda>tx. hash_text B (compute_txid B tx)) pool) c2 t2 = (t3, Ok views)"
    "map tx_txid views = map (compute_txid B) pool" by auto
  moreover have "tx_txid (chain_tx B ix tx) = compute_txid B tx" by (simp add: chain_tx_def view_of_def)
  ultimately show ?case using raw r(1) assms(2) by (simp add: hash_text_laws_def ok_or_def)
qed simp

lemma with_pool_member:
  assumes "distinct (map (compute_txid B) pool)" and "tx \<in> set pool"
  shows "with_pool B N pool (compute_txid B tx) = Some \<lparr>rt_transaction = tx, rt_height = None\<rparr>"
proof -
  let ?m = "map (\<lambda>tx. (compute_txid B tx, \<lparr>rt_transaction = tx, rt_height = None\<rparr>)) pool"
  have "distinct (map fst ?m)" using assms(1) by (simp add: comp_def)
  then have "map_of ?m (compute_txid B tx) = Some \<lparr>rt_transaction = tx, rt_height = None\<rparr>"
    using assms(2) by (intro map_of_is_SomeI) auto
  then show ?thesis by (simp add: with_pool_def)
qed

lemma rpc_mempool_truthful:
  assumes "truthful X B net N C" and "hash_text_laws X B"
  shows "\<exists>t' views. rpc_mempool X B C t = (t', Ok views) \<and> distinct (map tx_txid views)"
proof -
  obtain pool where p: "tells_pool X B N C pool" using assms(1) by (auto simp: truthful_def)
  then have ix: "answers X B C (with_pool B N pool)"
      "\<forall>tx\<in>set pool. (\<exists>h. with_pool B N pool (compute_txid B tx) = Some \<lparr>rt_transaction = tx, rt_height = h\<rparr>) \<and>
        inputs_indexed B (with_pool B N pool) tx"
    using with_pool_member [of B pool _ N] by (auto simp: tells_pool_def)
  obtain t' views where "resolve_mempool X B C (map (\<lambda>tx. hash_text B (compute_txid B tx)) pool) Map.empty (Suc t) = (t', Ok views)"
      "map tx_txid views = map (compute_txid B) pool"
    using resolve_mempool_answers [OF ix(1) assms(2) map_le_empty ix(2)] by blast
  then show ?thesis using p by (simp add: rpc_mempool_def ask_core_def tells_pool_def)
qed

section \<open>The resolver as a source\<close>

text \<open>A worker whose source is the resolver.\<close>

definition reads_core :: "'w block_source_scheme \<Rightarrow> externals \<Rightarrow> bitcoin \<Rightarrow> (nat \<Rightarrow> core) \<Rightarrow> bool" where
  "reads_core W X B C \<longleftrightarrow> block_source.truncate W = core_source X B C"

lemma reads_coreD:
  assumes "reads_core W X B C"
  shows "src_status W t = answer (rpc_status (C t) 0)" and "src_best_height W t = answer (rpc_best_height (C t) 0)"
    and "src_block_hash W t h = answer (rpc_block_hash X (C t) h 0)" and "src_block W t h = answer (rpc_block X B (C t) h 0)"
    and "src_transaction_height W t txid = answer (rpc_transaction_height X B (C t) txid 0)"
    and "src_mempool W t = answer (rpc_mempool X B (C t) 0)"
  using assms by (simp_all add: reads_core_def core_source_def block_source.truncate_def)

lemma truthful_core_cooperates:
  assumes "reads_core W X B C" and "\<forall>t\<ge>T. truthful X B (bnd_network bnd) N (C t) \<and> db_outage W t = Reachable"
    and "consistent B N first" and "hash_text_laws X B" and "cc_tx N (init_txid bnd) = Some rt" and "rt_height rt = Some first"
  shows "cooperates W T bnd (chain_view B N) first (cc_best N)"
proof -
  have "db_outage W t = Reachable \<and>
      (\<exists>status. src_status W t = Some status \<and> ready_for status (bnd_network bnd)) \<and>
      src_best_height W t = Some (cc_best N) \<and>
      src_transaction_height W t (init_txid bnd) = Some (Some first) \<and>
      (\<exists>txs. src_mempool W t = Some txs \<and> distinct (map tx_txid txs)) \<and>
      (\<forall>h\<le>cc_best N. src_block_hash W t h = Some (bv_hash (chain_view B N h)) \<and>
         (first \<le> h \<longrightarrow> src_block W t h = Some (chain_view B N h)))"
    if "T \<le> t" for t
  proof (intro conjI allI impI)
    have tr: "truthful X B (bnd_network bnd) N (C t)" using assms(2) that by simp
    note src = reads_coreD [OF assms(1)] answer_Some_iff
    show "db_outage W t = Reachable" using assms(2) that by simp
    show "\<exists>status. src_status W t = Some status \<and> ready_for status (bnd_network bnd)"
      using rpc_status_truthful [OF tr, of 0] by (auto simp: src)
    show "src_best_height W t = Some (cc_best N)"
      using tr by (simp add: src rpc_best_height_def ask_core_def truthful_def)
    show "src_transaction_height W t (init_txid bnd) = Some (Some first)"
      using raw_transaction_answers [of X B "C t" "cc_tx N", OF _ assms(5), of 0] tr assms(6) by (auto simp: src rpc_transaction_height_def truthful_def)
    show "\<exists>txs. src_mempool W t = Some txs \<and> distinct (map tx_txid txs)"
      using rpc_mempool_truthful [OF tr assms(4), of 0] by (auto simp: src)
    show "src_block_hash W t h = Some (bv_hash (chain_view B N h))" if "h \<le> cc_best N" for h
      using rpc_block_hash_truthful [OF tr assms(4) that] by (simp add: src chain_view_def)
    show "src_block W t h = Some (chain_view B N h)" if "h \<le> cc_best N" "first \<le> h" for h
      using rpc_block_truthful [OF tr assms(3) that(2,1), of 0] by (auto simp: src)
  qed
  then show ?thesis unfolding cooperates_def by blast
qed

end
