(* ===== verification/Liveness_Properties.thy ===== *)
theory Liveness_Properties
  imports Honest_Core Concrete_Core
begin

text \<open>
  The worker catches up, over any source that works again and over a node of Bitcoin Core that
  tells the truth.
\<close>

section \<open>A source that comes back\<close>

definition flaky_world :: world where
  "flaky_world = demo_world\<lparr>src_status := (\<lambda>t. if t = 0 then None else src_status demo_world t)\<rparr>"

lemma height_hash_inject: "height_hash h = height_hash h' \<longleftrightarrow> h = h'"
proof
  assume "height_hash h = height_hash h'"
  then have "take 8 (bytes_of (height_hash h)) = take 8 (bytes_of (height_hash h'))" by simp
  then show "h = h'" by (simp add: height_hash_def bytes_of_array_of_code)
qed simp

lemma demo_chain_inject: "bv_hash (demo_chain h) = bv_hash (demo_chain h') \<longleftrightarrow> h = h'"
  by (simp add: demo_chain_hashes height_hash_inject)

lemma demo_honest: "honest_chain demo_externals demo_binding demo_chain 100 100"
proof -
  have "has_init demo_binding (demo_chain h) \<longleftrightarrow> h = 100" for h
    by (simp add: has_init_def demo_chain_def init_block_def chain_block_def demo_init_def init_transaction_def)
  moreover have "bv_height (demo_chain h) = h" "length (transactions (demo_chain h)) \<le> 4294967295"
      "inputs_bounded (demo_chain h)" for h
    by (simp_all add: demo_chain_def init_block_def chain_block_def inputs_bounded_def demo_init_def init_transaction_def)
  moreover have "distinct_keys demo_externals demo_binding (block_txids [init_block])"
    by (simp add: distinct_keys_def block_txids_def init_block_def chain_block_def)
  moreover have "map demo_chain (height_range 100 100) = [init_block]"
    by (simp add: demo_heights demo_chain_def)
  ultimately show ?thesis
    using demo_linked
    by (simp add: honest_chain_def inj_on_def demo_chain_inject)
qed

lemma flaky_cooperates: "cooperates flaky_world 1 demo_binding demo_chain 100 100"
  using demo_serves
  by (simp add: cooperates_def flaky_world_def demo_world_def ready_for_def demo_tips)

section \<open>Catching up\<close>

text \<open>
  The worker catches up: after any rounds, with whatever failures except a lost acknowledgement of
  a commit, the next round succeeds if from then on the source serves one well-formed chain and the
  database answers. It ends with exactly the blocks of that chain in the journal, from the one with
  the INIT to the best one, whatever fork the journal was on before.
\<close>

theorem worker_catches_up:
  assumes "acknowledged W" and "store_holds X D bnd js (nd_state nd) (nd_db nd)"
    and "run_rounds X D W release n (nd, health) = Some (nd1, health1)"
    and "honest_chain X bnd chain first best" and "cooperates W (nd_clock nd1) bnd chain first best"
    and "commit_text (parser_commit release)" and "commit_text (indexer_commit release)"
    and "hashes_identify ({b. served W b} \<union> fst ` set js) chain first best"
  shows "\<exists>nd2 health2 js2. run_round X D W release (nd1, health1) = Some (nd2, health2) \<and>
    last_error health2 = None \<and> last_successful_height health2 = Some best \<and>
    store_holds X D bnd js2 (nd_state nd2) (nd_db nd2) \<and>
    map fst js2 = rev (map chain (height_range first best))"
  using assms by (rule rounds_catch_up)

theorem worker_catches_up_witness:
  "\<exists>nd2 health2 js2. run_rounds demo_externals demo_serde flaky_world demo_release 2
      (demo_node fresh_state fresh_db, \<lparr>last_successful_height = None, last_error = None, catching_up = False\<rparr>) =
      Some (nd2, health2) \<and> last_successful_height health2 = Some 100 \<and>
    store_holds demo_externals demo_serde demo_binding js2 (nd_state nd2) (nd_db nd2) \<and> map fst js2 = [init_block]"
proof -
  let ?h = "\<lparr>last_successful_height = None, last_error = None, catching_up = False\<rparr>"
  let ?nd1 = "demo_node fresh_state fresh_db\<lparr>nd_clock := 1\<rparr>" and ?h1 = "?h\<lparr>last_error := Some SourceFailed\<rparr>"
  have one: "run_round demo_externals demo_serde flaky_world demo_release (demo_node fresh_state fresh_db, ?h) = Some (?nd1, ?h1)"
    by (simp add: run_round_def run_once_def ask_def flaky_world_def ok_or_def demo_node_def)
  have "acknowledged flaky_world" using demo_acknowledged by (simp add: acknowledged_def flaky_world_def)
  moreover have "store_holds demo_externals demo_serde demo_binding [] (nd_state (demo_node fresh_state fresh_db))
      (nd_db (demo_node fresh_state fresh_db))"
    using fresh_db_ok demo_serde_laws by (simp add: store_holds_def demo_node_def)
  moreover have "run_rounds demo_externals demo_serde flaky_world demo_release 1 (demo_node fresh_state fresh_db, ?h) = Some (?nd1, ?h1)"
    using one by simp
  moreover have "hashes_identify ({b. served flaky_world b} \<union> fst ` set []) demo_chain 100 100"
    by (auto simp: hashes_identify_def identified_def served_def flaky_world_def demo_world_def demo_chain_inject)
  ultimately obtain nd2 health2 js2 where
    "run_round demo_externals demo_serde flaky_world demo_release (?nd1, ?h1) = Some (nd2, health2)"
    "last_successful_height health2 = Some 100" "store_holds demo_externals demo_serde demo_binding js2 (nd_state nd2) (nd_db nd2)"
    "map fst js2 = rev (map demo_chain (height_range 100 100))"
    using worker_catches_up [of flaky_world demo_externals demo_serde demo_binding "[]" "demo_node fresh_state fresh_db"
        demo_release 1 ?h ?nd1 ?h1 demo_chain 100 100] demo_honest flaky_cooperates demo_release_commits
    by (auto simp: demo_node_def)
  then show ?thesis using one by (simp add: numeral_2_eq_2 demo_heights demo_chain_def) (rule exI [of _ js2], simp)
qed

section \<open>A concrete node\<close>

definition honest_bitcoin :: bitcoin where
  "honest_bitcoin = demo_bitcoin
     \<lparr>deserialize_tx := (\<lambda>raw. case raw of
        n # _ \<Rightarrow> Some (if n = 1 then raw_tx demo_init else demo_parent n) | [] \<Rightarrow> None),
      deserialize_block := (\<lambda>raw.
        let h = from_le_bytes (take 8 (rev raw)) in Some (raw_block h (if h = 100 then [demo_init] else [])))\<rparr>"

definition honest_node :: core_chain where
  "honest_node =
     \<lparr>cc_block = (\<lambda>h. raw_block h (if h = 100 then [demo_init] else [])),
      cc_best = 100,
      cc_tx = [demo_hash 1 \<mapsto> \<lparr>rt_transaction = raw_tx demo_init, rt_height = Some 100\<rparr>,
               demo_hash 8 \<mapsto> \<lparr>rt_transaction = demo_parent 8, rt_height = Some 99\<rparr>]\<rparr>"

definition honest_core :: core where
  "honest_core = (demo_core [] (\<lambda>text. text) (\<lambda>text. if text = display_hash demo_externals (demo_hash 1) then 100 else 99))
     \<lparr>getblockhash := (\<lambda>_ h. if h \<le> 100 then answered (display_hash demo_externals (height_hash h)) else NoReply),
      getblock := (\<lambda>_ text. answered text)\<rparr>"

definition dead_core :: core where
  "dead_core =
     \<lparr>getblockchaininfo = (\<lambda>_. NoReply), getindexinfo = (\<lambda>_ _. NoReply), getblockcount = (\<lambda>_. NoReply),
      getblockhash = (\<lambda>_ _. NoReply), getblock = (\<lambda>_ _. NoReply), getblockheader = (\<lambda>_ _. NoReply),
      getrawtransaction = (\<lambda>_ _. NoReply), getrawmempool = (\<lambda>_. NoReply)\<rparr>"

text \<open>The node answers from the second call of the worker on.\<close>

definition returning_core :: "nat \<Rightarrow> core" where
  "returning_core t = (if t = 0 then dead_core else honest_core)"

definition returning_world :: world where
  "returning_world = block_source.extend (core_source demo_externals honest_bitcoin returning_core)
     \<lparr>db_outage = (\<lambda>_. Reachable), db_stamp = (\<lambda>t. (int t, ''now''))\<rparr>"

lemma returning_reads: "reads_core returning_world demo_externals honest_bitcoin returning_core"
  by (simp add: reads_core_def returning_world_def block_source.truncate_def block_source.extend_def)

lemma honest_hash_texts: "hash_text_laws demo_externals honest_bitcoin"
  by (simp add: hash_text_laws_def honest_bitcoin_def demo_bitcoin_def hash_texts [OF demo_hex_laws])

lemma honest_txids:
  "compute_txid honest_bitcoin (raw_tx demo_init) = demo_hash 1"
  "compute_txid honest_bitcoin (demo_parent 8) = demo_hash 8"
  "demo_hash 8 \<noteq> demo_hash 1"
  by code_simp+

lemma honest_inputs: "btx_input (raw_tx demo_init) =
    [\<lparr>bin_txid = demo_hash 8, bin_vout = 0, bin_script_sig = [], bin_sequence = u32_MAX,
      bin_witness = [[0x30, 0x01], bytes_of (key0 demo_keys)]\<rparr>]"
  by (simp add: raw_tx_def raw_input_def demo_init_def init_transaction_def p2wpkh_input_def)

lemma honest_consistent: "consistent honest_bitcoin honest_node h0"
proof -
  have "length (btx_output (demo_parent 8)) = 1" by (simp add: demo_parent_def)
  then show ?thesis
    using honest_txids
    by (auto simp: consistent_def honest_node_def raw_block_def inputs_indexed_def honest_inputs)
qed

lemma honest_hash: "chain_hash honest_bitcoin honest_node h = height_hash h"
  by (simp add: chain_hash_def honest_node_def raw_block_def honest_bitcoin_def demo_bitcoin_def height_hash_def)

lemma honest_texts:
  "hex_decode demo_externals (display_hash demo_externals h) = Some (rev (bytes_of h))"
  by (simp add: display_hash_def demo_externals_def hex_parse_text)

lemma demo_hash_bytes: "rev (bytes_of (demo_hash n)) = n # replicate 31 n"
  by (simp add: filled_def flip: replicate_Suc)

lemma honest_answers: "answers demo_externals honest_bitcoin honest_core (cc_tx honest_node)"
proof -
  have texts: "display_hash demo_externals (demo_hash 8) \<noteq> display_hash demo_externals (demo_hash 1)" by code_simp
  have "deserialize_tx honest_bitcoin (rev (bytes_of (demo_hash 1))) = Some (raw_tx demo_init)"
    "deserialize_tx honest_bitcoin (rev (bytes_of (demo_hash 8))) = Some (demo_parent 8)"
    "hash_text honest_bitcoin = display_hash demo_externals"
    by (simp_all add: honest_bitcoin_def demo_bitcoin_def demo_hash_bytes)
  then show ?thesis
    using texts honest_txids
    by (auto simp: answers_def honest_node_def honest_core_def demo_core_def answered_def ok_or_def honest_texts describes_def
        split: if_splits)
qed

lemma honest_truthful: "truthful demo_externals honest_bitcoin Regtest honest_node honest_core"
proof -
  have le: "take 8 (bytes_of (height_hash h)) = to_le_bytes h" for h
    by (simp add: height_hash_def bytes_of_array_of_code)
  have "with_pool honest_bitcoin honest_node [] = cc_tx honest_node" by (simp add: with_pool_def)
  then have "tells_pool demo_externals honest_bitcoin honest_node honest_core []"
    using honest_answers by (simp add: tells_pool_def) (simp add: honest_core_def demo_core_def answered_def ok_or_def)
  moreover have "hash_text honest_bitcoin = display_hash demo_externals" "cc_best honest_node = 100"
    "hex_decode demo_externals (display_hash demo_externals (height_hash h)) = Some (rev (bytes_of (height_hash h)))"
    "deserialize_block honest_bitcoin (rev (bytes_of (height_hash h))) = Some (cc_block honest_node h)" for h
    by (simp_all add: honest_bitcoin_def demo_bitcoin_def honest_texts honest_node_def le)
  ultimately show ?thesis
    using honest_answers unfolding truthful_def honest_hash
    by (auto simp: honest_core_def demo_core_def answered_def ok_or_def core_label.simps)
qed

lemma honest_fields:
  "cc_best honest_node = 100" "cc_block honest_node h = raw_block h (if h = 100 then [demo_init] else [])"
  by (simp_all add: honest_node_def)

lemma honest_view: "chain_view honest_bitcoin honest_node h = demo_chain h"
proof -
  have "chain_tx honest_bitcoin (cc_tx honest_node) (raw_tx demo_init) = demo_init" by code_simp
  then show ?thesis
    by (simp add: chain_view_def honest_hash demo_chain_def init_block_def chain_block_def honest_fields raw_block_def)
qed

lemma returning_serves: "served returning_world b \<Longrightarrow> \<exists>h\<le>100. b = demo_chain h"
proof -
  assume "served returning_world b"
  then obtain t h t' where b: "rpc_block demo_externals honest_bitcoin (returning_core t) h 0 = (t', Ok b)"
    unfolding served_def reads_coreD [OF returning_reads] by (auto simp: answer_Some_iff) (metis prod.collapse)
  then have "t \<noteq> 0" by (cases "t = 0") (simp_all add: returning_core_def dead_core_def rpc_block_def ask_core_def)
  moreover have "h \<le> 100"
  proof (rule ccontr)
    assume "\<not> h \<le> 100"
    then show False
      using b \<open>t \<noteq> 0\<close> by (auto simp: returning_core_def honest_core_def rpc_block_def ask_core_def)
  qed
  ultimately show ?thesis
    using b rpc_block_truthful [OF honest_truthful honest_consistent [of 0], of h 0]
    by (auto simp: returning_core_def honest_view honest_fields)
qed

lemma returning_outage: "db_outage returning_world t = Reachable"
  by (simp add: returning_world_def block_source.extend_def)

lemma returning_acknowledged: "acknowledged returning_world"
  by (simp add: acknowledged_def returning_outage)

lemma returning_up:
  assumes "1 \<le> T"
  shows "\<forall>t\<ge>T. truthful demo_externals honest_bitcoin (bnd_network demo_binding) honest_node (returning_core t) \<and>
    db_outage returning_world t = Reachable"
  using honest_truthful assms by (auto simp: returning_core_def returning_outage demo_binding_def)

lemma honest_init:
  "cc_tx honest_node (init_txid demo_binding) = Some \<lparr>rt_transaction = raw_tx demo_init, rt_height = Some 100\<rparr>"
  using honest_txids(3) by (simp add: honest_node_def demo_binding_def)

lemma honest_views: "chain_view honest_bitcoin honest_node = demo_chain"
  by (rule ext) (rule honest_view)

lemma returning_ids: "hashes_identify ({b. served returning_world b} \<union> fst ` set []) demo_chain 100 100"
  using returning_serves by (fastforce simp: hashes_identify_def identified_def demo_chain_inject)

lemma returning_first_round:
  "run_rounds demo_externals demo_serde returning_world release 1 (demo_node fresh_state fresh_db, h) =
     Some (demo_node fresh_state fresh_db\<lparr>nd_clock := 1\<rparr>, h\<lparr>last_error := Some SourceFailed, catching_up := False\<rparr>)"
proof -
  have "src_status returning_world 0 = None"
    by (simp add: reads_coreD [OF returning_reads] returning_core_def dead_core_def rpc_status_def ask_core_def answer_def)
  then show ?thesis by (simp add: run_round_def run_once_def ask_def ok_or_def demo_node_def)
qed

lemma fresh_holds: "store_holds demo_externals demo_serde demo_binding [] fresh_state fresh_db"
  using fresh_db_ok demo_serde_laws by (simp add: store_holds_def)

section \<open>Following Bitcoin Core\<close>

text \<open>
  The service follows an honest node: when Bitcoin Core answers again with the blocks, the index
  and the mempool of a well-formed chain, every call of the resolver succeeds, and the next round of
  a worker that reads from it ends with the journal of exactly that chain. The journal holds for
  every transaction the view the chain determines: each input has the value, the script and the
  height of the output it spends, and the result of checking its signatures.
\<close>

theorem service_follows_an_honest_core:
  assumes "acknowledged W" and "store_holds X D bnd js (nd_state nd) (nd_db nd)"
    and "run_rounds X D W release n (nd, health) = Some (nd1, health1)"
    and "reads_core W X B C" and "hash_text_laws X B" and "consistent B N first"
    and "\<forall>t\<ge>nd_clock nd1. truthful X B (bnd_network bnd) N (C t) \<and> db_outage W t = Reachable"
    and "cc_tx N (init_txid bnd) = Some rt" and "rt_height rt = Some first"
    and "honest_chain X bnd (chain_view B N) first (cc_best N)"
    and "commit_text (parser_commit release)" and "commit_text (indexer_commit release)"
    and "hashes_identify ({b. served W b} \<union> fst ` set js) (chain_view B N) first (cc_best N)"
  shows "\<exists>nd2 health2 js2. run_round X D W release (nd1, health1) = Some (nd2, health2) \<and>
    last_error health2 = None \<and> last_successful_height health2 = Some (cc_best N) \<and>
    store_holds X D bnd js2 (nd_state nd2) (nd_db nd2) \<and>
    map fst js2 = rev (map (chain_view B N) (height_range first (cc_best N)))"
  using truthful_core_cooperates [OF assms(4,7,6,5,8,9)]
  by (rule rounds_catch_up [OF assms(1-3,10) _ assms(11-13)])

theorem service_follows_an_honest_core_witness:
  "\<exists>nd2 health2 js2. run_rounds demo_externals demo_serde returning_world demo_release 2
      (demo_node fresh_state fresh_db, \<lparr>last_successful_height = None, last_error = None, catching_up = False\<rparr>) =
      Some (nd2, health2) \<and> last_successful_height health2 = Some 100 \<and>
    store_holds demo_externals demo_serde demo_binding js2 (nd_state nd2) (nd_db nd2) \<and> map fst js2 = [init_block]"
proof -
  let ?h = "\<lparr>last_successful_height = None, last_error = None, catching_up = False\<rparr>"
  let ?nd1 = "demo_node fresh_state fresh_db\<lparr>nd_clock := 1\<rparr>"
  have st: "store_holds demo_externals demo_serde demo_binding [] (nd_state (demo_node fresh_state fresh_db))
      (nd_db (demo_node fresh_state fresh_db))"
    using fresh_holds by (simp add: demo_node_def)
  have up: "\<forall>t\<ge>nd_clock ?nd1. truthful demo_externals honest_bitcoin (bnd_network demo_binding) honest_node (returning_core t) \<and>
      db_outage returning_world t = Reachable"
    by (rule returning_up) simp
  from service_follows_an_honest_core [OF returning_acknowledged st returning_first_round [of demo_release ?h]
      returning_reads honest_hash_texts honest_consistent up honest_init, of 100]
  obtain nd2 health2 js2 where
    "run_round demo_externals demo_serde returning_world demo_release
      (?nd1, ?h\<lparr>last_error := Some SourceFailed, catching_up := False\<rparr>) = Some (nd2, health2)"
    "last_successful_height health2 = Some 100" "store_holds demo_externals demo_serde demo_binding js2 (nd_state nd2) (nd_db nd2)"
    "map fst js2 = rev (map demo_chain (height_range 100 100))"
    using demo_honest demo_release_commits returning_ids unfolding honest_fields honest_views by auto
  then show ?thesis
    using run_rounds_last [OF returning_first_round [of demo_release ?h]]
    by (auto simp: numeral_2_eq_2 demo_heights demo_chain_def simp del: run_rounds.simps)
qed

end
