(* ===== verification/Serde_Store.thy ===== *)
theory Serde_Store
  imports Serde Store
begin

text \<open>
  The conversions the store uses, instantiated by the JSON of the program: what \<open>serde_json\<close> writes
  into a \<open>jsonb\<close> column and reads from it. The column may reorder the members of an object; that it
  keeps the value otherwise is the law \<open>jsonb_laws\<close> of the database.
\<close>

definition jsonb_laws :: "(json \<Rightarrow> json) \<Rightarrow> bool" where
  "jsonb_laws column \<longleftrightarrow> (\<forall>v. same_value v v \<longrightarrow> same_value v (column v))"

definition json_serde :: "externals \<Rightarrow> (json \<Rightarrow> json) \<Rightarrow> json serde" where
  "json_serde X column =
     \<lparr>binding_to_value = (\<lambda>b. Some (binding_to_json X b)),
      binding_from_value = (\<lambda>v. binding_from_json X (column v)),
      state_to_value = (\<lambda>s. Some (chain_state_to_json X s)),
      state_from_value = (\<lambda>v. chain_state_from_json X (column v)),
      delta_to_value = (\<lambda>d. Some (block_delta_to_json X d)),
      delta_from_value = (\<lambda>v. block_delta_from_json X (column v)),
      event_to_value = (\<lambda>e. Some (event_to_json X e)),
      object_to_value = (\<lambda>ob. Some (object_state_to_json X ob)),
      tx_to_value = (\<lambda>t. Some (tx_view_to_json X t))\<rparr>"

lemma stored_and_read:
  assumes "json_codec to_json from_json" and "jsonb_laws column"
  shows "from_json (column (to_json x)) = Some x"
  by (rule json_codec.read_back [OF assms(1)]) (use assms(2) json_codec.well_formed [OF assms(1)] in \<open>simp add: jsonb_laws_def\<close>)

lemma json_serde_laws:
  assumes "hex_laws X" and "jsonb_laws column"
  shows "serde_laws (json_serde X column)"
  using stored_and_read [OF binding_codec [OF assms(1)] assms(2)] stored_and_read [OF chain_state_codec [OF assms(1)] assms(2)]
    stored_and_read [OF block_delta_codec [OF assms(1)] assms(2)]
  by (simp add: serde_laws_def json_serde_def)

end
