(* ===== verification/Serde_Properties.thy ===== *)
theory Serde_Properties
  imports Cli Serde_Store Concrete_Chain
begin

text \<open>Properties of the JSON of the program.\<close>

lemma replay_input_read:
  assumes "hex_laws X"
    and "same_value (JObject [(''binding'', binding_to_json X b), (''blocks'', list_to_json (block_view_to_json X) bs)]) v"
  shows "replay_input_from_json X v = Some \<lparr>ri_binding = b, ri_blocks = bs, ri_expected_roots = []\<rparr>"
proof -
  note codecs = binding_codec [OF assms(1)] list_codec [OF block_view_codec [OF assms(1)]]
  have "field ''binding'' (binding_from_json X) v = Some b"
    by (rule json_codec.field_read [OF codecs(1) assms(2)]) simp
  moreover have "field ''blocks'' (list_from_json (block_view_from_json X)) v = Some bs"
    by (rule json_codec.field_read [OF codecs(2) assms(2)]) simp
  moreover obtain ns where "v = JObject ns" "set (map fst ns) = {''binding'', ''blocks''}"
    using same_objectD [OF assms(2)] by auto
  then have "default_field ''expected_roots'' [] (list_from_json (height_roots_from_json X)) v = Some []"
    using map_of_eq_None_iff [of ns "''expected_roots''"] by (simp add: default_field_def)
  ultimately show ?thesis by (simp add: replay_input_from_json_def)
qed

text \<open>A column that keeps the members of an object in the opposite order.\<close>

fun demo_column :: "json \<Rightarrow> json" where
  "demo_column (JObject ms) = JObject (rev ms)"
| "demo_column v = v"

lemma demo_column_laws: "jsonb_laws demo_column"
  unfolding jsonb_laws_def
proof (intro allI impI)
  fix v assume v: "same_value v v"
  show "same_value v (demo_column v)"
  proof (cases v)
    case (JObject ms)
    have ms: "distinct (map fst ms)" "\<forall>k x w. map_of ms k = Some x \<longrightarrow> map_of ms k = Some w \<longrightarrow> same_value x w"
      using same_objectD [of ms v] v JObject by auto
    have "map_of (rev ms) = map_of ms"
      using ms(1) by (intro map_of_inject_set [THEN iffD2]) (auto simp: rev_map [symmetric])
    then show ?thesis using ms by (auto simp: JObject rev_map [symmetric] intro!: same_object)
  qed (use v in simp_all)
qed

text \<open>
  C21. What the program writes as JSON it reads back unchanged, even after a column has reordered the
  members of the objects: the binding, the chain state with its objects and active index, the inverse
  journal entry with its events, and the blocks of a replay. In particular the conversions of the
  store satisfy the laws on which its properties rest, and this needs only that the \<open>hex\<close> crate decodes
  what it encodes.
\<close>

theorem written_values_are_read_back:
  assumes "hex_laws X" and "jsonb_laws column"
  shows "serde_laws (json_serde X column) \<and>
    (\<forall>s v. same_value (chain_state_to_json X s) v \<longrightarrow> chain_state_from_json X v = Some s) \<and>
    (\<forall>d v. same_value (block_delta_to_json X d) v \<longrightarrow> block_delta_from_json X v = Some d) \<and>
    (\<forall>b bs v. same_value (JObject [(''binding'', binding_to_json X b),
         (''blocks'', list_to_json (block_view_to_json X) bs)]) v \<longrightarrow>
       replay_input_from_json X v = Some \<lparr>ri_binding = b, ri_blocks = bs, ri_expected_roots = []\<rparr>)"
  using json_serde_laws [OF assms] json_codec.read_back [OF chain_state_codec [OF assms(1)]]
    json_codec.read_back [OF block_delta_codec [OF assms(1)]] replay_input_read [OF assms(1)]
  by blast

theorem written_values_are_read_back_witness:
  "chain_state_from_json demo_externals (demo_column (chain_state_to_json demo_externals init_state)) = Some init_state"
proof -
  have "same_value (chain_state_to_json demo_externals init_state) (demo_column (chain_state_to_json demo_externals init_state))"
    using demo_column_laws json_codec.well_formed [OF chain_state_codec [OF demo_hex_laws]] by (simp add: jsonb_laws_def)
  then show ?thesis using written_values_are_read_back [OF demo_hex_laws demo_column_laws] by blast
qed

end
