(* ===== verification/Process.thy ===== *)
theory Process
  imports Startup Api Ingest_Safety
begin

text \<open>
  The running process: the task of the ingestion worker (\<open>Ingestion::run\<close> of \<open>ingest.rs\<close>) with the
  wake-up source it waits on (\<open>wakeup.rs\<close>), and the end of \<open>main\<close>: binding the listener and serving
  until a signal. The worker is a state machine whose states are the points of its loop; \<open>recv\<close> is
  what the ZMQ socket does at the worker's \<open>n\<close>-th wait. The process interleaves the worker with
  other writers of the same database.
\<close>

section \<open>Waiting\<close>

datatype notification = Arrived | Broken | Silent

definition wakeup_wait :: "(nat \<Rightarrow> notification) \<Rightarrow> wakeup \<Rightarrow> nat \<Rightarrow> notification" where
  "wakeup_wait recv source n = (case source of PollWakeup ms \<Rightarrow> Arrived | ZmqWakeup url \<Rightarrow> recv n)"

section \<open>The worker\<close>

text \<open>
  \<open>Delayed\<close> is the short sleep after a failed wait; a panic of the pass ends the task (\<open>Dead\<close>). The
  release profile of \<open>Cargo.toml\<close> sets \<open>panic = "abort"\<close>, so there the whole process goes down with
  it (the step \<open>abort\<close> below); a build that unwinds loses the task only and keeps serving.
\<close>

datatype phase = LoopHead | InPass | Waiting | Delayed | Dead

record 'j worker =
  wk_node :: "'j node"
  wk_health :: worker_health
  wk_phase :: phase
  wk_waits :: nat

definition ingestion_new :: "'j node \<Rightarrow> worker_health \<Rightarrow> 'j worker" where
  "ingestion_new nd h = \<lparr>wk_node = nd, wk_health = h, wk_phase = LoopHead, wk_waits = 0\<rparr>"

definition end_of_pass :: "'j worker \<Rightarrow> ('j, unit) outcome \<Rightarrow> 'j worker" where
  "end_of_pass w outcome =
     (case outcome of
        (nd, Ok _) \<Rightarrow>
          w\<lparr>wk_node := nd, wk_phase := Waiting,
            wk_health := (wk_health w)\<lparr>last_successful_height := tip_height (nd_state nd), last_error := None,
              catching_up := False\<rparr>\<rparr>
      | (nd, Err e) \<Rightarrow>
          w\<lparr>wk_node := nd, wk_phase := Waiting,
            wk_health := (wk_health w)\<lparr>last_error := Some e, catching_up := False\<rparr>\<rparr>
      | (nd, Panic) \<Rightarrow> w\<lparr>wk_node := nd, wk_phase := Dead\<rparr>)"

definition worker_next ::
    "externals \<Rightarrow> 'j serde \<Rightarrow> 'w world_scheme \<Rightarrow> release_identity \<Rightarrow> (nat \<Rightarrow> notification) \<Rightarrow> wakeup
      \<Rightarrow> 'j worker \<Rightarrow> 'j worker option" where
  "worker_next X D W release recv source w =
     (case wk_phase w of
        LoopHead \<Rightarrow> Some (w\<lparr>wk_phase := InPass, wk_health := (wk_health w)\<lparr>catching_up := True\<rparr>\<rparr>)
      | InPass \<Rightarrow> Some (end_of_pass w (run_once X D W release (wk_node w)))
      | Waiting \<Rightarrow>
          (case wakeup_wait recv source (wk_waits w) of
             Arrived \<Rightarrow> Some (w\<lparr>wk_phase := LoopHead, wk_waits := Suc (wk_waits w)\<rparr>)
           | Broken \<Rightarrow> Some (w\<lparr>wk_phase := Delayed, wk_waits := Suc (wk_waits w)\<rparr>)
           | Silent \<Rightarrow> None)
      | Delayed \<Rightarrow> Some (w\<lparr>wk_phase := LoopHead\<rparr>)
      | Dead \<Rightarrow> None)"

inductive worker_reach ::
    "externals \<Rightarrow> 'j serde \<Rightarrow> 'w world_scheme \<Rightarrow> release_identity \<Rightarrow> (nat \<Rightarrow> notification) \<Rightarrow> wakeup
      \<Rightarrow> 'j worker \<Rightarrow> 'j worker \<Rightarrow> bool"
  for X D W release recv source w0 where
  spawned: "worker_reach X D W release recv source w0 w0"
| stepped: "worker_reach X D W release recv source w0 w \<Longrightarrow> worker_next X D W release recv source w = Some w' \<Longrightarrow>
    worker_reach X D W release recv source w0 w'"

section \<open>The end of main\<close>

datatype process_phase = Spawned | Serving | Exited "startup_error option" | Aborted

record ('j, 'u, 's) process =
  pr_service :: "('j, 'u, 's) service"
  pr_worker :: "'j worker"
  pr_phase :: process_phase

text \<open>The worker is spawned before the listener is bound.\<close>

definition spawn :: "('j, 'u, 's) service \<Rightarrow> ('j, 'u, 's) process" where
  "spawn sv = \<lparr>pr_service = sv, pr_worker = ingestion_new (sv_node sv) (sv_health sv), pr_phase = Spawned\<rparr>"

definition bind_and_serve :: "('u, 's) process_host \<Rightarrow> ('j, 'u, 's) process \<Rightarrow> ('j, 'u, 's) process" where
  "bind_and_serve H p =
     p\<lparr>pr_phase := (if listener_binds H (cfg_bind_addr (sv_config (pr_service p))) then Serving
                   else Exited (Some AddressUnavailable))\<rparr>"

definition shutdown_signal :: "bool \<Rightarrow> bool \<Rightarrow> bool" where
  "shutdown_signal control_c terminate \<longleftrightarrow> control_c \<or> terminate"

definition process_db :: "('j, 'u, 's) process \<Rightarrow> 'j database" where
  "process_db p = nd_db (wk_node (pr_worker p))"

fun exited :: "process_phase \<Rightarrow> bool" where
  "exited (Exited e) = True"
| "exited Aborted = True"
| "exited Spawned = False"
| "exited Serving = False"

text \<open>
  Requests only read, so they are no steps. Another writer may commit at any time. After a panic of
  the worker a process built to abort exits at once, one built to unwind goes on.
\<close>

inductive process_step ::
    "externals \<Rightarrow> 'j serde \<Rightarrow> ('u, 's) process_host \<Rightarrow> 'w world_scheme \<Rightarrow> (nat \<Rightarrow> notification)
      \<Rightarrow> ('j, 'u, 's) process \<Rightarrow> ('j, 'u, 's) process \<Rightarrow> bool"
  for X D H W recv where
  work: "\<not> exited (pr_phase p) \<Longrightarrow>
    worker_next X D W (sv_release (pr_service p)) recv (sv_wakeup (pr_service p)) (pr_worker p) = Some w \<Longrightarrow>
    process_step X D H W recv p (p\<lparr>pr_worker := w\<rparr>)"
| foreign: "store_step X D (process_db p) db \<Longrightarrow>
    process_step X D H W recv p
      (p\<lparr>pr_worker := (pr_worker p)\<lparr>wk_node := (wk_node (pr_worker p))\<lparr>nd_db := db\<rparr>\<rparr>\<rparr>)"
| listen: "pr_phase p = Spawned \<Longrightarrow> process_step X D H W recv p (bind_and_serve H p)"
| shutdown: "pr_phase p = Serving \<Longrightarrow> shutdown_signal control_c terminate \<Longrightarrow>
    process_step X D H W recv p (p\<lparr>pr_phase := Exited None\<rparr>)"
| abort: "\<not> exited (pr_phase p) \<Longrightarrow> wk_phase (pr_worker p) = Dead \<Longrightarrow>
    process_step X D H W recv p (p\<lparr>pr_phase := Aborted\<rparr>)"

section \<open>The worker runs rounds\<close>

definition idle_pair :: "'j worker \<Rightarrow> 'j node \<times> worker_health" where
  "idle_pair w = (wk_node w, (wk_health w)\<lparr>catching_up := False\<rparr>)"

text \<open>What the loop has done so far: whole rounds, and perhaps the beginning of the next one.\<close>

definition rounds_done ::
    "externals \<Rightarrow> 'j serde \<Rightarrow> 'w world_scheme \<Rightarrow> release_identity \<Rightarrow> 'j node \<times> worker_health \<Rightarrow> 'j worker \<Rightarrow> bool" where
  "rounds_done X D W release st w \<longleftrightarrow>
     (catching_up (wk_health w) \<longleftrightarrow> wk_phase w \<in> {InPass, Dead}) \<and>
     (if wk_phase w = Dead then \<exists>n. run_rounds X D W release n st = None
      else \<exists>n. run_rounds X D W release n st = Some (idle_pair w))"

lemma end_of_pass_rounds:
  assumes "rounds_done X D W release st w" and "wk_phase w = InPass"
  shows "rounds_done X D W release st (end_of_pass w (run_once X D W release (wk_node w)))"
proof -
  obtain n where n: "run_rounds X D W release n st = Some (idle_pair w)"
    using assms by (auto simp: rounds_done_def)
  obtain nd r where r: "run_once X D W release (wk_node w) = (nd, r)" by fastforce
  have "catching_up (wk_health w)" using assms by (simp add: rounds_done_def)
  then show ?thesis
    using run_rounds_last [OF n] r
    by (cases r)
      (auto simp: rounds_done_def end_of_pass_def idle_pair_def run_round_def simp del: run_rounds.simps
        intro!: exI [of _ "Suc n"])
qed

lemma worker_next_rounds:
  assumes "rounds_done X D W release st w" and "worker_next X D W release recv source w = Some w'"
  shows "rounds_done X D W release st w'"
proof (cases "wk_phase w")
  case InPass
  then show ?thesis using assms end_of_pass_rounds [OF assms(1)] by (simp add: worker_next_def)
qed (use assms in \<open>auto simp: worker_next_def rounds_done_def idle_pair_def split: notification.splits\<close>)

lemma worker_reach_rounds:
  assumes "worker_reach X D W release recv source (ingestion_new nd h) w" and "\<not> catching_up h"
  shows "rounds_done X D W release (nd, h) w"
  using assms(1)
proof induction
  case spawned
  let ?w = "ingestion_new nd h"
  have w: "wk_phase ?w = LoopHead" "wk_health ?w = h" by (simp_all add: ingestion_new_def)
  have "idle_pair ?w = (nd, h)" using assms(2) by (cases h) (simp add: idle_pair_def ingestion_new_def)
  then have "run_rounds X D W release 0 (nd, h) = Some (idle_pair ?w)" by simp
  then have "\<exists>n. run_rounds X D W release n (nd, h) = Some (idle_pair ?w)" by (rule exI)
  then show ?case using assms(2) w by (simp add: rounds_done_def)
next
  case (stepped w w')
  show ?case by (rule worker_next_rounds [OF stepped.IH stepped.hyps(2)])
qed

text \<open>Conversely every round is run, if no wait is silent.\<close>

lemma worker_reach_trans:
  assumes "worker_reach X D W release recv source w1 w2" and "worker_reach X D W release recv source w0 w1"
  shows "worker_reach X D W release recv source w0 w2"
  using assms(1)
proof induction
  case spawned
  show ?case by (rule assms(2))
next
  case (stepped w w')
  show ?case by (rule worker_reach.stepped [OF stepped.IH stepped.hyps(2)])
qed

lemma worker_reach_step:
  "worker_next X D W release recv source w = Some w' \<Longrightarrow> worker_reach X D W release recv source w w'"
  by (rule worker_reach.stepped [OF worker_reach.spawned])

lemma worker_is_woken:
  assumes "wk_phase w = Waiting" and "wakeup_wait recv source (wk_waits w) \<noteq> Silent"
  shows "\<exists>w'. worker_reach X D W release recv source w w' \<and> wk_phase w' = LoopHead \<and>
    wk_node w' = wk_node w \<and> wk_health w' = wk_health w"
proof (cases "wakeup_wait recv source (wk_waits w)")
  case Arrived
  let ?w = "w\<lparr>wk_phase := LoopHead, wk_waits := Suc (wk_waits w)\<rparr>"
  have "worker_reach X D W release recv source w ?w"
    using assms(1) Arrived by (intro worker_reach_step) (simp add: worker_next_def)
  then show ?thesis by (intro exI [of _ ?w]) simp
next
  case Broken
  let ?w1 = "w\<lparr>wk_phase := Delayed, wk_waits := Suc (wk_waits w)\<rparr>" and ?next = "worker_next X D W release recv source"
  let ?w2 = "?w1\<lparr>wk_phase := LoopHead\<rparr>"
  have "?next w = Some ?w1" "?next ?w1 = Some ?w2" using assms(1) Broken by (simp_all add: worker_next_def)
  then have "worker_reach X D W release recv source w ?w2" by (rule worker_reach.stepped [OF worker_reach_step])
  then show ?thesis by (intro exI [of _ ?w2]) simp
qed (use assms(2) in simp)

text \<open>A living worker finishes its next pass, from whatever point of the loop.\<close>

lemma pass_is_finished:
  assumes "wk_phase w = InPass" and "run_round X D W release (idle_pair w) = Some (nd, h)"
  shows "\<exists>w'. worker_reach X D W release recv source w w' \<and> wk_phase w' = Waiting \<and> wk_node w' = nd \<and> wk_health w' = h"
proof -
  let ?w = "end_of_pass w (run_once X D W release (wk_node w))"
  have "wk_phase ?w = Waiting \<and> wk_node ?w = nd \<and> wk_health ?w = h"
    using assms(2) by (auto simp: run_round_def end_of_pass_def idle_pair_def split: prod.splits res.splits)
  moreover have "worker_reach X D W release recv source w ?w"
    using assms(1) by (intro worker_reach_step) (simp add: worker_next_def)
  ultimately show ?thesis by blast
qed

lemma head_finishes_a_pass:
  assumes "wk_phase w = LoopHead" and "run_round X D W release (idle_pair w) = Some (nd, h)"
  shows "\<exists>w'. worker_reach X D W release recv source w w' \<and> wk_phase w' = Waiting \<and> wk_node w' = nd \<and> wk_health w' = h"
proof -
  let ?w = "w\<lparr>wk_phase := InPass, wk_health := (wk_health w)\<lparr>catching_up := True\<rparr>\<rparr>"
  have "worker_reach X D W release recv source w ?w"
    using assms(1) by (intro worker_reach_step) (simp add: worker_next_def)
  moreover have "wk_phase ?w = InPass" "idle_pair ?w = idle_pair w" by (simp_all add: idle_pair_def)
  ultimately show ?thesis using pass_is_finished [of ?w] assms(2) worker_reach_trans by metis
qed

lemma worker_finishes_a_pass:
  assumes "wk_phase w \<noteq> Dead" and "\<forall>k. wakeup_wait recv source k \<noteq> Silent"
    and "run_round X D W release (idle_pair w) = Some (nd, h)"
  shows "\<exists>w'. worker_reach X D W release recv source w w' \<and> wk_phase w' = Waiting \<and> wk_node w' = nd \<and> wk_health w' = h"
proof -
  have wake: ?thesis
    if r: "worker_reach X D W release recv source w w1" and w1: "wk_phase w1 = LoopHead" "idle_pair w1 = idle_pair w" for w1
  proof -
    have "run_round X D W release (idle_pair w1) = Some (nd, h)" using assms(3) w1(2) by simp
    from head_finishes_a_pass [OF w1(1) this] show ?thesis using worker_reach_trans [OF _ r] by blast
  qed
  show ?thesis
  proof (cases "wk_phase w")
    case LoopHead
    then show ?thesis using assms(3) by (rule head_finishes_a_pass)
  next
    case InPass
    then show ?thesis using assms(3) by (rule pass_is_finished)
  next
    case Waiting
    then show ?thesis using worker_is_woken [of w recv source X D W release] assms(2) wake by (auto simp: idle_pair_def)
  next
    case Delayed
    then have "worker_reach X D W release recv source w (w\<lparr>wk_phase := LoopHead\<rparr>)"
      by (intro worker_reach_step) (simp add: worker_next_def)
    then show ?thesis by (rule wake) (simp_all add: idle_pair_def)
  qed (use assms(1) in simp)
qed

lemma worker_runs_a_round:
  assumes "wk_phase w = LoopHead" and "run_round X D W release (wk_node w, wk_health w) = Some (nd, h)"
    and "\<forall>k. wakeup_wait recv source k \<noteq> Silent"
  shows "\<exists>w'. worker_reach X D W release recv source w w' \<and> wk_phase w' = LoopHead \<and> wk_node w' = nd \<and> wk_health w' = h"
proof -
  have "run_round X D W release (idle_pair w) = Some (nd, h)"
    using assms(2) by (auto simp: run_round_def idle_pair_def split: prod.splits res.splits)
  then obtain w1 where w1: "worker_reach X D W release recv source w w1" "wk_phase w1 = Waiting" "wk_node w1 = nd" "wk_health w1 = h"
    using head_finishes_a_pass [OF assms(1)] by blast
  then show ?thesis using worker_is_woken [OF w1(2)] assms(3) worker_reach_trans [OF _ w1(1)] by metis
qed

lemma worker_runs_rounds:
  assumes "wk_phase w = LoopHead" and "run_rounds X D W release n (wk_node w, wk_health w) = Some (nd, h)"
    and "\<forall>k. wakeup_wait recv source k \<noteq> Silent"
  shows "\<exists>w'. worker_reach X D W release recv source w w' \<and> wk_phase w' = LoopHead \<and> wk_node w' = nd \<and> wk_health w' = h"
  using assms(1,2)
proof (induction n arbitrary: w)
  case 0
  then show ?case by (intro exI [of _ w]) (simp add: worker_reach.spawned)
next
  case (Suc n)
  obtain nd1 h1 where r: "run_round X D W release (wk_node w, wk_health w) = Some (nd1, h1)"
      "run_rounds X D W release n (nd1, h1) = Some (nd, h)"
    using Suc.prems(2) by (auto split: option.splits)
  obtain w1 where w1: "worker_reach X D W release recv source w w1" "wk_phase w1 = LoopHead"
      "wk_node w1 = nd1" "wk_health w1 = h1"
    using worker_runs_a_round [OF Suc.prems(1) r(1) assms(3)] by blast
  obtain w' where "worker_reach X D W release recv source w1 w'" "wk_phase w' = LoopHead" "wk_node w' = nd" "wk_health w' = h"
    using Suc.IH [OF w1(2)] r(2) w1(3,4) by auto
  then show ?case using worker_reach_trans [OF _ w1(1)] by blast
qed

section \<open>The database of a process\<close>

lemma worker_next_commits:
  assumes "worker_next X D W release recv source w = Some w'"
  shows "(store_step X D)\<^sup>*\<^sup>* (nd_db (wk_node w)) (nd_db (wk_node w'))"
proof (cases "wk_phase w")
  case InPass
  have "wk_node (end_of_pass w r) = fst r" for r
    by (auto simp: end_of_pass_def split: prod.splits res.splits)
  then show ?thesis
    using assms InPass writes.R_run_once [of X D "wk_node w" W release]
    by (simp only: worker_next_def commits_def phase.case option.inject) metis
qed (use assms in \<open>auto simp: worker_next_def split: notification.splits\<close>)

lemma process_step_commits:
  assumes "process_step X D H W recv p p'"
  shows "(store_step X D)\<^sup>*\<^sup>* (process_db p) (process_db p') \<and> pr_service p' = pr_service p"
  using assms
proof cases
  case (work w)
  then show ?thesis using worker_next_commits by (auto simp: process_db_def)
next
  case (foreign db)
  then show ?thesis by (auto simp: process_db_def)
qed (auto simp: process_db_def bind_and_serve_def)

lemma process_commits:
  assumes "(process_step X D H W recv)\<^sup>*\<^sup>* p p'"
  shows "(store_step X D)\<^sup>*\<^sup>* (process_db p) (process_db p') \<and> pr_service p' = pr_service p"
  using assms
proof induction
  case (step p' p'')
  then show ?case using process_step_commits [OF step.hyps(2)] by (auto intro: rtranclp_trans)
qed simp

text \<open>At every point of a started process its database holds a journal of its deployment.\<close>

lemma process_holds:
  assumes "serde_laws D" and "db = empty_database \<or> store_ok X D bnd js s db"
    and "start X D H args f db = (db', Ok sv)" and "(process_step X D H W recv)\<^sup>*\<^sup>* (spawn sv) p"
  shows "\<exists>js s. store_ok X D (cfg_binding (sv_config sv)) js s (process_db p) \<and>
    replay (connect_block X) (chain_state_new X (cfg_binding (sv_config sv))) (rev (map fst js)) = Some s"
proof -
  let ?b = "cfg_binding (sv_config sv)"
  obtain js where "store_ok X D ?b js (nd_state (sv_node sv)) db'" using start_holds(1) [OF assms(1-3)] by blast
  moreover have "process_db (spawn sv) = db'"
    by (rule start_Ok [OF assms(3)]) (simp add: process_db_def spawn_def ingestion_new_def)
  ultimately have h: "store_holds X D ?b js (nd_state (sv_node sv)) (process_db (spawn sv))"
    using assms(1) by (simp add: store_holds_def)
  have "(store_step X D)\<^sup>*\<^sup>* (process_db (spawn sv)) (process_db p)" using process_commits [OF assms(4)] by blast
  from store.commits_holds [OF this h] show ?thesis
    using journal_replay store_okD(2) by (fastforce simp: store_holds_def)
qed

end
