(* ===== verification/Process_Properties.thy ===== *)
theory Process_Properties
  imports Process Startup_Properties Api_Properties
begin

text \<open>
  Properties of the running process: what its worker loop does, what survives when it stops, what
  its router answers and what it signs. \<open>regtest_service\<close> is a process started for the chain of
  \<open>Concrete_Chain\<close>.
\<close>

section \<open>A process on the demonstration chain\<close>

definition regtest_args :: args where
  "regtest_args = demo_args\<lparr>arg_network := ''regtest'', arg_allow_mainnet := False,
     arg_mainnet_authorization_file := None, arg_mainnet_authorization_sha256 := None\<rparr>"

definition regtest_config :: "(string, string) config" where
  "regtest_config = mainnet_config\<lparr>cfg_binding := demo_binding\<rparr>"

definition regtest_service :: "(demo_value, string, string) service" where
  "regtest_service = demo_service\<lparr>sv_config := regtest_config, sv_node := demo_node fresh_state fresh_db\<rparr>"

lemma regtest_args_accepted: "from_args demo_externals demo_host regtest_args = Ok regtest_config"
proof -
  have v: "validate_commit name c = Ok ()" if "commit_text c" for name c
    using that by (metis (full_types) validate_commit_iff unit.exhaust)
  show ?thesis
    unfolding from_args_def
    by (simp add: regtest_args_def regtest_config_def demo_args_def demo_host_def mainnet_config_def demo_binding_def
        demo_texts v [OF demo_texts(5)] v [OF demo_texts(6)] demo_spec_accepted network_from_str_def
        hash_texts [OF demo_hex_laws] require_def ok_or_def validate_mainnet_gate_def)
qed

lemma regtest_start:
  "start demo_externals demo_serde demo_process regtest_args Reachable empty_database = (fresh_db, Ok regtest_service)"
proof -
  have "signer_load demo_externals (Some (hex_text (replicate 32 7))) ''verifier-1'' =
      Ok \<lparr>as_key_id = ''verifier-1'', as_signing_key = array_of (replicate 32 7)\<rparr>"
    unfolding signer_load_def by (simp add: ok_or_def demo_seed_trimmed demo_externals_def hex_parse_text)
  moreover have "pool_connects demo_process url" "client_builds demo_process" for url
    by (simp_all add: demo_process_def host.defs)
  ultimately show ?thesis
    unfolding start_def demo_process_host regtest_args_accepted
    by (simp add: demo_seed_text regtest_config_def mainnet_config_def store_connect_def fresh_db_bound core_new_def
        build_wakeup_def regtest_service_def demo_service_def demo_node_def release_identity_of_def)
qed

text \<open>Another verifier commits the INIT block while the process runs.\<close>

definition regtest_process :: "(demo_value, string, string) process" where
  "regtest_process = (spawn regtest_service)
     \<lparr>pr_worker := (pr_worker (spawn regtest_service))
        \<lparr>wk_node := (wk_node (pr_worker (spawn regtest_service)))\<lparr>nd_db := init_db\<rparr>\<rparr>\<rparr>"

lemma regtest_process_reached:
  "(process_step demo_externals demo_serde demo_process demo_world recv)\<^sup>*\<^sup>* (spawn regtest_service) regtest_process"
proof -
  have "process_db (spawn regtest_service) = fresh_db"
    by (simp add: process_db_def spawn_def ingestion_new_def regtest_service_def demo_node_def)
  then have "process_step demo_externals demo_serde demo_process demo_world recv (spawn regtest_service) regtest_process"
    unfolding regtest_process_def using init_db_step by (intro foreign) simp
  then show ?thesis by (rule r_into_rtranclp)
qed

lemma regtest_process_db: "process_db regtest_process = init_db"
  by (simp add: process_db_def regtest_process_def)

section \<open>The worker loop\<close>

text \<open>
  C18. The worker task is the sequence of its rounds. At every point of its loop it holds the node
  and the health report of some number of whole rounds, and reports a catch-up exactly while a pass
  runs or after a pass panicked, so that a dead worker never looks idle. If no wait is silent, every
  round is run. The task stops only by a panic or in a wait that brings neither a message nor an
  error, which the timer never does.
\<close>

theorem worker_loop_implements_rounds:
  assumes "\<not> catching_up h"
  shows "(worker_reach X D W release recv source (ingestion_new nd h) w \<longrightarrow>
      (catching_up (wk_health w) \<longleftrightarrow> wk_phase w \<in> {InPass, Dead}) \<and>
      (if wk_phase w = Dead then \<exists>n. run_rounds X D W release n (nd, h) = None
       else \<exists>n. run_rounds X D W release n (nd, h) = Some (wk_node w, (wk_health w)\<lparr>catching_up := False\<rparr>))) \<and>
    ((\<forall>k. wakeup_wait recv source k \<noteq> Silent) \<and> run_rounds X D W release n (nd, h) = Some (nd', h') \<longrightarrow>
      (\<exists>w. worker_reach X D W release recv source (ingestion_new nd h) w \<and> wk_phase w = LoopHead \<and>
         wk_node w = nd' \<and> wk_health w = h')) \<and>
    (worker_next X D W release recv source w = None \<longleftrightarrow>
      wk_phase w = Dead \<or> wk_phase w = Waiting \<and> wakeup_wait recv source (wk_waits w) = Silent) \<and>
    wakeup_wait recv (PollWakeup ms) k \<noteq> Silent"
proof (intro conjI impI)
  assume "worker_reach X D W release recv source (ingestion_new nd h) w"
  then have r: "rounds_done X D W release (nd, h) w" by (rule worker_reach_rounds [OF _ assms])
  then show "catching_up (wk_health w) \<longleftrightarrow> wk_phase w \<in> {InPass, Dead}"
    and "if wk_phase w = Dead then \<exists>n. run_rounds X D W release n (nd, h) = None
       else \<exists>n. run_rounds X D W release n (nd, h) = Some (wk_node w, (wk_health w)\<lparr>catching_up := False\<rparr>)"
    unfolding rounds_done_def idle_pair_def by blast+
next
  let ?w = "ingestion_new nd h"
  assume *: "(\<forall>k. wakeup_wait recv source k \<noteq> Silent) \<and> run_rounds X D W release n (nd, h) = Some (nd', h')"
  have "wk_phase ?w = LoopHead" by (simp add: ingestion_new_def)
  moreover have "run_rounds X D W release n (wk_node ?w, wk_health ?w) = Some (nd', h')"
    using * by (simp add: ingestion_new_def)
  ultimately show "\<exists>w. worker_reach X D W release recv source ?w w \<and> wk_phase w = LoopHead \<and> wk_node w = nd' \<and> wk_health w = h'"
    using * by (intro worker_runs_rounds) auto
next
  show "worker_next X D W release recv source w = None \<longleftrightarrow>
      wk_phase w = Dead \<or> wk_phase w = Waiting \<and> wakeup_wait recv source (wk_waits w) = Silent"
    by (auto simp: worker_next_def split: phase.splits notification.splits)
qed (simp add: wakeup_wait_def)

theorem worker_loop_implements_rounds_witness:
  "\<exists>w. worker_reach demo_externals demo_serde demo_world demo_release (\<lambda>_. Silent) (PollWakeup 5000)
      (ingestion_new (demo_node fresh_state fresh_db) (sv_health regtest_service)) w \<and>
    nd_state (wk_node w) = init_state"
proof -
  have idle: "\<not> catching_up (sv_health regtest_service)" by (rule start_idle [OF regtest_start])
  obtain nd h where "run_round demo_externals demo_serde demo_world demo_release
        (demo_node fresh_state fresh_db, sv_health regtest_service) = Some (nd, h)" and s: "nd_state nd = init_state"
    using demo_pass by (auto simp: run_round_def)
  then have "run_rounds demo_externals demo_serde demo_world demo_release 1
      (demo_node fresh_state fresh_db, sv_health regtest_service) = Some (nd, h)" by simp
  moreover have "\<forall>k. wakeup_wait (\<lambda>_. Silent) (PollWakeup 5000) k \<noteq> Silent" by (simp add: wakeup_wait_def)
  ultimately show ?thesis
    using worker_loop_implements_rounds [OF idle, of demo_externals demo_serde demo_world demo_release "\<lambda>_. Silent"
        "PollWakeup 5000" "demo_node fresh_state fresh_db" _ 1 nd h] s by blast
qed

section \<open>Stopping and starting again\<close>

text \<open>
  C17. A process that started may stop at any point: by a signal, because its address is taken, because
  its worker died, while other verifiers write. Started again with the same command line on a
  reachable database it comes up with the same configuration, and its worker holds exactly the
  stored state, which is the replay of the journal from the empty state.
\<close>

theorem stopped_process_resumes:
  assumes "serde_laws D" and "db = empty_database \<or> store_ok X D bnd js s db"
    and "start X D H args f db = (db', Ok sv)" and "(process_step X D H W recv)\<^sup>*\<^sup>* (spawn sv) p"
  shows "\<exists>sv' js. start X D H args Reachable (process_db p) = (process_db p, Ok sv') \<and>
    sv_config sv' = sv_config sv \<and> sv_signer sv' = sv_signer sv \<and> sv_wakeup sv' = sv_wakeup sv \<and>
    store_ok X D (cfg_binding (sv_config sv)) js (nd_state (sv_node sv')) (process_db p) \<and>
    nd_db (sv_node sv') = process_db p \<and>
    replay (connect_block X) (chain_state_new X (cfg_binding (sv_config sv))) (rev (map fst js)) =
      Some (nd_state (sv_node sv'))"
proof -
  let ?b = "cfg_binding (sv_config sv)"
  obtain js s where ok: "store_ok X D ?b js s (process_db p)"
      "replay (connect_block X) (chain_state_new X ?b) (rev (map fst js)) = Some s"
    using process_holds [OF assms] by blast
  have "bind_or_load X D Reachable ?b (process_db p) = (process_db p, Ok s)"
    using bind_or_load_bound [OF store_okD(1) [OF ok(1)], of X Reachable ?b] by simp
  from start_again [OF assms(3) this] ok show ?thesis
    by (intro exI [of _ "sv\<lparr>sv_node := \<lparr>nd_state = s, nd_db = process_db p, nd_clock = 0\<rparr>\<rparr>"] exI [of _ js]) simp
qed

theorem stopped_process_resumes_witness:
  "\<exists>sv. start demo_externals demo_serde demo_process regtest_args Reachable init_db = (init_db, Ok sv) \<and>
     sv_config sv = regtest_config"
  using stopped_process_resumes [OF demo_serde_laws disjI1 [OF refl] regtest_start regtest_process_reached]
  by (auto simp: regtest_process_db regtest_service_def)

section \<open>Signing\<close>

text \<open>What the handlers of a process see of the database, at each of their calls.\<close>

definition observed ::
    "externals \<Rightarrow> 'j serde \<Rightarrow> ('u, 's) process_host \<Rightarrow> 'w world_scheme \<Rightarrow> (nat \<Rightarrow> notification)
      \<Rightarrow> ('j, 'u, 's) service \<Rightarrow> 'j api_env \<Rightarrow> bool" where
  "observed X D H W recv sv env \<longleftrightarrow>
     (\<forall>k. \<exists>p. (process_step X D H W recv)\<^sup>*\<^sup>* (spawn sv) p \<and> env_db env k = process_db p)"

definition api_state_of :: "('j, 'u, 's) service \<Rightarrow> 'j api_env \<Rightarrow> ('j, 'u, 's) api_state" where
  "api_state_of sv env = \<lparr>ap_config = sv_config sv, ap_signer = sv_signer sv, ap_env = env\<rparr>"

text \<open>
  C16. A started process signs only what its journal says. Whatever the worker and other verifiers
  write between the calls of the handler, an envelope served for a height is signed with the
  configured key, verifies, names the configured protocol, and states the roots the reducer computed
  for a block of that height in a chain of blocks replayed from the empty state of the configured
  deployment, whose hash is the one Core reports at that height.
\<close>

theorem process_signs_only_its_journal:
  assumes "serde_laws D" and "hex_laws X" and "signing_laws E"
    and "db = empty_database \<or> store_ok X D bnd js s db" and "start X D H args f db = (db', Ok sv)"
    and "observed X D H W recv sv env"
    and "router X D E order (api_state_of sv env) (AgreementAt height) t = Some (200, EnvelopeBody envelope)"
  shows "\<exists>js s b d release.
    replay (connect_block X) (chain_state_new X (cfg_binding (sv_config sv))) (rev (map fst js)) = Some s \<and>
    store_ok X D (cfg_binding (sv_config sv)) js s (env_db env (t + 3)) \<and>
    (b, d) \<in> set js \<and> bd_height d = height \<and> src_block_hash env (t + 4) height = Some (bd_block_hash d) \<and>
    ae_tuple envelope = from_roots X (protocol_id X (cfg_binding (sv_config sv))) (bd_roots d) release \<and>
    ae_key_id envelope = cfg_signing_key_id (sv_config sv) \<and>
    verify X E envelope (verifying_key E (as_signing_key (sv_signer sv))) = Ok ()"
proof -
  have signed: "agreement X D E (sv_config sv) (sv_signer sv) env height t = Ok envelope"
    using assms(7) by (cases "agreement X D E (sv_config sv) (sv_signer sv) env height t") (auto simp: api_state_of_def)
  obtain p where p: "(process_step X D H W recv)\<^sup>*\<^sup>* (spawn sv) p" "env_db env (t + 3) = process_db p"
    using assms(6) unfolding observed_def by blast
  obtain js s where js: "store_ok X D (cfg_binding (sv_config sv)) js s (env_db env (t + 3))"
      "replay (connect_block X) (chain_state_new X (cfg_binding (sv_config sv))) (rev (map fst js)) = Some s"
    using process_holds [OF assms(1,4,5) p(1)] p(2) by auto
  have "as_key_id (sv_signer sv) = cfg_signing_key_id (sv_config sv)" by (rule start_Ok [OF assms(5)])
  then show ?thesis
    using agreement_entry [OF assms(1-3) js(1) signed] js by (metis (no_types, lifting))
qed

theorem process_signs_only_its_journal_witness:
  "\<exists>envelope release (d :: block_delta). router demo_externals demo_serde demo_signing id (api_state_of regtest_service demo_env)
       (AgreementAt 100) 0 = Some (200, EnvelopeBody envelope) \<and> bd_height d = 100 \<and>
     ae_tuple envelope = from_roots demo_externals (protocol_id demo_externals demo_binding) (bd_roots d) release"
proof -
  let ?signer = "sv_signer regtest_service"
  have c: "cfg_binding (sv_config regtest_service) = demo_binding"
    by (simp add: regtest_service_def regtest_config_def)
  obtain envelope where "agreement demo_externals demo_serde demo_signing (sv_config regtest_service) ?signer demo_env 100 0
      = Ok envelope"
    using demo_agrees [OF init_db_ok c, of ?signer] by (auto simp: demo_env_def)
  then have e: "router demo_externals demo_serde demo_signing id (api_state_of regtest_service demo_env) (AgreementAt 100) 0
      = Some (200, EnvelopeBody envelope)"
    by (simp add: api_state_of_def)
  have "observed demo_externals demo_serde demo_process demo_world (\<lambda>_. Silent) regtest_service demo_env"
    unfolding observed_def demo_env_facts(3) using regtest_process_reached regtest_process_db by metis
  from process_signs_only_its_journal [OF demo_serde_laws demo_hex_laws demo_signing_laws disjI1 [OF refl]
      regtest_start this e]
  show ?thesis unfolding c using e by blast
qed

section \<open>Answering\<close>

lemma store_reads_no_panic:
  "hash_from_bytes bs \<noteq> Panic" "parse_counter n \<noteq> Panic" "transpose_i64 v \<noteq> Panic" "load_state D f db \<noteq> Panic"
  by (auto simp: hash_from_bytes_def parse_counter_def transpose_i64_def load_state_def load_state_for_update_def
      ok_or_def res_simps to_i64_def split: option.splits)

lemma rows_no_panic: "roots_from_row h r \<noteq> Panic" "reorg_from_row q \<noteq> Panic"
  by (auto simp: roots_from_row_def reorg_from_row_def res_simps store_reads_no_panic split: option.splits)

lemma res_collect_no_panic: "(\<And>r. r \<in> set rs \<Longrightarrow> r \<noteq> Panic) \<Longrightarrow> res_collect rs \<noteq> Panic"
  by (induction rs) (auto simp: res_simps)

lemma queries_no_panic:
  "roots_at f h db \<noteq> Panic" "object_query f key db \<noteq> Panic" "carrier_query f txid vout db \<noteq> Panic"
  "events_query f height k db \<noteq> Panic" "invalid_events_query f db \<noteq> Panic" "mempool_query f order db \<noteq> Panic"
  "stats_query X D fs dbs t \<noteq> Panic" "reorgs_query f db \<noteq> Panic"
  using rows_no_panic(2) res_collect_no_panic [of "map reorg_from_row _"]
  by (auto simp: roots_at_def object_query_def carrier_query_def events_query_def invalid_events_query_def
      mempool_query_def stats_query_def reorgs_query_def res_simps to_i64_def store_reads_no_panic rows_no_panic(1) Let_def
      split: option.splits) (metis image_iff image_set)+

text \<open>How a handler may end: the text of a hash is malformed, or one of the listed errors.\<close>

definition ends_in :: "bool \<Rightarrow> api_error set \<Rightarrow> (api_error, 'a) res \<Rightarrow> bool" where
  "ends_in malformed es r \<longleftrightarrow> r \<noteq> Panic \<and> (r = Err BadRequest \<longleftrightarrow> malformed) \<and> (\<forall>e. r = Err e \<longrightarrow> e \<in> insert BadRequest es)"

lemma into_response_ends:
  assumes "ends_in malformed es r" and "BadRequest \<notin> es"
  shows "\<exists>status b. into_response wrap r = Some (status, b) \<and> (status = 400 \<longleftrightarrow> malformed) \<and>
    status \<in> {200, 400} \<union> status_code ` es"
proof (cases r)
  case (Err e)
  have "status_code e = 400 \<longleftrightarrow> e = BadRequest" by (cases e) auto
  then show ?thesis using assms Err by (auto simp: ends_in_def)
qed (use assms in \<open>auto simp: ends_in_def\<close>)

definition is_hash_text :: "externals \<Rightarrow> string \<Rightarrow> bool" where
  "is_hash_text X s \<longleftrightarrow> hex_decode_to_slice X s 32 \<noteq> None"

fun malformed :: "externals \<Rightarrow> request \<Rightarrow> bool" where
  "malformed X (ObjectOf key) \<longleftrightarrow> \<not> is_hash_text X key"
| "malformed X (CarrierAt txid vout) \<longleftrightarrow> \<not> is_hash_text X txid"
| "malformed X (Events height (Some key)) \<longleftrightarrow> \<not> is_hash_text X key"
| "malformed X _ \<longleftrightarrow> False"

lemma queries_end:
  "ends_in (malformed X (ObjectOf key)) {NotFound, InternalError} (api_object X env key t)"
  "ends_in (malformed X (CarrierAt txid vout)) {NotFound, InternalError} (api_carrier X env txid vout t)"
  "ends_in (malformed X (Events height k)) {InternalError} (api_events X env height k t)"
  by (auto simp: ends_in_def api_object_def api_carrier_def api_events_def parse_hash_def wire_hash_def is_hash_text_def
      hash32_from_hex_def res_simps queries_no_panic split: option.splits)

lemma listings_end:
  "ends_in False {InternalError} (api_invalid_events env t)" "ends_in False {InternalError} (api_reorgs env t)"
  "ends_in False {InternalError} (api_stats X D env t)" "ends_in False {InternalError} (api_mempool order env t)"
  by (auto simp: ends_in_def api_invalid_events_def api_reorgs_def api_stats_def api_mempool_def res_simps queries_no_panic)

lemma agreement_ends:
  "ends_in False {NotFound, Conflict, ServiceUnavailable, InternalError} (agreement X D E cfg signer env height t)"
proof -
  have "sign X E signer a \<noteq> Panic" for a by (simp add: sign_def canonical_bytes_def res_simps)
  then show ?thesis
    by (auto simp: ends_in_def agreement_def Let_def res_simps queries_no_panic store_reads_no_panic)
qed

text \<open>
  C40. Every request is answered: no handler panics, whatever the database holds, the source answers
  and the worker reports. The answer is 400 exactly if the text of an object key or of a transaction
  id is not the hexadecimal form of 32 bytes; a missing item is 404, a height that is not canonical
  on Core 409, and only the readiness and the agreement routes answer 503.
\<close>

theorem requests_are_answered:
  "\<exists>status b. router X D E order st req t = Some (status, b) \<and>
    status \<in> {200, 400, 404, 409, 500, 503} \<and> (status = 400 \<longleftrightarrow> malformed X req) \<and>
    (status = 404 \<longrightarrow> (\<exists>key. req = ObjectOf key) \<or> (\<exists>txid vout. req = CarrierAt txid vout) \<or> (\<exists>h. req = AgreementAt h)) \<and>
    (status = 409 \<longrightarrow> (\<exists>h. req = AgreementAt h)) \<and>
    (status = 503 \<longrightarrow> req = Readyz \<or> (\<exists>h. req = AgreementAt h))"
proof (cases req)
  case Readyz
  then show ?thesis by (auto simp: readiness_check_def Let_def)
next
  case (ObjectOf key)
  then show ?thesis using into_response_ends [OF queries_end(1)] by fastforce
next
  case (CarrierAt txid vout)
  then show ?thesis using into_response_ends [OF queries_end(2)] by fastforce
next
  case (Events height k)
  then show ?thesis using into_response_ends [OF queries_end(3)] by fastforce
next
  case InvalidEvents
  then show ?thesis using into_response_ends [OF listings_end(1)] by fastforce
next
  case Reorgs
  then show ?thesis using into_response_ends [OF listings_end(2)] by fastforce
next
  case Stats
  then show ?thesis using into_response_ends [OF listings_end(3)] by fastforce
next
  case Mempool
  then show ?thesis using into_response_ends [OF listings_end(4)] by fastforce
next
  case (AgreementAt h)
  then show ?thesis using into_response_ends [OF agreement_ends] by fastforce
qed simp

theorem requests_are_answered_witness:
  "\<exists>b. router demo_externals demo_serde demo_signing id (api_state_of regtest_service demo_env) (ObjectOf ''zz'') 0 =
     Some (400, b)"
proof -
  have "malformed demo_externals (ObjectOf ''zz'')" by code_simp
  then show ?thesis
    using requests_are_answered [of demo_externals demo_serde demo_signing id "api_state_of regtest_service demo_env"
        "ObjectOf ''zz''" 0] by auto
qed

end
