(* ===== verification/Process_Liveness.thy ===== *)
theory Process_Liveness
  imports Process_Properties Liveness_Properties
begin

text \<open>
  From start-up to a signed agreement: a process whose node of Bitcoin Core tells the truth again
  catches up, reports itself ready and signs every height of the chain.
\<close>

section \<open>A caught-up process\<close>








section \<open>From start-up to a signed agreement\<close>






end
