(* ===== verification/Component_Tests.thy ===== *)
theory Component_Tests
  imports Signer Config Resolver Marker Concrete_Chain
begin

text \<open>
  The unit tests beside the components (\<open>mod tests\<close> of \<open>signer.rs\<close>, \<open>config.rs\<close>, \<open>rpc.rs\<close>,
  \<open>marker.rs\<close> and \<open>roots.rs\<close>), each as the value of its assertions, and that they pass whatever the
  external crates are, as far as these do what the test relies on.
\<close>

section \<open>Signer\<close>

definition repeat_text :: "string \<Rightarrow> nat \<Rightarrow> string" where
  "repeat_text s n = concat (replicate n s)"

definition test_tuple :: agreement_tuple where
  "test_tuple =
     \<lparr>at_schema = ''urn:tandem:agreement-tuple'',
      at_protocol_id = ''tndm:regtest:'' @ repeat_text ''a'' 64, at_height = ''1'',
      at_block_hash = repeat_text ''00'' 32, at_event_root = repeat_text ''01'' 32,
      at_object_state_root = repeat_text ''02'' 32, at_chained_root = repeat_text ''03'' 32,
      at_founding_created = ''0'', at_all_objects = ''0'', at_active_objects = ''0'',
      at_parser_commit = repeat_text ''a'' 40, at_indexer_commit = repeat_text ''b'' 40,
      at_parser_binary_sha256 = repeat_text ''c'' 64, at_indexer_binary_sha256 = repeat_text ''d'' 64\<rparr>"

definition jcs_signatures_are_stable_and_verifiable :: "externals \<Rightarrow> signing \<Rightarrow> bool" where
  "jcs_signatures_are_stable_and_verifiable X E =
     (let signer = \<lparr>as_key_id = ''test-key'', as_signing_key = array_of (replicate 32 7)\<rparr> in
      case (sign X E signer test_tuple, sign X E signer test_tuple) of
        (Ok first, Ok second) \<Rightarrow>
          ae_signature first = ae_signature second \<and>
          verify X E first (verifying_key E (as_signing_key signer)) = Ok ()
      | _ \<Rightarrow> False)"

lemma signer_test_passes:
  assumes "hex_laws X" and "signing_laws E"
  shows "jcs_signatures_are_stable_and_verifiable X E"
proof -
  let ?signer = "\<lparr>as_key_id = ''test-key'', as_signing_key = array_of (replicate 32 7)\<rparr>"
  obtain envelope where e: "sign X E ?signer test_tuple = Ok envelope" by (rule sign_Ok [OF assms(2)])
  show ?thesis
    using sign_verifies [OF assms e] by (simp add: jcs_signatures_are_stable_and_verifiable_def e)
qed

section \<open>Configuration\<close>

definition rejects_crlf_spec :: bool where
  "rejects_crlf_spec = (\<not> is_ok (verify_spec_bytes (ascii ''abc'' @ [0x0d, 0x0a])))"

definition accepts_exact_lf_contract :: bool where
  "accepts_exact_lf_contract = is_ok (verify_spec_bytes (ascii ''abc'' @ [0x0a]))"

definition gate_args :: args where
  "gate_args =
     \<lparr>arg_network = ''mainnet'', arg_init_txid = repeat_text ''01'' 32, arg_spec_path = ''unused'',
      arg_spec_sha256 = repeat_text ''02'' 32, arg_database_url = ''postgresql://unused'',
      arg_bitcoin_rpc_url = ''http://127.0.0.1:8332'', arg_bitcoin_rpc_user = ''unused'',
      arg_bitcoin_rpc_password = ''unused'', arg_bind_addr = ''127.0.0.1:8088'',
      arg_signing_key_file = ''unused'', arg_signing_key_id = ''unused'',
      arg_parser_commit = repeat_text ''a'' 40, arg_indexer_commit = repeat_text ''b'' 40,
      arg_parser_binary_sha256 = repeat_text ''c'' 64, arg_indexer_binary_sha256 = repeat_text ''d'' 64,
      arg_poll_interval_ms = 5000, arg_zmq_rawblock_url = None, arg_allow_mainnet = False,
      arg_mainnet_authorization_file = None, arg_mainnet_authorization_sha256 = None\<rparr>"

definition mainnet_gate_rejects_implicit_activation :: "externals \<Rightarrow> ('u, 's) host \<Rightarrow> bool" where
  "mainnet_gate_rejects_implicit_activation X H =
     (validate_mainnet_gate X H gate_args
        \<lparr>bnd_network = Mainnet, init_txid = array_of (replicate 32 1), spec_hash = array_of (replicate 32 2)\<rparr>
      = Err MainnetNotAllowed)"

lemma spec_tests_pass: "rejects_crlf_spec" "accepts_exact_lf_contract"
  by code_simp+

lemma gate_test_passes: "mainnet_gate_rejects_implicit_activation X H"
  by (simp add: mainnet_gate_rejects_implicit_activation_def validate_mainnet_gate_def gate_args_def require_def)

section \<open>Resolver\<close>

definition core_status_requires_synced_txindex :: bool where
  "core_status_requires_synced_txindex =
     (\<not> ready_for \<lparr>chain_label = ''regtest'', blocks = 10, headers = 10, initial_block_download = False,
        txindex_synced = False\<rparr> Regtest)"

lemma status_test_passes: core_status_requires_synced_txindex
  by (simp add: core_status_requires_synced_txindex_def ready_for_def)

text \<open>
  Identifiers of the resolver are in wire order, so the two conversions of the test are the identity
  and its first assertion is about the text of the identifier.
\<close>

definition first_txid_text :: string where
  "first_txid_text = repeat_text ''0'' 63 @ ''1''"

definition display_and_wire_txid_round_trip :: "externals \<Rightarrow> bitcoin \<Rightarrow> bool" where
  "display_and_wire_txid_round_trip X B =
     (case wire_hash X first_txid_text of Ok wire \<Rightarrow> hash_text B wire = first_txid_text | _ \<Rightarrow> False)"

lemma txid_test_passes:
  assumes "\<And>h. hash_text B h = display_hash X h"
    and "hex_decode_to_slice X first_txid_text 32 = Some (replicate 31 0 @ [1])"
    and "hex_encode X (replicate 31 0 @ [1]) = first_txid_text"
  shows "display_and_wire_txid_round_trip X B"
  using assms(2,3)
  by (simp add: display_and_wire_txid_round_trip_def wire_hash_def hash32_from_hex_def assms(1) display_hash_def)

section \<open>Markers\<close>

definition broad_candidate_keeps_truncated_payload :: "externals \<Rightarrow> bool" where
  "broad_candidate_keeps_truncated_payload X =
     (case hex_decode X ''6a4c4e544e444d0102'' of
        None \<Rightarrow> False
      | Some script \<Rightarrow>
          (case find_marker_candidate script 7 of
             None \<Rightarrow> False
           | Some candidate \<Rightarrow>
               \<not> payload_complete candidate \<and> mc_vout candidate = 7 \<and>
               (case parse candidate of Err e \<Rightarrow> me_reason e = BadMarkerEncodingOrLength | _ \<Rightarrow> False)))"

definition foreign_init_is_detected_before_strict_parse :: "externals \<Rightarrow> bool" where
  "foreign_init_is_detected_before_strict_parse X =
     (case hex_decode X ''6a07544e444d010300'' of
        None \<Rightarrow> False
      | Some script \<Rightarrow>
          (case find_marker_candidate script 0 of
             None \<Rightarrow> False
           | Some candidate \<Rightarrow>
               is_init_candidate candidate \<and>
               (case parse candidate of Err e \<Rightarrow> me_reason e = BadMarkerEncodingOrLength | _ \<Rightarrow> False)))"

lemma marker_tests_pass:
  assumes "hex_decode X ''6a4c4e544e444d0102'' = Some [0x6a, 0x4c, 0x4e, 0x54, 0x4e, 0x44, 0x4d, 0x01, 0x02]"
    and "hex_decode X ''6a07544e444d010300'' = Some [0x6a, 0x07, 0x54, 0x4e, 0x44, 0x4d, 0x01, 0x03, 0x00]"
  shows "broad_candidate_keeps_truncated_payload X" and "foreign_init_is_detected_before_strict_parse X"
proof -
  have "case find_marker_candidate [0x6a, 0x4c, 0x4e, 0x54, 0x4e, 0x44, 0x4d, 0x01, 0x02] 7 of None \<Rightarrow> False
      | Some c \<Rightarrow> \<not> payload_complete c \<and> mc_vout c = 7 \<and>
          (case parse c of Err e \<Rightarrow> me_reason e = BadMarkerEncodingOrLength | _ \<Rightarrow> False)"
    by code_simp
  then show "broad_candidate_keeps_truncated_payload X"
    by (simp add: broad_candidate_keeps_truncated_payload_def assms(1))
  have "case find_marker_candidate [0x6a, 0x07, 0x54, 0x4e, 0x44, 0x4d, 0x01, 0x03, 0x00] 0 of None \<Rightarrow> False
      | Some c \<Rightarrow> is_init_candidate c \<and> (case parse c of Err e \<Rightarrow> me_reason e = BadMarkerEncodingOrLength | _ \<Rightarrow> False)"
    by code_simp
  then show "foreign_init_is_detected_before_strict_parse X"
    by (simp add: foreign_init_is_detected_before_strict_parse_def assms(2))
qed

section \<open>Merkle roots\<close>

definition one_leaf_is_not_rehashed :: "externals \<Rightarrow> bool" where
  "one_leaf_is_not_rehashed X =
     (merkle X [array_of (replicate 32 7)] (ascii ''unused'') =
        (Ok (array_of (replicate 32 7)) :: (reducer_error, hash32) res))"

definition odd_leaf_is_duplicated :: "externals \<Rightarrow> bool" where
  "odd_leaf_is_duplicated X =
     (merkle X (map (\<lambda>n. array_of (replicate 32 n)) [1, 2, 3]) (ascii ''domain'') \<noteq>
        (Ok hash32_ZERO :: (reducer_error, hash32) res))"

lemma one_leaf_test_passes: "one_leaf_is_not_rehashed X"
  by (simp add: one_leaf_is_not_rehashed_def merkle_def merkle_loop.simps [of X _ "[_]"] index_at_def)

lemma odd_leaf_test_passes:
  assumes "\<And>bs. hash32_sha256 X bs \<noteq> hash32_ZERO"
  shows "odd_leaf_is_duplicated X"
proof -
  obtain a b where "merkle X (map (\<lambda>n. array_of (replicate 32 n)) [1, 2, 3]) (ascii ''domain'') =
      (Ok (hash32_sha256 X (node_preimage (ascii ''domain'') a b)) :: (reducer_error, hash32) res)"
    by (simp add: merkle_def merkle_loop.simps pad_level_def index_at_def)
  then show ?thesis using assms by (simp add: odd_leaf_is_duplicated_def)
qed

end
