(* ===== verification/Spec2Isabelle.thy ===== *)
theory Spec2Isabelle
  imports Codec_Properties Service_Properties Api_Properties Resolver_Properties Cli_Properties Startup_Properties
    Acceptance_Properties Liveness_Properties Serde_Properties Process_Liveness
    Component_Tests
begin

text \<open>
  TANDEM verifier: a verification development for the Rust workspace under \<open>src/\<close>.

  \<^bold>\<open>The program.\<close> TANDEM objects live on Bitcoin. A configured INIT transaction activates the
  protocol; from then on a CREATE makes an object owned by two keys, whose carrier is a 20,000
  satoshi output locked to both; MARK and ROTATE move the carrier to a new output (recording a
  commitment, or replacing the keys); CLOSE and an unmarked, mature refund end it; any other spend
  of a carrier ends it as noncanonical. The workspace has three crates. \<open>tandem-core\<close> is the
  deterministic reducer: it reads resolved blocks and maintains the objects, an index of their
  carriers, an event log and a chain of roots over them. \<open>tandem-verifier\<close> is the service around it
  (resolver for Bitcoin Core, PostgreSQL store, ingestion loop, signer, HTTP API); \<open>tandem-cli\<close>
  replays and checks its outputs. All three are modelled, up to input and output.

  \<^bold>\<open>How the parts interact.\<close> Arguments are validated into a configuration (\<open>Config\<close>); start-up
  (\<open>Startup\<close>) loads the signing seed and binds the database to the configured deployment. The worker
  (\<open>Ingest\<close>) asks a block source for blocks; the source is the resolver (\<open>Resolver\<close>), which reads them
  from Bitcoin Core and adds to every input the output it spends and whether its signatures are
  valid. The reducer turns a block into a new state and a delta, and the store (\<open>Store\<close>) commits
  both, or rolls the last delta back when the chain is reorganised. The handlers (\<open>Api\<close>) read the
  store beside the worker and sign the roots of a height (\<open>Signer\<close>). The command line (\<open>Cli\<close>) replays
  blocks through the same reducer and checks published vectors.

  \<^bold>\<open>Theories and code.\<close>
  \<^item> \<open>Tandem_Prelude\<close>: machine integers, results with errors and panics, slices, checked arithmetic.
  \<^item> \<open>Byte_Arrays\<close>, \<open>BTree_Map\<close>: Rust's \<open>[u8; N]\<close> with its order and little-endian
    codings, and \<open>BTreeMap\<close> as a sorted association list. The map's contract is the locale
    \<open>ordered_map\<close>, interpreted on that list; the model uses the facts of the interpretation.
  \<^item> \<open>Tandem_Types\<close> (\<open>types.rs\<close>), \<open>Marker\<close> (\<open>marker.rs\<close>), \<open>Roots\<close>
    (\<open>roots.rs\<close>): every type and function of these files, in their order.
  \<^item> \<open>Validation\<close> and \<open>Reducer\<close> (\<open>reducer.rs\<close>): the validators, one per operation, and
    the functions that change \<open>ChainState\<close>. A function that takes \<open>&mut ChainState\<close> returns the
    state it leaves; \<open>apply_block\<close> returns it also beside an error. The loops over transactions
    (\<open>block_loop\<close>) and carriers (\<open>terminate_loop\<close>) are recursive functions.
  \<^item> \<open>Acceptance\<close>: the protocol's operations as a specification, the bytes of a marker and the form of
    its transaction with amounts as natural numbers, and that the validators accept exactly these.
    \<open>Fixtures\<close> (\<open>reducer.rs\<close>, test module): the fixtures and tests, over any external crates.
    \<open>Lifecycle\<close>: the fixtures have the forms of the specification, so the tests pass in general.
    \<open>Acceptance_Properties\<close>: which transactions take effect, and the life cycle of an object.
  \<^item> \<open>Reducer_Steps\<close>: the outcomes of one transaction, as case rules. \<open>Reducer_Invariant\<close>:
    the invariant \<open>chain_ok\<close> and its preservation. \<open>Object_Lifecycle\<close>: the step relation
    \<open>obj_step\<close> of an object and the refinement of one transaction to it. \<open>Block_Steps\<close>: the
    induction rule for the loop over a block, totality, and the lift to \<open>apply_block\<close>.
    \<open>Event_Log\<close>: the events against the state, with \<open>replay_event\<close> as the specification of a
    reader of the log. \<open>Carrier_Safety\<close>: spends of carriers. \<open>Journal\<close>: the interface
    \<open>journaled\<close> of a state machine that can undo its last step, with the runs of any such machine;
    \<open>Chain_Runs\<close> interprets it on \<open>apply_block\<close> and \<open>disconnect_block\<close>. The locale
    \<open>durable_journal\<close> extends it with a persistent form of the journal.
  \<^item> \<open>Json\<close>: JSON values and the contract of a pair of conversions, the locale \<open>json_codec\<close> with its
    extension \<open>nonnull_codec\<close>. \<open>Serde\<close> (\<open>types.rs\<close>, \<open>reducer.rs\<close>): the JSON of the protocol data, with
    the hand-written instances, and the contract for every type. \<open>Serde_Store\<close>: the conversions of the
    store made of them. \<open>Serde_Properties\<close>: what was written is read back.
  \<^item> \<open>Store\<close> (\<open>store.rs\<close> and the migration): the tables, their keys and checks, the statements
    and the transactions. \<open>Store_Invariant\<close>: the tables that a journal of blocks denotes
    (\<open>store_ok\<close>), what each transaction does to them, and the interpretation of
    \<open>durable_journal\<close>. \<open>Store_Progress\<close>: which blocks can be stored, and what the queries find.
    \<open>Store_Types\<close>: the columns of the migration as types, kept by every operation.
  \<^item> \<open>Ingest\<close> (\<open>ingest.rs\<close> and the source interface of \<open>rpc.rs\<close>): a pass of the worker and
    its loop. \<open>Ingest_Safety\<close>: relations that every step of a pass keeps (the locale
    \<open>pass_relation\<close>, interpreted for the database and for the worker's state). \<open>Ingest_Progress\<close>:
    the bound on reconciliation, the end of a pass, and the worker that cannot recover.
    \<open>Ingest_Liveness\<close>: a pass over a source that serves one chain succeeds from wherever the worker is.
    \<open>Concrete_Node\<close>: concrete databases and sources; \<open>Service_Properties\<close>: the properties.
  \<^item> \<open>Rust_Text\<close>: the text functions of the standard library that the service uses. \<open>Resolver\<close>
    (\<open>rpc.rs\<close>): remote calls, signature checks, resolution of inputs with the cache, and the block
    source they make. \<open>Resolution\<close>: resolved blocks against the answers of Core, the bytes of the block
    and the transactions and heights it was told.
    \<open>Honest_Core\<close>: against a node that tells the truth about its chain from the INIT on, with a mempool
    that may change, every call succeeds with the view the chain determines, so the resolver is a
    source that works; \<open>Liveness_Properties\<close>: the worker catches up.
    \<open>Concrete_Core\<close>: a concrete node; \<open>Resolver_Properties\<close>: inputs, consent of the owners, and the
    carriers of a store that was filled from Core.
  \<^item> \<open>Config\<close> (\<open>config.rs\<close>): every check of \<open>from_args\<close>, in order, with its error;
    \<open>Config_Properties\<close>: what an accepted configuration guarantees. \<open>Startup\<close> (\<open>main.rs\<close> and the
    constructors it calls) and \<open>Startup_Properties\<close>: the started worker. \<open>Process\<close> (\<open>ingest.rs\<close>,
    \<open>wakeup.rs\<close>, \<open>main.rs\<close>): the worker task as a state machine over its wake-up source, and the
    process that runs it beside other writers until it is stopped. \<open>Process_Properties\<close>: the loop
    against its rounds, starting again, and what a process answers and signs. \<open>Process_Liveness\<close>: from
    start-up over an honest node to a signed agreement.
  \<^item> \<open>Signer\<close> (\<open>signer.rs\<close>) and \<open>Api\<close> (\<open>api.rs\<close>): the agreement tuple, its signature, the readiness
    report and the handlers. \<open>Agreement\<close>: journals that agree on a block hash agree on its roots.
    \<open>Api_Properties\<close>: when a height is signed, what is signed, and that verifiers agree.
  \<^item> \<open>Component_Tests\<close>: the unit tests of the other files, which pass over any external crates that
    do what a test relies on.
  \<^item> \<open>Cli\<close> (\<open>tandem-cli/src/main.rs\<close>): the three commands on parsed documents. \<open>Cli_Properties\<close>: the
    replay against the journal, the Merkle levels against the reducer's Merkle root.
  \<^item> \<open>Concrete_Chain\<close>: the fixtures on small external functions, evaluated; every witness uses them.
    \<open>Codec_Properties\<close> has the properties of the encodings, this theory those of the reducer.

  \<^bold>\<open>What is external.\<close> SHA-256, HASH160, the secp256k1 point check and hexadecimal text come from
  other crates. They are the fields of the parameter \<open>X\<close>; a property that needs something of them
  says so (\<open>hex_laws\<close>; injectivity of SHA-256 on the byte strings in question). Whether signatures
  are valid is a field of the resolved input, as in the code. The resolver's promise that input
  scripts are those of the outputs they spend is \<open>resolved_tx\<close>; \<open>stored_carriers_are_on_chain\<close>
  discharges it for the resolver. The \<open>bitcoin\<close> and \<open>secp256k1\<close> crates are the parameter \<open>B\<close> of the
  resolver and Core is the parameter \<open>C\<close>, whose replies are functions of the number of the call.
  Ed25519 and the JSON canonicalization are the parameter \<open>E\<close> of the signer (\<open>signing_laws\<close>); files,
  URLs, socket addresses and the JSON of an authorization are the parameter \<open>H\<close> of the configuration.

  \<open>serde_json\<close> is the parameter \<open>D\<close> of the store, with the law that what was written can be read
  back (\<open>serde_laws\<close>); \<open>written_values_are_read_back\<close> discharges it for the JSON of the program, given
  that a \<open>jsonb\<close> column keeps a value up to the order of members (\<open>jsonb_laws\<close>). The block source and the database server are the parameter \<open>W\<close> of the worker: every answer
  is a function of the number of the call, so they may change and fail at any time.

  \<^bold>\<open>What is assumed of the chain.\<close> \<open>admissible\<close> asks that the transactions of a block have not
  been seen before, by way of the object keys they derive; \<open>reachable_states_satisfy_invariant\<close>
  reduces this to distinct transaction ids and the absence of a SHA-256 collision. \<open>inputs_bounded\<close>
  (at most \<open>2 ^ 32\<close> inputs) follows from the block weight limit and is used for totality only.

  \<^bold>\<open>Termination and bounds.\<close> There is no fuel: every loop of the code is structural, except the
  Merkle loop, whose level shrinks, and the reconciliation of the worker, which removes a block row
  in every round. The loop of the worker runs for ever: \<open>worker_next\<close> is its step, \<open>run_rounds\<close> its
  first rounds, and \<open>worker_loop_implements_rounds\<close> relates them.
  Integers have their width; \<open>usize\<close> is \<open>nat\<close>, since every such value is the length of a vector or
  an index into one. A plain addition panics on overflow, as
  in a build with overflow checks; it is shown never to overflow, so a release build agrees. An
  index out of range panics, and it is shown that none is in the reducer and in the handlers; the
  fixture check \<open>verify_block_root\<close> of the command line does panic on a field that is too short. A
  panic of the worker ends its task and, in the release profile, the process (step \<open>abort\<close> of
  \<open>process_step\<close>).

  \<^bold>\<open>What is not modelled.\<close> JSON text is printed and parsed by \<open>serde_json\<close>, so documents are JSON
  values or the structures read from them; the derived readers are modelled on the representation
  the derived writers produce. SQL transactions are atomic and serialised, as the advisory lock
  makes those that write the chain; the lock is not modelled. \<open>replace_mempool\<close> takes no lock in the
  code; the model serialises it too, and no property of the stored chain says anything of the
  overlay's rows. The order of the overlay's listing is the server's.
  The extractors of the routes, argument parsing and logging are input and output; what the ZMQ
  socket, the listener and the signals do is a parameter, and durations are not modelled.
\<close>

section \<open>The reducer keeps its invariant\<close>

text \<open>
  C1. Applying a block of new transactions to a state that satisfies the invariant gives a state
  that satisfies it again, and all its outpoints and genesis transactions are among those seen.
\<close>

theorem apply_block_keeps_invariant:
  assumes "admissible X hs s b" and "apply_block X s b = (s', Ok d)"
  shows "chain_ok X s' \<and> history_ok (map tx_txid (transactions b) @ hs) s' \<and> binding_of s' = binding_of s"
  using apply_block_chain_ok [OF assms] by blast

theorem apply_block_keeps_invariant_witness:
  "apply_block demo_externals open_state create_block = (created_state, Ok (delta_of open_state create_block)) \<and>
   chain_ok demo_externals created_state \<and> bt_len (objects created_state) = 1"
proof -
  have "bt_len (objects created_state) = 1" by code_simp
  then show ?thesis
    using apply_block_keeps_invariant [OF open_admissible applies_delta [OF create_applied]]
      applies_delta [OF create_applied] by blast
qed

text \<open>
  C3. The events of a block determine the object table: replaying them over the old table, without
  looking at any transaction, gives exactly the new one.
\<close>

theorem events_determine_objects:
  assumes "admissible X hs s b" and "apply_block X s b = (s', Ok d)"
  shows "objects s' = fold (replay_event (protocol_status s')) (bd_events d) (objects s)"
  by (rule apply_block_maps [OF assms(2)]) (simp add: block_events_replay [OF assms(1)])

theorem events_determine_objects_witness:
  "objects marked_state =
     fold (replay_event (protocol_status marked_state)) (bd_events (delta_of created_state mark_block))
       (objects created_state)"
  by (rule events_determine_objects [OF created_admissible applies_delta [OF mark_applied]])

text \<open>
  C4. When the inputs were resolved against the chain and the transactions are in dependency order,
  no outpoint spent by the block is active after it: every spent carrier moved on or was
  terminated. The carriers of the new state are locked to the keys stored for them.
\<close>

theorem spent_carriers_are_inactive:
  assumes "admissible X hs s b" and "apply_block X s b = (s', Ok d)"
    and "carriers_on_chain X sp s" and "list_all (resolved_tx sp) (transactions b)"
    and "topological (transactions b)"
  shows "carriers_on_chain X sp s' \<and> (\<forall>p\<in>spent_outpoints b. bt_get (active s') p = None)"
proof -
  obtain s1 where e: "block_events X s b = (s1, Ok (bd_events d))"
    and s': "objects s' = objects s1" "active s' = active s1"
    by (rule apply_block_maps [OF assms(2)])
  show ?thesis
    using block_events_spends [OF assms(1) e assms(3-5)]
    by (auto simp: s' carriers_on_chain_def spent_outpoints_def)
qed

text \<open>The outputs of the demonstration chain.\<close>

definition demo_scripts :: "outpoint_ref \<Rightarrow> bytes" where
  "demo_scripts p =
     (let mark = demo_mark created_point 1108 30 1 (demo_hash 42) in
      if p = created_point then carrier_script demo_externals demo_keys
      else if op_txid p = demo_hash 30
      then (case map snd (filter (\<lambda>(j, out). u32_of_usize j = Some (op_vout p)) (enumerate_from 0 (outputs mark))) of
              out # _ \<Rightarrow> script_pubkey out | [] \<Rightarrow> [])
      else to_key (key0 demo_keys))"

theorem spent_carriers_are_inactive_witness:
  "created_point \<in> spent_outpoints mark_block \<and> bt_get (active created_state) created_point \<noteq> None \<and>
   bt_get (active marked_state) created_point = None"
proof -
  have "carriers_on_chain demo_externals demo_scripts created_state"
    and "list_all (resolved_tx demo_scripts) (transactions mark_block)"
    and "topological (transactions mark_block)"
    by code_simp+
  note * = spent_carriers_are_inactive [OF created_admissible applies_delta [OF mark_applied] this]
  have "created_point \<in> spent_outpoints mark_block"
    by (simp add: spent_outpoints_def mark_block_def chain_block_def demo_mark_def mark_transaction_def
        carrier_input_def)
  moreover have "bt_get (active created_state) created_point \<noteq> None" by code_simp
  ultimately show ?thesis using * by blast
qed

text \<open>
  C12. An object is changed only by a block that spends its carrier, and a terminated object by
  none.
\<close>

theorem only_spenders_change_objects:
  assumes "admissible X hs s b" and "apply_block X s b = (s', Ok d)" and "bt_get (objects s) k = Some ob"
    and "ob_current_outpoint ob \<notin> spent_outpoints b \<or> ob_status ob \<noteq> StActive"
  shows "bt_get (objects s') k = Some ob"
  by (rule apply_block_maps [OF assms(2)]) (simp add: block_events_untouched [OF assms(1) _ assms(3,4)])

theorem only_spenders_change_objects_witness:
  "bt_get (objects idle_state) demo_key = Some demo_object"
proof (rule only_spenders_change_objects [OF idle_admissible applies_delta [OF idle_applied]])
  show "bt_get (objects created_state) demo_key = Some demo_object" by code_simp
qed (simp add: spent_outpoints_def idle_block_def chain_block_def)

text \<open>
  C13. Over any block every object that existed makes steps of its life cycle, and every object that
  appears was created, in its initial state, by a transaction of the block.
\<close>

theorem objects_follow_their_lifecycle:
  assumes "admissible X hs s b" and "apply_block X s b = (s', Ok d)"
  shows "objects_evolve X b (transactions b) s s'"
proof -
  obtain s1 where e: "block_events X s b = (s1, Ok (bd_events d))"
    and s': "objects s' = objects s1" "protocol_status s' = protocol_status s1"
    by (rule apply_block_maps [OF assms(2)])
  show ?thesis using block_events_objects [OF assms(1) e] by (simp add: s' objects_evolve_def)
qed

theorem objects_follow_their_lifecycle_witness:
  "\<exists>ob'. bt_get (objects closed_state) demo_key = Some ob' \<and> obj_step\<^sup>*\<^sup>* marked_ob ob'"
proof -
  have "bt_get (objects marked_state) demo_key = Some marked_ob" by code_simp
  then show ?thesis
    using objects_follow_their_lifecycle [OF marked_admissible(1) applies_delta [OF close_applied]]
    unfolding objects_evolve_def by blast
qed

text \<open>
  No block deletes an object or changes what identifies it (key, genesis, founding flag,
  creation height); state and chapter numbers never decrease; a closed, refunded or exited object
  stays exactly as it is.
\<close>

theorem object_history_is_monotone:
  assumes "admissible X hs s b" and "apply_block X s b = (s', Ok d)" and "bt_get (objects s) k = Some ob"
  shows "\<exists>ob'. bt_get (objects s') k = Some ob' \<and> same_identity ob ob' \<and>
    ob_state_seq ob \<le> ob_state_seq ob' \<and> ob_chapter_count ob \<le> ob_chapter_count ob' \<and>
    (ob_status ob = StActive \<or> ob' = ob)"
proof -
  obtain s1 where e: "block_events X s b = (s1, Ok (bd_events d))" and s': "objects s' = objects s1"
    by (rule apply_block_maps [OF assms(2)])
  obtain ob' where "bt_get (objects s') k = Some ob'" "obj_step\<^sup>*\<^sup>* ob ob'"
    using block_events_objects [OF assms(1) e] assms(3) unfolding objects_evolve_def s' by blast
  then show ?thesis using obj_steps_facts [of ob ob'] by (auto simp: word_le_nat_alt)
qed

theorem object_history_is_monotone_witness:
  "\<exists>ob'. bt_get (objects closed_state) demo_key = Some ob' \<and> same_identity marked_ob ob' \<and>
    1 \<le> ob_state_seq ob'"
proof -
  have "bt_get (objects marked_state) demo_key = Some marked_ob" by code_simp
  note * = object_history_is_monotone [OF marked_admissible(1) applies_delta [OF close_applied] this]
  have "ob_state_seq marked_ob = 1" by code_simp
  then show ?thesis using * by auto
qed

section \<open>Reorganisations\<close>

text \<open>
  C11. After any sequence of connections and disconnections the state is the one that applying the
  surviving blocks in order to a fresh state gives, and the newest of them can be disconnected.
\<close>

theorem reorganised_state_is_replay:
  assumes "run (connect_block X) undo_block (chain_state_new X bnd) js s"
  shows "replay (connect_block X) (chain_state_new X bnd) (rev (map fst js)) = Some s \<and>
    (\<forall>b d js'. js = (b, d) # js' \<longrightarrow>
       (\<exists>s'. undo_block s d = Some s' \<and> replay (connect_block X) (chain_state_new X bnd) (rev (map fst js')) = Some s'))"
proof (intro conjI allI impI)
  show "replay (connect_block X) (chain_state_new X bnd) (rev (map fst js)) = Some s"
    using assms by (rule reducer.run_replay)
next
  fix b d js'
  assume "js = (b, d) # js'"
  then obtain s' where "undo_block s d = Some s'"
      "run (connect_block X) undo_block (chain_state_new X bnd) js' s'"
    using reducer.run_rollback assms by blast
  then show "\<exists>s'. undo_block s d = Some s' \<and>
      replay (connect_block X) (chain_state_new X bnd) (rev (map fst js')) = Some s'"
    using reducer.run_replay by blast
qed

text \<open>
  C14. Every state reached by connecting and disconnecting blocks from a fresh state satisfies the
  invariant, when no transaction id occurs twice on the surviving chain and SHA-256 does not
  collide on the object key preimages of its transactions.
\<close>

theorem reachable_states_satisfy_invariant:
  assumes "run (connect_block X) undo_block (chain_state_new X bnd) js s"
    and "distinct (block_txids (rev (map fst js)))"
    and "inj_on (sha256_digest X) (object_key_preimage (namespace X bnd) ` set (block_txids (rev (map fst js))))"
  shows "chain_ok X s"
  using replay_chain_ok [OF reducer.run_replay [OF assms(1)], of "[]"] distinct_keysI [OF assms(2,3)] by simp

text \<open>A run that connects INIT and an empty block and disconnects the latter.\<close>

definition next_block :: block_view where
  "next_block = demo_block 101 []"

definition next_state :: chain_state where
  "next_state = fst (apply_block demo_externals init_state next_block)"

lemma next_applied: "applies init_state next_block next_state"
  by code_simp

lemma demo_run:
  "run (connect_block demo_externals) undo_block (chain_state_new demo_externals demo_binding)
     [(init_block, delta_of fresh_state init_block)] init_state"
proof -
  have "run (connect_block demo_externals) undo_block fresh_state [(init_block, delta_of fresh_state init_block)] init_state"
    by (rule run_connect [OF run_start]) (simp add: connect_block_iff applies_delta init_applied)
  then have "run (connect_block demo_externals) undo_block fresh_state
      [(next_block, delta_of init_state next_block), (init_block, delta_of fresh_state init_block)] next_state"
    by (rule run_connect) (simp add: connect_block_iff applies_delta next_applied)
  then have "run (connect_block demo_externals) undo_block fresh_state
      [(init_block, delta_of fresh_state init_block)] init_state"
    by (rule run_disconnect) (simp add: undo_block_def disconnect_apply [OF applies_delta [OF next_applied]])
  then show ?thesis by (simp add: fresh_state_def)
qed

theorem reorganised_state_is_replay_witness:
  "replay (connect_block demo_externals) (chain_state_new demo_externals demo_binding) [init_block] = Some init_state"
  using reorganised_state_is_replay [OF demo_run] by simp

theorem reachable_states_satisfy_invariant_witness: "chain_ok demo_externals init_state"
proof (rule reachable_states_satisfy_invariant [OF demo_run])
  have "block_txids (rev (map fst [(init_block, delta_of fresh_state init_block)])) = [demo_hash 1]"
    by (simp add: block_txids_def init_block_def chain_block_def demo_init_def init_transaction_def demo_binding_def)
  then show "distinct (block_txids (rev (map fst [(init_block, delta_of fresh_state init_block)])))"
    and "inj_on (sha256_digest demo_externals) (object_key_preimage (namespace demo_externals demo_binding) `
       set (block_txids (rev (map fst [(init_block, delta_of fresh_state init_block)]))))"
    by simp_all
qed

section \<open>Results and errors of a block\<close>

text \<open>
  C15. On a state that satisfies the invariant a block is applied exactly when it extends the tip,
  its transaction count fits 32 bits and, while the protocol awaits its INIT, it contains the
  configured INIT transaction; and no path panics.
\<close>

theorem apply_block_succeeds_iff:
  assumes "admissible X hs s b" and "inputs_bounded b"
  shows "((\<exists>s' d. apply_block X s b = (s', Ok d)) \<longleftrightarrow>
      validate_linkage s b = Ok () \<and> length (transactions b) \<le> 4294967295 \<and>
      (protocol_status s = AwaitingInit \<longrightarrow> init_txid (binding_of s) \<in> tx_txid ` set (transactions b))) \<and>
    snd (apply_block X s b) \<noteq> Panic"
  using apply_block_result [OF assms] by blast

theorem apply_block_succeeds_iff_witness:
  "snd (apply_block demo_externals fresh_state init_block) \<noteq> Panic \<and>
   (\<exists>s' d. apply_block demo_externals fresh_state init_block = (s', Ok d)) \<and>
   validate_linkage fresh_state init_block = Ok ()"
proof -
  have "inputs_bounded init_block" by code_simp
  from apply_block_succeeds_iff [OF fresh_admissible this] applies_delta [OF init_applied]
  show ?thesis by blast
qed

text \<open>
  A block that is refused leaves the state untouched, whatever the state and the error: no
  partial block is committed. This holds of every state, also one that violates the invariant.
\<close>

theorem refused_block_changes_nothing:
  "apply_block X s b = (s', Err e) \<longrightarrow> s' = s"
  using apply_block_Err by blast

theorem refused_block_changes_nothing_witness:
  "fst (apply_block demo_externals fresh_state (demo_block 100 [])) = fresh_state"
proof -
  have "apply_block demo_externals fresh_state (demo_block 100 []) = (fresh_state, Err ConfiguredInitAbsent)"
    by code_simp
  with refused_block_changes_nothing [of demo_externals fresh_state "demo_block 100 []" _ ConfiguredInitAbsent]
  show ?thesis by simp
qed

text \<open>Disconnecting the journal entry a block returned restores the state before it.\<close>

theorem disconnect_restores_state:
  assumes "apply_block X s b = (s', Ok d)"
  shows "disconnect_block s' d = (s, Ok ())"
  using assms by (rule disconnect_apply)

theorem disconnect_restores_state_witness:
  "disconnect_block created_state (delta_of open_state create_block) = (open_state, Ok ())"
  by (rule disconnect_restores_state [OF applies_delta [OF create_applied]])

text \<open>
  A block is accepted on a state with a tip only at the next height and on the tip's hash, and
  the height never wraps around.
\<close>

theorem linkage_extends_the_tip:
  "validate_linkage s b = Ok () \<longleftrightarrow>
     (case tip_height s of None \<Rightarrow> True
      | Some h \<Rightarrow> unat (bv_height b) = Suc (unat h) \<and> tip_hash s = Some (bv_previous_hash b))"
  by (auto simp: validate_linkage_def res_simps chk_simps split: option.splits if_splits)

section \<open>Events\<close>

text \<open>
  C23. The events of a block come in strictly increasing order of (transaction, event, sub-event)
  index, so no two share a position and the sort in \<open>event_root\<close> changes nothing, and each is
  attributed to the block and to the transaction at its index.
\<close>

theorem events_are_ordered_and_attributed:
  assumes "admissible X hs s b" and "apply_block X s b = (s', Ok d)"
  shows "sorted_wrt (<) (map event_order (bd_events d)) \<and>
    sort_key event_order (bd_events d) = bd_events d \<and>
    (\<forall>e\<in>set (bd_events d). unat (ev_tx_index e) < length (transactions b) \<and>
       attributed b (transactions b ! unat (ev_tx_index e)) (ev_tx_index e) e)"
proof -
  have "events_from b 0 (transactions b) (bd_events d)"
    by (rule apply_block_maps [OF assms(2)]) (simp add: block_events_from [OF assms(1)])
  then show ?thesis by (auto simp: events_from_def sort_key_sorted)
qed

theorem events_are_ordered_and_attributed_witness:
  "sort_key event_order (bd_events (delta_of open_state create_block)) = bd_events (delta_of open_state create_block)"
  using events_are_ordered_and_attributed [OF open_admissible applies_delta [OF create_applied]] by blast

text \<open>
  The counters of a state that satisfies the invariant count its objects: all of them, the
  founding ones, and the active ones, which are as many as the active index has entries.
\<close>

theorem counters_count_objects:
  assumes "chain_ok X s"
  shows "all_objects (state_counters s) = word_of_int (int (card (dom (bt_get (objects s))))) \<and>
    founding_created (state_counters s) =
      word_of_int (int (card {k. \<exists>ob. bt_get (objects s) k = Some ob \<and> ob_founding ob})) \<and>
    active_objects (state_counters s) = word_of_int (int (card (dom (bt_get (active s)))))"
  unfolding state_counters_def chain_ok_active_count [OF assms] by (simp add: bt_len_card bt_values_count)

theorem counters_count_objects_witness:
  "active_objects (state_counters marked_state) = 1 \<and> card (dom (bt_get (active marked_state))) = 1"
proof -
  have ok: "chain_ok demo_externals marked_state" using marked_admissible(1) by (simp add: admissible_def)
  have one: "bt_len (active marked_state) = 1" by code_simp
  then show ?thesis using counters_count_objects [OF ok] by (simp add: bt_len_card)
qed

text \<open>
  A transaction with no marker candidate that spends no active outpoint emits nothing and
  changes nothing.
\<close>

theorem unmatched_transactions_are_inert:
  assumes "marker_candidates tx (binding_of s) = []"
    and "\<forall>inp\<in>set (inputs tx). bt_get (active s) (prevout inp) = None"
  shows "process_transaction X s b tx i = Ok (s, [])"
  using assms carrier_spends_empty [OF assms(2)] by (simp add: process_transaction_def)

theorem unmatched_transactions_are_inert_witness:
  "process_transaction demo_externals created_state idle_block (demo_refund marked_point 1109) 0 =
     Ok (created_state, [])"
proof (rule unmatched_transactions_are_inert)
  show "marker_candidates (demo_refund marked_point 1109) (binding_of created_state) = []" by code_simp
  show "\<forall>inp\<in>set (inputs (demo_refund marked_point 1109)). bt_get (active created_state) (prevout inp) = None"
    by code_simp
qed

section \<open>INIT\<close>

text \<open>
  After a failed INIT every block that extends the tip is applied with no event and no change
  of the protocol status or the maps.
\<close>

theorem failed_init_is_permanent:
  assumes "protocol_status s = FailedInit rsn h" and "apply_block X s b = (s', Ok d)"
  shows "protocol_status s' = FailedInit rsn h \<and> bd_events d = [] \<and> objects s' = objects s \<and> active s' = active s"
  by (rule apply_block_maps [OF assms(2)]) (use assms(1) in \<open>simp add: block_events_def\<close>)

theorem failed_init_is_permanent_witness:
  "\<exists>s' d. apply_block demo_externals (fresh_state\<lparr>protocol_status := FailedInit WrongNetwork 100\<rparr>) (demo_block 101 []) = (s', Ok d) \<and>
     protocol_status s' = FailedInit WrongNetwork 100 \<and> bd_events d = []"
proof -
  let ?s = "fresh_state\<lparr>protocol_status := FailedInit WrongNetwork 100\<rparr>"
  have "connect_block demo_externals ?s (demo_block 101 []) \<noteq> None" by code_simp
  then obtain s' d where "apply_block demo_externals ?s (demo_block 101 []) = (s', Ok d)"
    by (auto simp: connect_block_iff)
  moreover have "protocol_status ?s = FailedInit WrongNetwork 100" by simp
  ultimately show ?thesis using failed_init_is_permanent by blast
qed

text \<open>
  The block that activates the protocol fixes phases that follow from its height: CREATE opens
  at least 1,008 blocks later and the founding window closes exactly 4,320 blocks after that. No
  object exists after it.
\<close>

theorem activation_fixes_the_phases:
  assumes "admissible X hs s b" and "apply_block X s b = (s', Ok d)" and "protocol_status s = AwaitingInit"
    and "protocol_status s' = ProtocolActive ih ho hc"
  shows "unat hc = unat ho + 4320 \<and> unat ih + 1008 \<le> unat ho \<and> objects s' = bt_new \<and> active s' = bt_new"
proof -
  obtain s1 where e: "block_events X s b = (s1, Ok (bd_events d))"
    and s': "objects s' = objects s1" "active s' = active s1" "protocol_status s' = protocol_status s1"
    by (rule apply_block_maps [OF assms(2)])
  have "phases_ok (ProtocolActive ih ho hc)"
    using chain_ok_phases [OF apply_block_chain_ok(1) [OF assms(1,2)]] assms(4) by simp
  then have "unat hc = unat ho + 4320" and "unat ih + 1008 \<le> unat ho"
    using u32_bound [of ho] unat_u64_of_u32 [of hc] unat_u64_of_u32 [of ho]
    by (auto simp: phases_ok_def unat_word_ariths)
  then show ?thesis using block_events_starts_empty [OF assms(1) e assms(3)] by (simp add: s')
qed

theorem activation_fixes_the_phases_witness:
  "unat (5428 :: u32) = unat (1108 :: u32) + 4320 \<and> objects init_state = bt_new"
proof -
  have "protocol_status fresh_state = AwaitingInit" "protocol_status init_state = ProtocolActive 100 1108 5428"
    by (simp_all add: fresh_state_def chain_state_new_def init_state_def)
  from activation_fixes_the_phases [OF fresh_admissible applies_delta [OF init_applied] this] show ?thesis
    by blast
qed

section \<open>Bounds and panics\<close>

text \<open>
  C24. The maturity of a refund is exact to the block and depends on nothing but the two heights. A
  transaction that is a valid refund of an object at some height, of a carrier confirmed at \<open>c\<close>, is
  at every height either accepted or refused as \<open>BadRefundShapeOrMaturity\<close>: accepted above \<open>c\<close> once
  52,560 blocks have passed or where \<open>c + 52560\<close> does not fit 64 bits. The sum is then \<open>None\<close>,
  which is below every \<open>Some\<close>, so the delay vanishes and the very next block accepts the refund; at
  every height the store can hold (below \<open>2 ^ 63\<close>) the delay is the full one.
\<close>

theorem refund_maturity_is_exact:
  assumes "validate_refund X h0 tx ob = Ok ()" and "prevout_height (inputs tx ! 0) = Some c"
  shows "validate_refund X h tx ob =
      (if c < h \<and> (unat c + 52560 \<le> unat h \<or> 2 ^ 64 \<le> unat c + 52560) then Ok ()
       else Err BadRefundShapeOrMaturity) \<and>
    (unat h < 2 ^ 63 \<longrightarrow> (validate_refund X h tx ob = Ok () \<longleftrightarrow> unat c + 52560 \<le> unat h)) \<and>
    (2 ^ 64 \<le> unat c + 52560 \<longrightarrow> validate_refund X (c + 1) tx ob = Ok ())"
proof -
  have form: "refund_form X h0 tx ob" using assms(1) by (simp add: validate_refund_iff)
  then have "c < h0" using assms(2) by (simp add: refund_form_def refund_mature_def)
  then have later: "c < c + 1" using u64_bound [of h0] by (simp add: word_less_nat_alt unat_word_ariths)
  have ok: "validate_refund X g tx ob = Ok () \<longleftrightarrow> refund_mature c g" for g
    using form assms(2) unfolding validate_refund_iff refund_form_def by (elim conjE) simp
  then have "validate_refund X h tx ob =
      (if refund_mature c h then Ok () else Err BadRefundShapeOrMaturity)"
    using validate_refund_outcome [of X h tx ob] by auto
  moreover have "unat c + 52560 \<le> unat h" if "unat h < 2 ^ 63" "refund_mature c h"
    using that by (auto simp: refund_mature_def word_less_nat_alt)
  moreover have "refund_mature c g" if "unat c + 52560 \<le> unat g" for g
    using that by (auto simp: refund_mature_def word_less_nat_alt)
  ultimately show ?thesis using later unfolding ok refund_mature_def by auto
qed

theorem refund_maturity_is_exact_witness:
  "validate_refund demo_externals 53668 (demo_refund marked_point 1109) marked_ob = Err BadRefundShapeOrMaturity \<and>
   validate_refund demo_externals 53669 (demo_refund marked_point 1109) marked_ob = Ok () \<and>
   validate_refund demo_externals (18446744073709551000 + 1) (demo_refund marked_point 18446744073709551000) marked_ob =
     Ok ()"
proof -
  have "validate_refund demo_externals 60000 (demo_refund marked_point 1109) marked_ob = Ok ()" by code_simp
  from refund_maturity_is_exact [OF this, of 1109 53668] refund_maturity_is_exact [OF this, of 1109 53669]
  have "validate_refund demo_externals 53668 (demo_refund marked_point 1109) marked_ob = Err BadRefundShapeOrMaturity"
    and "validate_refund demo_externals 53669 (demo_refund marked_point 1109) marked_ob = Ok ()"
    by (simp_all add: demo_refund_def refund_transaction_def)
  moreover have "validate_refund demo_externals 18446744073709551615
      (demo_refund marked_point 18446744073709551000) marked_ob = Ok ()" by code_simp
  from refund_maturity_is_exact [OF this, of 18446744073709551000 0]
  have "validate_refund demo_externals (18446744073709551000 + 1)
      (demo_refund marked_point 18446744073709551000) marked_ob = Ok ()"
    by (simp add: demo_refund_def refund_transaction_def)
  ultimately show ?thesis by blast
qed

text \<open>
  No validator reads out of range or overflows: the markers found in a transaction parse
  without a panic, and every marker that parses is validated without one, as are the configured
  INIT and every refund.
\<close>

theorem validators_never_panic:
  assumes "c \<in> set (marker_candidates tx b)"
  shows "parse c \<noteq> Panic \<and>
    (\<forall>m. parse c = Ok m \<longrightarrow> validate_single X s h tx m carrier \<noteq> Panic \<and> (observed_namespace m :: (reason, hash32 option) res) \<noteq> Panic) \<and>
    validate_configured_init X b h tx \<noteq> Panic \<and> validate_refund X h tx ob \<noteq> Panic"
proof -
  obtain script where f: "find_marker_candidate script (mc_vout c) = Some c"
    using marker_candidates_found [OF assms] by blast
  show ?thesis
    using parse_found_no_panic [OF f] parse_found_well_parsed(1) [OF f] validate_single_no_panic
      observed_namespace_no_panic validate_configured_init_no_panic validate_refund_no_panic by blast
qed

theorem validators_never_panic_witness:
  "marker_candidates demo_create demo_binding \<noteq> [] \<and>
   parse (hd (marker_candidates demo_create demo_binding)) \<noteq> Panic"
proof -
  have "marker_candidates demo_create demo_binding \<noteq> []" by code_simp
  then show ?thesis using validators_never_panic [OF hd_in_set] by blast
qed

end
